(* ===== verification/Prelude.thy ===== *)
theory Prelude
  imports Main "HOL-Library.Word"
begin

section \<open>Prelude: shared types, results and integer lemmas\<close>

text \<open>
  What every other theory shares: the machine types of the Go sources, the
  error-propagating sequencing of fallible functions (\<open>if err != nil { return err }\<close>),
  lemmas on signed 64-bit arithmetic, and lemmas on tables kept as lists of rows.

  \<^item> \<open>int64\<close> is a 64-bit word read as two's complement through \<open>sint\<close>; \<open>+\<close>, \<open>-\<close>
    wrap around exactly as Go's do.
  \<^item> \<open>uuid\<close> is the 16-byte array of package \<open>google/uuid\<close>, with \<open>uuid.Nil = 0\<close>.
  \<^item> \<open>time\<close> counts nanoseconds from Go's zero instant, so \<open>t.IsZero()\<close> is \<open>t = 0\<close>;
    \<open>t.UTC()\<close> is the same instant and is the identity here.
  \<^item> a Go string is a list of bytes (\<open>char\<close>).
\<close>

type_synonym int64 = "64 word"
type_synonym uuid = "128 word"
type_synonym time = int
type_synonym duration = "64 word"

definition uuid_Nil :: uuid where
  "uuid_Nil = 0"

definition time_IsZero :: "time \<Rightarrow> bool" where
  "time_IsZero t = (t = 0)"

definition time_Add :: "time \<Rightarrow> duration \<Rightarrow> time" where
  "time_Add t d = t + sint d"

definition MaxInt64 :: int64 where
  "MaxInt64 = 9223372036854775807"

definition MinInt64 :: int64 where
  "MinInt64 = - 9223372036854775808"

subsection \<open>Sequencing of fallible functions\<close>

text \<open>
  \<open>and_then x f\<close> is \<open>v, err := x; if err != nil { return err }; f(v)\<close>: the first
  error is returned as it is.
\<close>

definition and_then :: "'e + 'a \<Rightarrow> ('a \<Rightarrow> 'e + 'b) \<Rightarrow> 'e + 'b" where
  "and_then x f = (case x of Inl e \<Rightarrow> Inl e | Inr v \<Rightarrow> f v)"

lemma and_then_simps [simp]:
  "and_then (Inl e) f = Inl e"
  "and_then (Inr v) f = f v"
  by (simp_all add: and_then_def)

lemma and_then_Inr_iff:
  "and_then x f = Inr y \<longleftrightarrow> (\<exists>v. x = Inr v \<and> f v = Inr y)"
  by (cases x) auto

lemma and_then_Inl_iff:
  "and_then x f = Inl e \<longleftrightarrow> x = Inl e \<or> (\<exists>v. x = Inr v \<and> f v = Inl e)"
  by (cases x) auto

lemma and_then_assoc:
  "and_then (and_then x f) g = and_then x (\<lambda>v. and_then (f v) g)"
  by (cases x) auto

definition isOk :: "'e + 'a \<Rightarrow> bool" where
  "isOk x = (case x of Inl _ \<Rightarrow> False | Inr _ \<Rightarrow> True)"

lemma isOk_simps [simp]: "isOk (Inr v)" "\<not> isOk (Inl e)"
  by (simp_all add: isOk_def)

lemma isOk_iff: "isOk x \<longleftrightarrow> (\<exists>v. x = Inr v)"
  by (cases x) auto

subsection \<open>Signed 64-bit arithmetic\<close>

text \<open>
  A sum or difference of two signed 64-bit values is at most one wrap-around
  away from the exact one.
\<close>

definition in_int64 :: "int \<Rightarrow> bool" where
  "in_int64 k \<longleftrightarrow> - 9223372036854775808 \<le> k \<and> k \<le> 9223372036854775807"

lemma sint_in_int64 [simp]: "in_int64 (sint (a :: int64))"
  using sint_ge [of a] sint_lt [of a] by (simp add: in_int64_def)

lemma sint_lower: "- 9223372036854775808 \<le> sint (a :: int64)"
  and sint_upper: "sint (a :: int64) \<le> 9223372036854775807"
  using sint_in_int64 [of a] by (simp_all add: in_int64_def)

lemma sint_word_of_int:
  "in_int64 k \<Longrightarrow> sint (word_of_int k :: int64) = k"
  by (simp add: in_int64_def sint_sbintrunc' signed_take_bit_int_eq_self)

lemma sint_eq_iff: "sint (a :: int64) = sint b \<longleftrightarrow> a = b"
  by (simp add: signed_word_eqI inj_eq)

lemma mod_one_below:
  fixes k m :: int
  assumes "- m \<le> k" and "k < 0"
  shows "k mod m = k + m"
proof -
  have "k mod m = (k + m) mod m" by (simp only: mod_add_self2)
  also have "\<dots> = k + m" by (rule mod_pos_pos_trivial) (use assms in linarith)+
  finally show ?thesis .
qed

lemma mod_one_above:
  fixes k m :: int
  assumes "m \<le> k" and "k < 2 * m"
  shows "k mod m = k - m"
proof -
  have "k mod m = (k - m) mod m" by (rule minus_mod_self2 [symmetric])
  also have "\<dots> = k - m" by (rule mod_pos_pos_trivial) (use assms in linarith)+
  finally show ?thesis .
qed

lemma signed_take_bit_wrap:
  fixes k :: int
  assumes "- 18446744073709551616 \<le> k" and "k < 18446744073709551616"
  shows "signed_take_bit 63 k =
    (if k < - 9223372036854775808 then k + 18446744073709551616
     else if 9223372036854775808 \<le> k then k - 18446744073709551616 else k)"
proof -
  have eq: "signed_take_bit 63 k = (k + 9223372036854775808) mod 18446744073709551616 - 9223372036854775808"
    by (simp add: signed_take_bit_eq_take_bit_shift take_bit_eq_mod)
  show ?thesis
    using assms mod_one_below [of 18446744073709551616 "k + 9223372036854775808"]
      mod_one_above [of 18446744073709551616 "k + 9223372036854775808"]
      mod_pos_pos_trivial [of "k + 9223372036854775808" 18446744073709551616]
    unfolding eq by (simp split: if_split)
qed

lemma sint_add64:
  fixes a b :: int64
  shows "sint (a + b) =
    (let k = sint a + sint b in
      if k < - 9223372036854775808 then k + 18446744073709551616
      else if 9223372036854775808 \<le> k then k - 18446744073709551616 else k)"
  using sint_lower [of a] sint_upper [of a] sint_lower [of b] sint_upper [of b]
  by (simp add: sint_word_add Let_def signed_take_bit_wrap)

lemma sint_sub64:
  fixes a b :: int64
  shows "sint (a - b) =
    (let k = sint a - sint b in
      if k < - 9223372036854775808 then k + 18446744073709551616
      else if 9223372036854775808 \<le> k then k - 18446744073709551616 else k)"
proof -
  have "sint (a - b) = signed_take_bit 63 (sint a - sint b)"
    by (simp add: sint_word_ariths)
  then show ?thesis
    using sint_lower [of a] sint_upper [of a] sint_lower [of b] sint_upper [of b]
    by (simp add: Let_def signed_take_bit_wrap)
qed

lemma sint_minus64:
  fixes a :: int64
  shows "sint (- a) = (if a = MinInt64 then - 9223372036854775808 else - sint a)"
proof -
  have "sint (- a) = signed_take_bit 63 (- sint a)"
    by (simp add: sint_word_ariths)
  moreover have "a = MinInt64 \<longleftrightarrow> sint a = - 9223372036854775808"
    by (simp add: MinInt64_def flip: sint_eq_iff)
  ultimately show ?thesis
    using sint_lower [of a] sint_upper [of a]
    by (simp add: signed_take_bit_wrap)
qed

end
