(* ===== verification/Apperr.thy ===== *)
theory Apperr
  imports Prelude
begin

section \<open>Errors (internal/domain/apperr, and the errors of the standard library)\<close>

text \<open>
  Go's \<open>error\<close> values as a datatype. \<open>AppError\<close> is \<open>*apperr.Error\<close>; \<open>PlainError\<close> is a
  sentinel made by \<open>errors.New\<close>, identified by its text; \<open>WrapError\<close> is
  \<open>fmt.Errorf("...: %w", err)\<close> with its prefix; \<open>PermanentError\<close> is
  \<open>*ports.PermanentError\<close>; \<open>JoinErrors\<close> is \<open>errors.Join\<close> of two errors; \<open>PgError\<close> is the
  driver's \<open>*pgconn.PgError\<close> with its SQLSTATE and constraint name; \<open>LibError\<close> is any other
  error of a library. A message is kept as the text or as the call of \<open>fmt.Sprintf\<close> that
  makes it: no decision of the code depends on how it is rendered.
\<close>

datatype fmt_arg = SArg string | IArg int | UArg uuid

datatype message = Text string | Sprintf string "fmt_arg list"

datatype error_kind =
    KindInvalid | KindNotFound | KindConflict | KindRejected
  | KindUnauthorized | KindForbidden | KindUnavailable | KindInternal

datatype goerror =
    AppError error_kind string message "goerror option"
  | PlainError string
  | WrapError string goerror
  | PermanentError goerror
  | JoinErrors goerror goerror
  | PgError string string
  | LibError string

type_synonym 'a result = "goerror + 'a"

definition apperr_New :: "error_kind \<Rightarrow> string \<Rightarrow> message \<Rightarrow> goerror" where
  "apperr_New kind code msg = AppError kind code msg None"

definition apperr_Wrap :: "error_kind \<Rightarrow> string \<Rightarrow> message \<Rightarrow> goerror \<Rightarrow> goerror" where
  "apperr_Wrap kind code msg err = AppError kind code msg (Some err)"

subsection \<open>The chain of an error\<close>

text \<open>
  \<open>errors.As\<close> and \<open>errors.Is\<close> visit an error, then what it wraps, depth first;
  \<open>error_chain\<close> is that order.
\<close>

fun error_chain :: "goerror \<Rightarrow> goerror list" where
  "error_chain (AppError k c m None) = [AppError k c m None]"
| "error_chain (AppError k c m (Some e)) = AppError k c m (Some e) # error_chain e"
| "error_chain (PlainError s) = [PlainError s]"
| "error_chain (WrapError s e) = WrapError s e # error_chain e"
| "error_chain (PermanentError e) = PermanentError e # error_chain e"
| "error_chain (JoinErrors e f) = JoinErrors e f # error_chain e @ error_chain f"
| "error_chain (PgError s c) = [PgError s c]"
| "error_chain (LibError s) = [LibError s]"

definition is_app_error :: "goerror \<Rightarrow> bool" where
  "is_app_error e = (case e of AppError _ _ _ _ \<Rightarrow> True | _ \<Rightarrow> False)"

definition errors_As_app :: "goerror \<Rightarrow> goerror option" where
  "errors_As_app err = find is_app_error (error_chain err)"

definition KindOf :: "goerror \<Rightarrow> error_kind" where
  "KindOf err = (case errors_As_app err of Some (AppError k c m e) \<Rightarrow> k | _ \<Rightarrow> KindInternal)"

definition CodeOf :: "goerror \<Rightarrow> string" where
  "CodeOf err = (case errors_As_app err of Some (AppError k c m e) \<Rightarrow> c | _ \<Rightarrow> '''')"

definition IsKind :: "goerror \<Rightarrow> error_kind \<Rightarrow> bool" where
  "IsKind err kind = (KindOf err = kind)"

text \<open>The method \<open>(*Error).Is\<close>: equal codes.\<close>

definition Error_Is :: "goerror \<Rightarrow> goerror \<Rightarrow> bool" where
  "Error_Is e target =
     (case e of AppError k c m i \<Rightarrow>
        (case errors_As_app target of Some (AppError k' c' m' i') \<Rightarrow> c = c' | _ \<Rightarrow> False)
      | _ \<Rightarrow> False)"

definition errors_Is :: "goerror \<Rightarrow> goerror \<Rightarrow> bool" where
  "errors_Is err target = list_ex (\<lambda>e. e = target \<or> Error_Is e target) (error_chain err)"

text \<open>\<open>(*Error).Unwrap\<close>.\<close>

definition Error_Unwrap :: "goerror \<Rightarrow> goerror option" where
  "Error_Unwrap e = (case e of AppError k c m i \<Rightarrow> i | _ \<Rightarrow> None)"

subsection \<open>Lemmas\<close>

lemma errors_As_app_simps [simp]:
  "errors_As_app (AppError k c m i) = Some (AppError k c m i)"
  "errors_As_app (PlainError s) = None"
  "errors_As_app (WrapError s e) = errors_As_app e"
  "errors_As_app (PermanentError e) = errors_As_app e"
  "errors_As_app (PgError s c) = None"
  "errors_As_app (LibError s) = None"
  by (cases i; simp add: errors_As_app_def is_app_error_def)+

lemma KindOf_simps [simp]:
  "KindOf (AppError k c m e) = k"
  "KindOf (apperr_New k c m) = k"
  "KindOf (apperr_Wrap k c m e') = k"
  "KindOf (PlainError s) = KindInternal"
  "KindOf (WrapError s e') = KindOf e'"
  "KindOf (PermanentError e') = KindOf e'"
  "KindOf (PgError s c) = KindInternal"
  "KindOf (LibError s) = KindInternal"
  by (simp_all add: KindOf_def apperr_New_def apperr_Wrap_def)

lemma CodeOf_simps [simp]:
  "CodeOf (AppError k c m e) = c"
  "CodeOf (apperr_New k c m) = c"
  "CodeOf (apperr_Wrap k c m e') = c"
  "CodeOf (PlainError s) = ''''"
  "CodeOf (WrapError s e') = CodeOf e'"
  "CodeOf (PermanentError e') = CodeOf e'"
  "CodeOf (PgError s c) = ''''"
  "CodeOf (LibError s) = ''''"
  by (simp_all add: CodeOf_def apperr_New_def apperr_Wrap_def)

lemma error_chain_New [simp]: "error_chain (apperr_New k c m) = [apperr_New k c m]"
  by (simp add: apperr_New_def)

lemma errors_Is_plain [simp]:
  "errors_Is (PlainError s) (PlainError t) \<longleftrightarrow> s = t"
  "\<not> errors_Is (apperr_New k c m) (PlainError t)"
  "\<not> errors_Is (PgError x y) (PlainError t)"
  "errors_Is (WrapError x e) (PlainError t) \<longleftrightarrow> errors_Is e (PlainError t)"
  by (simp_all add: errors_Is_def Error_Is_def apperr_New_def)

lemma apperr_New_eq_iff [simp]:
  "apperr_New k c m = apperr_New k' c' m' \<longleftrightarrow> k = k' \<and> c = c' \<and> m = m'"
  by (simp add: apperr_New_def)

end
