(* ===== verification/Strconv.thy ===== *)
theory Strconv
  imports Prelude
begin

section \<open>Strings and numbers of Go's standard library\<close>

text \<open>
  What the sources use of \<open>strconv\<close>, \<open>strings\<close> and \<open>fmt\<close>: \<open>FormatUint\<close> and \<open>ParseUint\<close> in
  base 10 (\<open>None\<close> stands for the error), the verb \<open>%02d\<close>, \<open>HasPrefix\<close>, \<open>TrimPrefix\<close> and
  \<open>IndexByte\<close> (\<open>None\<close> stands for -1). The lemmas show that formatting and parsing a number
  are inverse.
\<close>

definition is_digit :: "char \<Rightarrow> bool" where
  "is_digit c \<longleftrightarrow> 48 \<le> (of_char c :: nat) \<and> (of_char c :: nat) \<le> 57"

definition digit_val :: "char \<Rightarrow> nat" where
  "digit_val c = of_char c - 48"

definition digit_char :: "nat \<Rightarrow> char" where
  "digit_char d = char_of (48 + d)"

fun nat_str :: "nat \<Rightarrow> string" where
  "nat_str n = (if n < 10 then [digit_char n] else nat_str (n div 10) @ [digit_char (n mod 10)])"

declare nat_str.simps [simp del]

definition digits_value :: "string \<Rightarrow> nat" where
  "digits_value s = foldl (\<lambda>v c. 10 * v + digit_val c) 0 s"

definition FormatUint :: "64 word \<Rightarrow> string" where
  "FormatUint u = nat_str (unat u)"

definition Sprintf_02d :: "64 word \<Rightarrow> string" where
  "Sprintf_02d u = (let s = nat_str (unat u) in replicate (2 - length s) (CHR ''0'') @ s)"

definition ParseUint :: "string \<Rightarrow> 64 word option" where
  "ParseUint s =
     (if s = '''' \<or> \<not> list_all is_digit s then None
      else if 2 ^ 64 \<le> digits_value s then None
      else Some (of_nat (digits_value s)))"

definition HasPrefix :: "string \<Rightarrow> string \<Rightarrow> bool" where
  "HasPrefix s p \<longleftrightarrow> take (length p) s = p"

definition TrimPrefix :: "string \<Rightarrow> string \<Rightarrow> string" where
  "TrimPrefix s p = (if HasPrefix s p then drop (length p) s else s)"

fun IndexByte :: "string \<Rightarrow> char \<Rightarrow> nat option" where
  "IndexByte [] c = None"
| "IndexByte (x # xs) c = (if x = c then Some 0 else map_option Suc (IndexByte xs c))"

subsection \<open>Digits\<close>

lemma is_digit_digit_char [simp]: "d < 10 \<Longrightarrow> is_digit (digit_char d)"
  by (simp add: is_digit_def digit_char_def)

lemma digit_val_digit_char [simp]: "d < 10 \<Longrightarrow> digit_val (digit_char d) = d"
  by (simp add: digit_val_def digit_char_def)

lemma is_digit_dot [simp]: "\<not> is_digit (CHR ''.'')"
  and is_digit_minus [simp]: "\<not> is_digit (CHR ''-'')"
  and is_digit_zero [simp]: "is_digit (CHR ''0'')"
  and digit_val_zero [simp]: "digit_val (CHR ''0'') = 0"
  by (simp_all add: is_digit_def digit_val_def)

lemma digit_val_bound: "is_digit c \<Longrightarrow> digit_val c < 10"
  by (auto simp: is_digit_def digit_val_def)

lemma nat_str_nonempty [simp]: "nat_str n \<noteq> []"
  by (subst nat_str.simps) simp

lemma nat_str_digits [simp]: "list_all is_digit (nat_str n)"
  by (induction n rule: nat_str.induct) (subst nat_str.simps, simp)

lemma digits_value_Nil [simp]: "digits_value [] = 0"
  and digits_value_snoc [simp]: "digits_value (s @ [c]) = 10 * digits_value s + digit_val c"
  by (simp_all add: digits_value_def)

lemma digits_value_nat_str [simp]: "digits_value (nat_str n) = n"
proof (induction n rule: nat_str.induct)
  case (1 n)
  show ?case
  proof (cases "n < 10")
    case True
    then show ?thesis
      by (subst nat_str.simps) (simp add: digits_value_def)
  next
    case False
    with 1 show ?thesis
      by (subst nat_str.simps) simp
  qed
qed

lemma length_nat_str_small: "n < 10 \<Longrightarrow> length (nat_str n) = 1"
  by (subst nat_str.simps) simp

lemma length_nat_str_two:
  assumes "10 \<le> n" and "n < 100"
  shows "length (nat_str n) = 2"
proof -
  from assms have "length (nat_str (n div 10)) = 1"
    by (intro length_nat_str_small) auto
  with assms show ?thesis
    by (subst nat_str.simps) simp
qed

lemma digits_value_zero_Cons: "digits_value (CHR ''0'' # s) = digits_value s"
  by (simp add: digits_value_def)

lemma Sprintf_02d_props:
  assumes "unat u < 100"
  shows "length (Sprintf_02d u) = 2"
    and "list_all is_digit (Sprintf_02d u)"
    and "digits_value (Sprintf_02d u) = unat u"
proof -
  consider "unat u < 10" | "10 \<le> unat u" by linarith
  then have "length (Sprintf_02d u) = 2 \<and> list_all is_digit (Sprintf_02d u)
      \<and> digits_value (Sprintf_02d u) = unat u"
  proof cases
    case 1
    then show ?thesis
      by (simp add: Sprintf_02d_def Let_def length_nat_str_small digits_value_zero_Cons)
  next
    case 2
    with assms show ?thesis
      by (simp add: Sprintf_02d_def Let_def length_nat_str_two)
  qed
  then show "length (Sprintf_02d u) = 2" "list_all is_digit (Sprintf_02d u)"
    "digits_value (Sprintf_02d u) = unat u" by simp_all
qed

lemma ParseUint_nat_str: "n < 2 ^ 64 \<Longrightarrow> ParseUint (nat_str n) = Some (of_nat n)"
  by (simp add: ParseUint_def)

lemma IndexByte_append_digits:
  "list_all is_digit s \<Longrightarrow> \<not> is_digit c \<Longrightarrow> IndexByte (s @ c # t) c = Some (length s)"
  by (induction s) auto

lemma IndexByte_digits: "list_all is_digit s \<Longrightarrow> \<not> is_digit c \<Longrightarrow> IndexByte s c = None"
  by (induction s) auto

text \<open>\<open>%d\<close> of a signed number.\<close>

definition int_str :: "int \<Rightarrow> string" where
  "int_str k = (if k < 0 then CHR ''-'' # nat_str (nat (- k)) else nat_str (nat k))"

end
