(* ===== verification/Money.thy ===== *)
theory Money
  imports Apperr Strconv
begin

section \<open>Money (internal/domain/money/money.go)\<close>

text \<open>
  An amount is a signed 64-bit count of minor units together with a currency code; the zero
  value of the struct (empty currency) is not valid. Every operation is translated with its
  wrap-around arithmetic and its overflow tests as the source writes them. The second half
  shows that these tests are exact: \<open>Add\<close>, \<open>Sub\<close> and \<open>Neg\<close> return an error if and only if
  the mathematical result does not fit, and the result is the mathematical one otherwise.
\<close>

definition Scale :: nat where
  "Scale = 2"

definition MinorUnitsPerMajor :: int64 where
  "MinorUnitsPerMajor = 100"

definition money_CodeInvalidAmount :: string where
  "money_CodeInvalidAmount = ''INVALID_MONEY_AMOUNT''"
definition money_CodeInvalidCurrency :: string where
  "money_CodeInvalidCurrency = ''INVALID_MONEY_CURRENCY''"
definition money_CodeCurrencyMismatch :: string where
  "money_CodeCurrencyMismatch = ''MONEY_CURRENCY_MISMATCH''"
definition money_CodeOverflow :: string where
  "money_CodeOverflow = ''MONEY_OVERFLOW''"
definition money_CodeNegativeAmount :: string where
  "money_CodeNegativeAmount = ''NEGATIVE_MONEY_AMOUNT''"
definition money_CodeZeroAmount :: string where
  "money_CodeZeroAmount = ''ZERO_MONEY_AMOUNT''"

subsection \<open>Currencies\<close>

type_synonym currency = string

definition is_upper :: "char \<Rightarrow> bool" where
  "is_upper c \<longleftrightarrow> 65 \<le> (of_char c :: nat) \<and> (of_char c :: nat) \<le> 90"

text \<open>The pattern \<open>^[A-Z]{3}$\<close>.\<close>

definition currencyPattern :: "string \<Rightarrow> bool" where
  "currencyPattern s \<longleftrightarrow> length s = 3 \<and> list_all is_upper s"

definition NewCurrency :: "string \<Rightarrow> currency result" where
  "NewCurrency code =
     (if \<not> currencyPattern code
      then Inl (apperr_New KindInvalid money_CodeInvalidCurrency
             (Sprintf ''currency %q is not a valid ISO 4217 alphabetic code'' [SArg code]))
      else Inr code)"

definition Currency_IsZero :: "currency \<Rightarrow> bool" where
  "Currency_IsZero c \<longleftrightarrow> c = ''''"

subsection \<open>The value object\<close>

record money =
  m_amount :: int64
  m_currency :: currency

definition money_zero_value :: money where
  "money_zero_value = \<lparr>m_amount = 0, m_currency = ''''\<rparr>"

definition money_IsValid :: "money \<Rightarrow> bool" where
  "money_IsValid m \<longleftrightarrow> \<not> Currency_IsZero (m_currency m)"

definition money_IsZero :: "money \<Rightarrow> bool" where
  "money_IsZero m \<longleftrightarrow> m_amount m = 0"

definition money_IsPositive :: "money \<Rightarrow> bool" where
  "money_IsPositive m \<longleftrightarrow> 0 < sint (m_amount m)"

definition money_IsNegative :: "money \<Rightarrow> bool" where
  "money_IsNegative m \<longleftrightarrow> sint (m_amount m) < 0"

definition FromMinorUnits :: "int64 \<Rightarrow> currency \<Rightarrow> money result" where
  "FromMinorUnits units cur =
     (if Currency_IsZero cur
      then Inl (apperr_New KindInvalid money_CodeInvalidCurrency (Text ''currency is required''))
      else and_then (NewCurrency cur) (\<lambda>_. Inr \<lparr>m_amount = units, m_currency = cur\<rparr>))"

definition money_Zero :: "currency \<Rightarrow> money result" where
  "money_Zero cur = FromMinorUnits 0 cur"

subsection \<open>Arithmetic and comparison\<close>

definition assertCompatible :: "money \<Rightarrow> money \<Rightarrow> unit result" where
  "assertCompatible m other =
     (if \<not> money_IsValid m \<or> \<not> money_IsValid other
      then Inl (apperr_New KindInvalid money_CodeInvalidCurrency
             (Text ''money operands must be initialized''))
      else if m_currency m \<noteq> m_currency other
      then Inl (apperr_New KindInvalid money_CodeCurrencyMismatch
             (Sprintf ''cannot combine %s with %s'' [SArg (m_currency m), SArg (m_currency other)]))
      else Inr ())"

definition money_Add :: "money \<Rightarrow> money \<Rightarrow> money result" where
  "money_Add m other = and_then (assertCompatible m other) (\<lambda>_.
     let sum = m_amount m + m_amount other in
     if (0 < sint (m_amount other) \<and> sint sum < sint (m_amount m))
        \<or> (sint (m_amount other) < 0 \<and> sint (m_amount m) < sint sum)
     then Inl (apperr_New KindInvalid money_CodeOverflow (Text ''money addition overflowed int64''))
     else Inr \<lparr>m_amount = sum, m_currency = m_currency m\<rparr>)"

definition money_Sub :: "money \<Rightarrow> money \<Rightarrow> money result" where
  "money_Sub m other = and_then (assertCompatible m other) (\<lambda>_.
     let diff = m_amount m - m_amount other in
     if (sint (m_amount other) < 0 \<and> sint diff < sint (m_amount m))
        \<or> (0 < sint (m_amount other) \<and> sint (m_amount m) < sint diff)
     then Inl (apperr_New KindInvalid money_CodeOverflow (Text ''money subtraction overflowed int64''))
     else Inr \<lparr>m_amount = diff, m_currency = m_currency m\<rparr>)"

definition money_Neg :: "money \<Rightarrow> money result" where
  "money_Neg m =
     (if m_amount m = MinInt64
      then Inl (apperr_New KindInvalid money_CodeOverflow (Text ''money negation overflowed int64''))
      else Inr \<lparr>m_amount = - m_amount m, m_currency = m_currency m\<rparr>)"

definition money_Abs :: "money \<Rightarrow> money result" where
  "money_Abs m = (if sint (m_amount m) < 0 then money_Neg m else Inr m)"

definition money_Compare :: "money \<Rightarrow> money \<Rightarrow> int result" where
  "money_Compare m other = and_then (assertCompatible m other) (\<lambda>_.
     if sint (m_amount m) < sint (m_amount other) then Inr (- 1)
     else if sint (m_amount other) < sint (m_amount m) then Inr 1
     else Inr 0)"

definition money_Equal :: "money \<Rightarrow> money \<Rightarrow> bool result" where
  "money_Equal m other = and_then (money_Compare m other) (\<lambda>cmp. Inr (cmp = 0))"

definition money_LessThan :: "money \<Rightarrow> money \<Rightarrow> bool result" where
  "money_LessThan m other = and_then (money_Compare m other) (\<lambda>cmp. Inr (cmp < 0))"

definition money_GreaterThan :: "money \<Rightarrow> money \<Rightarrow> bool result" where
  "money_GreaterThan m other = and_then (money_Compare m other) (\<lambda>cmp. Inr (0 < cmp))"

subsection \<open>Exactness of the overflow tests\<close>

named_theorems money_defs

lemmas [money_defs] = money_IsValid_def money_IsZero_def money_IsPositive_def
  money_IsNegative_def Currency_IsZero_def

definition compatible :: "money \<Rightarrow> money \<Rightarrow> bool" where
  "compatible a b \<longleftrightarrow> money_IsValid a \<and> money_IsValid b \<and> m_currency a = m_currency b"

lemma assertCompatible_ok [simp]: "assertCompatible a b = Inr u \<longleftrightarrow> compatible a b"
  by (auto simp: assertCompatible_def compatible_def)

lemma assertCompatible_refl_currency:
  "compatible a b \<Longrightarrow> assertCompatible a b = Inr ()"
  by simp

lemma assertCompatible_error:
  "\<not> compatible a b \<Longrightarrow> \<exists>msg c. assertCompatible a b = Inl (apperr_New KindInvalid c msg)"
  by (auto simp: assertCompatible_def compatible_def)

lemma add_overflow_exact:
  fixes a b :: int64
  shows "((0 < sint b \<and> sint (a + b) < sint a) \<or> (sint b < 0 \<and> sint a < sint (a + b)))
    \<longleftrightarrow> \<not> in_int64 (sint a + sint b)"
  using sint_lower [of a] sint_upper [of a] sint_lower [of b] sint_upper [of b]
  by (auto simp: sint_add64 Let_def in_int64_def split: if_splits)

lemma sub_overflow_exact:
  fixes a b :: int64
  shows "((sint b < 0 \<and> sint (a - b) < sint a) \<or> (0 < sint b \<and> sint a < sint (a - b)))
    \<longleftrightarrow> \<not> in_int64 (sint a - sint b)"
  using sint_lower [of a] sint_upper [of a] sint_lower [of b] sint_upper [of b]
  by (auto simp: sint_sub64 Let_def in_int64_def split: if_splits)

lemma sint_add_exact: "in_int64 (sint a + sint b) \<Longrightarrow> sint (a + b :: int64) = sint a + sint b"
  by (simp add: sint_add64 Let_def in_int64_def)

lemma sint_sub_exact: "in_int64 (sint a - sint b) \<Longrightarrow> sint (a - b :: int64) = sint a - sint b"
  by (simp add: sint_sub64 Let_def in_int64_def)

lemma money_Add_eq:
  assumes "compatible a b"
  shows "money_Add a b =
    (if in_int64 (sint (m_amount a) + sint (m_amount b))
     then Inr \<lparr>m_amount = m_amount a + m_amount b, m_currency = m_currency a\<rparr>
     else Inl (apperr_New KindInvalid money_CodeOverflow (Text ''money addition overflowed int64'')))"
  using add_overflow_exact [of "m_amount b" "m_amount a"] assms
  by (simp add: money_Add_def Let_def assertCompatible_refl_currency del: assertCompatible_ok)

lemma money_Sub_eq:
  assumes "compatible a b"
  shows "money_Sub a b =
    (if in_int64 (sint (m_amount a) - sint (m_amount b))
     then Inr \<lparr>m_amount = m_amount a - m_amount b, m_currency = m_currency a\<rparr>
     else Inl (apperr_New KindInvalid money_CodeOverflow (Text ''money subtraction overflowed int64'')))"
  using sub_overflow_exact [of "m_amount b" "m_amount a"] assms
  by (simp add: money_Sub_def Let_def assertCompatible_refl_currency del: assertCompatible_ok)

lemma money_Add_ok_iff:
  "money_Add a b = Inr c \<longleftrightarrow>
     compatible a b \<and> in_int64 (sint (m_amount a) + sint (m_amount b))
     \<and> c = \<lparr>m_amount = m_amount a + m_amount b, m_currency = m_currency a\<rparr>"
  by (cases "compatible a b")
    (auto simp: money_Add_eq, auto simp: money_Add_def and_then_Inr_iff)

lemma money_Sub_ok_iff:
  "money_Sub a b = Inr c \<longleftrightarrow>
     compatible a b \<and> in_int64 (sint (m_amount a) - sint (m_amount b))
     \<and> c = \<lparr>m_amount = m_amount a - m_amount b, m_currency = m_currency a\<rparr>"
  by (cases "compatible a b")
    (auto simp: money_Sub_eq, auto simp: money_Sub_def and_then_Inr_iff)

lemma money_Compare_eq:
  assumes "compatible a b"
  shows "money_Compare a b = Inr (sgn (sint (m_amount a) - sint (m_amount b)))"
  using assms by (simp add: money_Compare_def assertCompatible_refl_currency sgn_if
      del: assertCompatible_ok)

lemma money_Compare_ok_iff:
  "money_Compare a b = Inr c \<longleftrightarrow>
     compatible a b \<and> c = sgn (sint (m_amount a) - sint (m_amount b))"
  by (cases "compatible a b")
    (auto simp: money_Compare_eq, auto simp: money_Compare_def and_then_Inr_iff)

lemma money_Equal_ok_iff:
  "money_Equal a b = Inr r \<longleftrightarrow> compatible a b \<and> r = (m_amount a = m_amount b)"
  by (auto simp: money_Equal_def and_then_Inr_iff money_Compare_ok_iff sgn_eq_0_iff sint_eq_iff)

lemma money_eqI: "m_amount a = m_amount b \<Longrightarrow> m_currency a = m_currency b \<Longrightarrow> a = (b :: money)"
  by simp

lemma FromMinorUnits_ok_iff:
  "FromMinorUnits u c = Inr m \<longleftrightarrow> currencyPattern c \<and> m = \<lparr>m_amount = u, m_currency = c\<rparr>"
  by (auto simp: FromMinorUnits_def NewCurrency_def Currency_IsZero_def currencyPattern_def
      split: if_splits)

lemma NewCurrency_ok_iff: "NewCurrency c = Inr d \<longleftrightarrow> currencyPattern c \<and> d = c"
  by (auto simp: NewCurrency_def)

lemma currencyPattern_Nil [simp]: "\<not> currencyPattern []"
  by (simp add: currencyPattern_def)

lemma currencyPattern_nonempty: "currencyPattern c \<Longrightarrow> c \<noteq> ''''"
  by (auto simp: currencyPattern_def)

subsection \<open>Properties\<close>

text \<open>What an arithmetic operation may return, with the mathematical result given.\<close>

definition arith_outcome :: "money \<Rightarrow> money \<Rightarrow> int \<Rightarrow> money result \<Rightarrow> bool" where
  "arith_outcome a b exact r =
     (case r of
        Inr c \<Rightarrow> compatible a b \<and> sint (m_amount c) = exact \<and> m_currency c = m_currency a
      | Inl e \<Rightarrow> KindOf e = KindInvalid \<and> CodeOf e =
          (if \<not> money_IsValid a \<or> \<not> money_IsValid b then money_CodeInvalidCurrency
           else if m_currency a \<noteq> m_currency b then money_CodeCurrencyMismatch
           else money_CodeOverflow) \<and>
          (compatible a b \<longrightarrow> \<not> in_int64 exact))"

lemma arith_outcome_incompatible:
  "\<not> compatible a b \<Longrightarrow> arith_outcome a b k (and_then (assertCompatible a b) f)"
  by (auto simp: arith_outcome_def assertCompatible_def compatible_def)

lemma money_Add_outcome: "arith_outcome a b (sint (m_amount a) + sint (m_amount b)) (money_Add a b)"
proof (cases "compatible a b")
  case True
  then show ?thesis
    by (auto simp: money_Add_eq arith_outcome_def sint_add_exact compatible_def)
next
  case False
  then show ?thesis by (simp add: money_Add_def arith_outcome_incompatible)
qed

lemma money_Sub_outcome: "arith_outcome a b (sint (m_amount a) - sint (m_amount b)) (money_Sub a b)"
proof (cases "compatible a b")
  case True
  then show ?thesis
    by (auto simp: money_Sub_eq arith_outcome_def sint_sub_exact compatible_def)
next
  case False
  then show ?thesis by (simp add: money_Sub_def arith_outcome_incompatible)
qed

text \<open>What a comparison may return: a function of the order of the exact amounts.\<close>

definition comparison_outcome :: "money \<Rightarrow> money \<Rightarrow> 'a \<Rightarrow> 'a result \<Rightarrow> bool" where
  "comparison_outcome a b exact r =
     (case r of
        Inr c \<Rightarrow> compatible a b \<and> c = exact
      | Inl e \<Rightarrow> KindOf e = KindInvalid \<and> \<not> compatible a b \<and> CodeOf e =
          (if \<not> money_IsValid a \<or> \<not> money_IsValid b then money_CodeInvalidCurrency
           else money_CodeCurrencyMismatch))"

lemma comparison_outcome_intro:
  "(\<And>u. compatible a b \<Longrightarrow> f u = Inr exact) \<Longrightarrow>
   comparison_outcome a b exact (and_then (assertCompatible a b) f)"
  by (auto simp: comparison_outcome_def assertCompatible_def compatible_def)

lemma comparison_outcome_map:
  "comparison_outcome a b c r \<Longrightarrow> comparison_outcome a b (f c) (and_then r (\<lambda>x. Inr (f x)))"
  by (cases r) (simp_all add: comparison_outcome_def)

lemma money_Compare_outcome:
  "comparison_outcome a b (sgn (sint (m_amount a) - sint (m_amount b))) (money_Compare a b)"
  unfolding money_Compare_def by (rule comparison_outcome_intro) (simp add: sgn_if)

lemma money_order_outcome:
  "comparison_outcome a b (sint (m_amount a) = sint (m_amount b)) (money_Equal a b)"
  "comparison_outcome a b (sint (m_amount a) < sint (m_amount b)) (money_LessThan a b)"
  "comparison_outcome a b (sint (m_amount b) < sint (m_amount a)) (money_GreaterThan a b)"
  using money_Compare_outcome [of a b, THEN comparison_outcome_map, of "\<lambda>cmp. cmp = 0"]
    money_Compare_outcome [of a b, THEN comparison_outcome_map, of "\<lambda>cmp. cmp < 0"]
    money_Compare_outcome [of a b, THEN comparison_outcome_map, of "\<lambda>cmp. 0 < cmp"]
  by (simp_all add: money_Equal_def money_LessThan_def money_GreaterThan_def sgn_if split: if_splits)

text \<open>
  (C28) Addition, subtraction, negation and absolute value never return a wrapped amount. A sum or
  difference carries the mathematical value in the operands' common currency; an error means that
  an operand is not initialised, that the currencies differ, or that the mathematical result does
  not fit in 64 bits, and its code tells which. Negation and absolute value keep the currency, carry
  the mathematical value, and fail with an overflow exactly at the least amount. A comparison is by
  the mathematical amounts, and fails exactly when the operands do not agree.
\<close>

theorem money_arithmetic_exact:
  "arith_outcome a b (sint (m_amount a) + sint (m_amount b)) (money_Add a b) \<and>
   arith_outcome a b (sint (m_amount a) - sint (m_amount b)) (money_Sub a b) \<and>
   (case money_Neg a of
      Inr c \<Rightarrow> sint (m_amount c) = - sint (m_amount a) \<and> m_currency c = m_currency a
    | Inl e \<Rightarrow> KindOf e = KindInvalid \<and> CodeOf e = money_CodeOverflow \<and> m_amount a = MinInt64) \<and>
   (case money_Abs a of
      Inr c \<Rightarrow> sint (m_amount c) = \<bar>sint (m_amount a)\<bar> \<and> m_currency c = m_currency a
    | Inl e \<Rightarrow> KindOf e = KindInvalid \<and> CodeOf e = money_CodeOverflow \<and> m_amount a = MinInt64) \<and>
   comparison_outcome a b (sgn (sint (m_amount a) - sint (m_amount b))) (money_Compare a b) \<and>
   comparison_outcome a b (sint (m_amount a) = sint (m_amount b)) (money_Equal a b) \<and>
   comparison_outcome a b (sint (m_amount a) < sint (m_amount b)) (money_LessThan a b) \<and>
   comparison_outcome a b (sint (m_amount b) < sint (m_amount a)) (money_GreaterThan a b)"
  by (intro conjI money_Add_outcome money_Sub_outcome money_Compare_outcome money_order_outcome)
    (auto simp: money_Abs_def money_Neg_def sint_minus64)

subsection \<open>The arithmetic contract\<close>

text \<open>
  What the ledger and the wallet use of money: a value, and partial addition and subtraction
  that are exact whenever they succeed and succeed whenever the operands agree and the exact
  result is representable. The lemmas of the locale are the ones their proofs rest on.
\<close>

locale exact_arithmetic =
  fixes val :: "'m \<Rightarrow> int"
    and agree :: "'m \<Rightarrow> 'm \<Rightarrow> bool"
    and fits :: "int \<Rightarrow> bool"
    and add :: "'m \<Rightarrow> 'm \<Rightarrow> 'm result"
    and sub :: "'m \<Rightarrow> 'm \<Rightarrow> 'm result"
  assumes add_exact: "add a b = Inr c \<Longrightarrow> agree a b \<and> agree a c \<and> val c = val a + val b"
    and sub_exact: "sub a b = Inr c \<Longrightarrow> agree a b \<and> agree a c \<and> val c = val a - val b"
    and add_total: "agree a b \<Longrightarrow> fits (val a + val b) \<Longrightarrow> \<exists>c. add a b = Inr c"
    and sub_total: "agree a b \<Longrightarrow> fits (val a - val b) \<Longrightarrow> \<exists>c. sub a b = Inr c"
    and fits_val: "fits (val a)"
    and fits_between: "fits i \<Longrightarrow> fits k \<Longrightarrow> i \<le> j \<Longrightarrow> j \<le> k \<Longrightarrow> fits j"
    and val_inject: "agree a b \<Longrightarrow> val a = val b \<Longrightarrow> a = b"
    and agree_sym: "agree a b \<Longrightarrow> agree b a"
    and agree_trans: "agree a b \<Longrightarrow> agree b c \<Longrightarrow> agree a c"
begin

lemma sub_then_add:
  assumes "sub a b = Inr c"
  shows "add c b = Inr a"
proof -
  from sub_exact [OF assms] have c: "agree a b" "agree a c" "val c = val a - val b" by auto
  then have "agree c b" by (blast intro: agree_sym agree_trans)
  moreover have "fits (val c + val b)" using c fits_val [of a] by simp
  ultimately obtain d where d: "add c b = Inr d" using add_total by blast
  from add_exact [OF d] c have "agree a d" "val a = val d"
    by (auto intro: agree_trans)
  with d show ?thesis using val_inject by blast
qed

lemma add_then_sub:
  assumes "add a b = Inr c"
  shows "sub c b = Inr a"
proof -
  from add_exact [OF assms] have c: "agree a b" "agree a c" "val c = val a + val b" by auto
  then have "agree c b" by (blast intro: agree_sym agree_trans)
  moreover have "fits (val c - val b)" using c fits_val [of a] by simp
  ultimately obtain d where d: "sub c b = Inr d" using sub_total by blast
  from sub_exact [OF d] c have "agree a d" "val a = val d"
    by (auto intro: agree_trans)
  with d show ?thesis using val_inject by blast
qed

lemma sub_nonneg_total:
  assumes "agree a b" and "0 \<le> val b" and "val b \<le> val a" and "fits 0"
  shows "\<exists>c. sub a b = Inr c"
  using assms fits_between [of 0 "val a" "val a - val b"] fits_val [of a]
  by (intro sub_total) auto

end

interpretation money_exact: exact_arithmetic "\<lambda>m. sint (m_amount m)" compatible in_int64 money_Add money_Sub
proof
  fix a b :: money
  assume "compatible a b" "sint (m_amount a) = sint (m_amount b)"
  then show "a = b" by (simp add: compatible_def sint_eq_iff)
qed (auto simp: money_Add_ok_iff money_Sub_ok_iff compatible_def sint_add_exact sint_sub_exact
    money_IsValid_def in_int64_def sint_lower sint_upper)

end
