(* ===== verification/Money_Text.thy ===== *)
theory Money_Text
  imports Money
begin

section \<open>The decimal text of an amount (internal/domain/money/money.go)\<close>

text \<open>
  \<open>FormatMinorUnits\<close> and \<open>parseMinorUnits\<close> with the unsigned 64-bit arithmetic of the source,
  the constructors \<open>Parse\<close>, \<open>ParseNonNegative\<close> and \<open>ParsePositive\<close>, and a reference reading
  of an amount over unbounded integers (\<open>decimal_cents\<close>). The lemmas show that parsing is the
  reference reading cut off exactly at the signed 64-bit range, and that parsing inverts
  formatting at every one of the \<open>2 ^ 64\<close> values.
\<close>

subsection \<open>Formatting\<close>

definition FormatMinorUnits :: "int64 \<Rightarrow> string" where
  "FormatMinorUnits units =
     (let negative = sint units < 0;
          absolute = (if negative then (- (units + 1)) + 1 else units);
          major = absolute div MinorUnitsPerMajor;
          minor = absolute mod MinorUnitsPerMajor;
          formatted = FormatUint major @ ''.'' @ Sprintf_02d minor
      in if negative then ''-'' @ formatted else formatted)"

definition AmountString :: "money \<Rightarrow> string" where
  "AmountString m = FormatMinorUnits (m_amount m)"

subsection \<open>Parsing\<close>

text \<open>The pattern \<open>^-?[0-9]+(\.[0-9]{1,2})?$\<close>.\<close>

definition amountPattern :: "string \<Rightarrow> bool" where
  "amountPattern s =
     (let u = TrimPrefix s ''-'';
          intpart = takeWhile is_digit u;
          rest = dropWhile is_digit u
      in intpart \<noteq> [] \<and>
         (rest = [] \<or>
          (hd rest = CHR ''.'' \<and> list_all is_digit (tl rest) \<and>
           1 \<le> length (tl rest) \<and> length (tl rest) \<le> 2)))"

text \<open>The loop \<open>for len(minorPart) < Scale { minorPart += "0" }\<close>.\<close>

function pad_minor :: "string \<Rightarrow> string" where
  "pad_minor s = (if length s < Scale then pad_minor (s @ ''0'') else s)"
  by pat_completeness auto
termination
  by (relation "measure (\<lambda>s. Scale - length s)") auto

declare pad_minor.simps [simp del]

definition overflow_error :: goerror where
  "overflow_error = apperr_New KindInvalid money_CodeOverflow
     (Text ''amount overflows the supported range'')"

definition parseMinorUnits :: "string \<Rightarrow> int64 result" where
  "parseMinorUnits amount =
     (if amount = '''' then
        Inl (apperr_New KindInvalid money_CodeInvalidAmount (Text ''amount is required''))
      else if \<not> amountPattern amount then
        Inl (apperr_New KindInvalid money_CodeInvalidAmount
          (Sprintf ''amount %q must be a decimal with at most %d places'' [SArg amount, IArg (int Scale)]))
      else
       (let negative = HasPrefix amount ''-'';
            unsigned = TrimPrefix amount ''-'';
            (majorPart, minorPart) =
              (case IndexByte unsigned (CHR ''.'') of
                 None \<Rightarrow> (unsigned, ''0'')
               | Some idx \<Rightarrow> (take idx unsigned, pad_minor (drop (idx + 1) unsigned)))
        in case ParseUint majorPart of
             None \<Rightarrow> Inl overflow_error
           | Some major \<Rightarrow>
          (case ParseUint minorPart of
             None \<Rightarrow> Inl (apperr_New KindInvalid money_CodeInvalidAmount (Text ''invalid fractional part''))
           | Some minor \<Rightarrow>
             (let maxMagnitude = (if negative then MaxInt64 + 1 else MaxInt64) in
              if (maxMagnitude - minor) div MinorUnitsPerMajor < major then Inl overflow_error
              else
               (let magnitude = major * MinorUnitsPerMajor + minor in
                if \<not> negative then Inr magnitude
                else if magnitude = MaxInt64 + 1 then Inr MinInt64
                else Inr (- magnitude))))))"

definition Parse :: "string \<Rightarrow> string \<Rightarrow> money result" where
  "Parse amount currency =
     and_then (NewCurrency currency) (\<lambda>cur.
     and_then (parseMinorUnits amount) (\<lambda>units.
     Inr \<lparr>m_amount = units, m_currency = cur\<rparr>))"

definition ParseNonNegative :: "string \<Rightarrow> string \<Rightarrow> money result" where
  "ParseNonNegative amount currency =
     and_then (Parse amount currency) (\<lambda>m.
     if money_IsNegative m
     then Inl (apperr_New KindInvalid money_CodeNegativeAmount (Text ''amount must not be negative''))
     else Inr m)"

definition ParsePositive :: "string \<Rightarrow> string \<Rightarrow> money result" where
  "ParsePositive amount currency =
     and_then (Parse amount currency) (\<lambda>m.
     if \<not> money_IsPositive m
     then Inl (apperr_New KindInvalid money_CodeZeroAmount (Text ''amount must be greater than zero''))
     else Inr m)"

subsection \<open>The reference reading\<close>

text \<open>
  The integer a decimal text denotes, in hundredths, over unbounded integers: the digits
  before the point, times one hundred, plus the fraction extended to two digits, with the sign.
\<close>

definition fraction_cents :: "string \<Rightarrow> nat" where
  "fraction_cents f = (if length f = 1 then 10 * digits_value f else digits_value f)"

definition decimal_cents :: "string \<Rightarrow> int" where
  "decimal_cents s =
     (let u = TrimPrefix s ''-'';
          magnitude = 100 * digits_value (takeWhile is_digit u)
                      + fraction_cents (drop 1 (dropWhile is_digit u))
      in if HasPrefix s ''-'' then - int magnitude else int magnitude)"

subsection \<open>Shape of accepted texts\<close>

lemma HasPrefix_minus: "HasPrefix s ''-'' \<longleftrightarrow> (\<exists>t. s = CHR ''-'' # t)"
  by (cases s) (auto simp: HasPrefix_def)

lemma TrimPrefix_minus_Cons [simp]: "TrimPrefix (CHR ''-'' # t) ''-'' = t"
  and HasPrefix_minus_Cons [simp]: "HasPrefix (CHR ''-'' # t) ''-''"
  by (simp_all add: TrimPrefix_def HasPrefix_def)

lemma TrimPrefix_no_minus: "\<not> HasPrefix s ''-'' \<Longrightarrow> TrimPrefix s ''-'' = s"
  by (simp add: TrimPrefix_def)

lemma HasPrefix_digits:
  "list_all is_digit d \<Longrightarrow> d \<noteq> [] \<Longrightarrow> \<not> HasPrefix (d @ t) ''-''"
  by (cases d) (auto simp: HasPrefix_def)

text \<open>An accepted text is a sign, digits, and possibly a point with one or two digits.\<close>

lemma amountPattern_cases:
  assumes "amountPattern s"
  obtains (int) ip where "ip \<noteq> []" "list_all is_digit ip" "TrimPrefix s ''-'' = ip"
  | (frac) ip fs where "ip \<noteq> []" "list_all is_digit ip" "list_all is_digit fs"
      "length fs = 1 \<or> length fs = 2" "TrimPrefix s ''-'' = ip @ CHR ''.'' # fs"
proof -
  let ?u = "TrimPrefix s ''-''"
  let ?ip = "takeWhile is_digit ?u" and ?rest = "dropWhile is_digit ?u"
  have u: "?u = ?ip @ ?rest" by simp
  have digits: "list_all is_digit ?ip"
    by (auto simp: list_all_iff dest: set_takeWhileD)
  from assms have ne: "?ip \<noteq> []" by (simp add: amountPattern_def Let_def)
  show thesis
  proof (cases "?rest = []")
    case True
    with u have "?u = ?ip" by simp
    with ne digits show thesis by (intro int [of ?ip]) auto
  next
    case False
    with assms have "hd ?rest = CHR ''.''" "list_all is_digit (tl ?rest)"
      "1 \<le> length (tl ?rest)" "length (tl ?rest) \<le> 2"
      unfolding amountPattern_def Let_def by blast+
    moreover from False calculation(1) have "?rest = CHR ''.'' # tl ?rest"
      by (metis list.collapse)
    ultimately show thesis
      using u ne digits by (intro frac [of ?ip "tl ?rest"]) auto
  qed
qed

lemma takeWhile_digits_append:
  "list_all is_digit d \<Longrightarrow> \<not> is_digit c \<Longrightarrow> takeWhile is_digit (d @ c # t) = d"
  "list_all is_digit d \<Longrightarrow> \<not> is_digit c \<Longrightarrow> dropWhile is_digit (d @ c # t) = c # t"
  "list_all is_digit d \<Longrightarrow> takeWhile is_digit d = d"
  "list_all is_digit d \<Longrightarrow> dropWhile is_digit d = []"
  by (induction d) auto

lemma pad_minor_one: "length f = 1 \<Longrightarrow> pad_minor f = f @ ''0''"
  and pad_minor_two: "length f = 2 \<Longrightarrow> pad_minor f = f"
  by (simp_all add: pad_minor.simps [of f] pad_minor.simps [of "f @ ''0''"] Scale_def)

lemma digits_value_one:
  "list_all is_digit f \<Longrightarrow> length f = 1 \<Longrightarrow> digits_value f < 10"
  by (cases f) (auto simp: digits_value_def digit_val_bound)

lemma digits_value_two:
  assumes "list_all is_digit f" and "length f = 2"
  shows "digits_value f < 100"
proof -
  from assms(2) obtain c d where f: "f = [c, d]"
    by (auto simp: length_Suc_conv numeral_2_eq_2)
  with assms(1) have "digit_val c < 10" "digit_val d < 10" by (auto intro: digit_val_bound)
  with f show ?thesis by (simp add: digits_value_def)
qed

lemma pad_minor_value:
  assumes "list_all is_digit f" and "length f = 1 \<or> length f = 2"
  shows "list_all is_digit (pad_minor f)" and "digits_value (pad_minor f) = fraction_cents f"
    and "pad_minor f \<noteq> []" and "fraction_cents f < 100"
  using assms digits_value_one [of f] digits_value_two [of f]
  by (auto simp: pad_minor_one pad_minor_two fraction_cents_def)

subsection \<open>Parsing is the reference reading, cut off at 64 bits\<close>

definition max_magnitude :: "bool \<Rightarrow> nat" where
  "max_magnitude negative = (if negative then 9223372036854775808 else 9223372036854775807)"

lemma unat_max_magnitude:
  "unat (if negative then MaxInt64 + 1 else MaxInt64) = max_magnitude negative"
  by (simp add: MaxInt64_def max_magnitude_def)

lemma magnitude_test_exact:
  assumes M: "M < 2 ^ 64" and m: "m < 100"
  shows "((if negative then MaxInt64 + 1 else MaxInt64) - of_nat m) div MinorUnitsPerMajor
      < (of_nat M :: int64) \<longleftrightarrow> max_magnitude negative < 100 * M + m"
proof -
  let ?mx = "(if negative then MaxInt64 + 1 else MaxInt64) :: int64"
  have um: "unat (of_nat m :: int64) = m" and uM: "unat (of_nat M :: int64) = M"
    using assms by (simp_all add: unat_of_nat)
  have le: "of_nat m \<le> ?mx"
    using m by (simp add: word_le_nat_alt um unat_max_magnitude max_magnitude_def)
  have "unat ((?mx - of_nat m) div MinorUnitsPerMajor) = (max_magnitude negative - m) div 100"
    by (simp only: unat_div unat_sub [OF le] um unat_max_magnitude)
      (simp add: MinorUnitsPerMajor_def)
  then have "(?mx - of_nat m) div MinorUnitsPerMajor < of_nat M
      \<longleftrightarrow> (max_magnitude negative - m) div 100 < M"
    by (simp only: word_less_nat_alt uM)
  also have "\<dots> \<longleftrightarrow> max_magnitude negative < 100 * M + m"
    using m by (simp add: max_magnitude_def div_less_iff_less_mult) linarith
  finally show ?thesis .
qed

lemma signed_magnitude:
  fixes n :: nat
  assumes "n \<le> max_magnitude negative"
  shows "(if \<not> negative then Inr (of_nat n)
          else if of_nat n = MaxInt64 + 1 then Inr MinInt64 else Inr (- of_nat n))
       = (Inr (word_of_int (if negative then - int n else int n)) :: int64 result)"
    and "in_int64 (if negative then - int n else int n)"
  using assms
  by (auto simp: max_magnitude_def in_int64_def MaxInt64_def MinInt64_def)

lemma not_in_int64_magnitude:
  "max_magnitude negative < n \<Longrightarrow> \<not> in_int64 (if negative then - int n else int n)"
  by (auto simp: max_magnitude_def in_int64_def split: if_splits)

lemma amountPattern_split:
  assumes "amountPattern s"
  obtains ip mp where "list_all is_digit ip" "ip \<noteq> []" "list_all is_digit mp" "mp \<noteq> []"
    "digits_value mp < 100"
    "decimal_cents s = (if HasPrefix s ''-'' then - int (100 * digits_value ip + digits_value mp)
        else int (100 * digits_value ip + digits_value mp))"
    "(case IndexByte (TrimPrefix s ''-'') (CHR ''.'') of None \<Rightarrow> (TrimPrefix s ''-'', ''0'')
     | Some idx \<Rightarrow> (take idx (TrimPrefix s ''-''), pad_minor (drop (idx + 1) (TrimPrefix s ''-''))))
     = (ip, mp)"
  using assms
proof (cases rule: amountPattern_cases)
  case (int ip)
  show thesis
  proof (rule that [of ip "''0''"])
    show "decimal_cents s = (if HasPrefix s ''-''
        then - int (100 * digits_value ip + digits_value ''0'')
        else int (100 * digits_value ip + digits_value ''0''))"
      using int by (simp add: decimal_cents_def Let_def takeWhile_digits_append
          fraction_cents_def digits_value_def)
  qed (use int in \<open>simp_all add: IndexByte_digits digits_value_def\<close>)
next
  case (frac ip fs)
  show thesis
  proof (rule that [of ip "pad_minor fs"])
    show "decimal_cents s = (if HasPrefix s ''-''
        then - int (100 * digits_value ip + digits_value (pad_minor fs))
        else int (100 * digits_value ip + digits_value (pad_minor fs)))"
      using frac by (simp add: decimal_cents_def Let_def takeWhile_digits_append pad_minor_value)
  qed (use frac in \<open>simp_all add: IndexByte_append_digits pad_minor_value\<close>)
qed

lemma ParseUint_digits:
  "list_all is_digit s \<Longrightarrow> s \<noteq> [] \<Longrightarrow>
   ParseUint s = (if digits_value s < 2 ^ 64 then Some (of_nat (digits_value s)) else None)"
  by (simp add: ParseUint_def)

lemma amountPattern_nonempty: "amountPattern s \<Longrightarrow> s \<noteq> []"
  by (auto simp: amountPattern_def TrimPrefix_def HasPrefix_def Let_def)

lemma parseMinorUnits_accepted:
  assumes "amountPattern s"
  shows "parseMinorUnits s =
    (if in_int64 (decimal_cents s) then Inr (word_of_int (decimal_cents s)) else Inl overflow_error)"
proof -
  obtain ip mp where d: "list_all is_digit ip" "ip \<noteq> []" "list_all is_digit mp" "mp \<noteq> []"
      "digits_value mp < 100"
    and cents: "decimal_cents s = (if HasPrefix s ''-''
        then - int (100 * digits_value ip + digits_value mp)
        else int (100 * digits_value ip + digits_value mp))"
    and split: "(case IndexByte (TrimPrefix s ''-'') (CHR ''.'') of None \<Rightarrow> (TrimPrefix s ''-'', ''0'')
     | Some idx \<Rightarrow> (take idx (TrimPrefix s ''-''), pad_minor (drop (idx + 1) (TrimPrefix s ''-''))))
     = (ip, mp)"
    using assms by (rule amountPattern_split)
  let ?neg = "HasPrefix s ''-''" and ?M = "digits_value ip" and ?m = "digits_value mp"
  let ?n = "100 * ?M + ?m"
  have mp: "ParseUint mp = Some (of_nat ?m)"
    using d by (simp add: ParseUint_digits)
  have start: "parseMinorUnits s =
      (case ParseUint ip of None \<Rightarrow> Inl overflow_error
       | Some major \<Rightarrow>
        (if ((if ?neg then MaxInt64 + 1 else MaxInt64) - of_nat ?m) div MinorUnitsPerMajor < major
         then Inl overflow_error
         else (let magnitude = major * MinorUnitsPerMajor + of_nat ?m in
                if \<not> ?neg then Inr magnitude
                else if magnitude = MaxInt64 + 1 then Inr MinInt64 else Inr (- magnitude))))"
    unfolding parseMinorUnits_def Let_def split
    using assms amountPattern_nonempty [OF assms]
    by (cases "ParseUint ip") (simp_all add: mp)
  show ?thesis
  proof (cases "?M < 2 ^ 64")
    case False
    then have "max_magnitude ?neg < ?n" by (simp add: max_magnitude_def)
    then have "\<not> in_int64 (decimal_cents s)"
      using not_in_int64_magnitude [of ?neg ?n] cents by simp
    moreover have "ParseUint ip = None" using d False by (simp add: ParseUint_digits)
    ultimately show ?thesis using start by simp
  next
    case True
    then have ip: "ParseUint ip = Some (of_nat ?M)" using d by (simp add: ParseUint_digits)
    have mag: "of_nat ?M * MinorUnitsPerMajor + of_nat ?m = (of_nat ?n :: int64)"
      by (simp add: MinorUnitsPerMajor_def)
    show ?thesis
    proof (cases "max_magnitude ?neg < ?n")
      case True': True
      then show ?thesis
        using start ip magnitude_test_exact [OF True d(5), of ?neg]
          not_in_int64_magnitude [of ?neg ?n] cents by simp
    next
      case False
      then have le: "?n \<le> max_magnitude ?neg" by simp
      show ?thesis
        using start ip magnitude_test_exact [OF True d(5), of ?neg] False
          signed_magnitude [OF le] cents
        by (simp only: Let_def mag option.case if_False if_True simp_thms)
    qed
  qed
qed

lemma parseMinorUnits_rejected:
  "\<not> amountPattern s \<Longrightarrow>
   \<exists>msg. parseMinorUnits s = Inl (apperr_New KindInvalid money_CodeInvalidAmount msg)"
  by (simp add: parseMinorUnits_def)

lemma parseMinorUnits_ok_iff:
  "parseMinorUnits s = Inr u \<longleftrightarrow> amountPattern s \<and> decimal_cents s = sint u"
proof (cases "amountPattern s")
  case True
  then show ?thesis
    by (auto simp: parseMinorUnits_accepted sint_word_of_int simp flip: sint_eq_iff)
next
  case False
  then show ?thesis using parseMinorUnits_rejected [of s] by auto
qed

subsection \<open>Formatting denotes the amount\<close>

lemma uint_of_sint: "uint (u :: int64) = sint u mod 18446744073709551616"
  by (simp add: uint_sint take_bit_eq_mod)

lemma unat_absolute:
  fixes u :: int64
  shows "int (unat (if sint u < 0 then (- (u + 1)) + 1 else u)) = \<bar>sint u\<bar>"
proof (cases "sint u < 0")
  case False
  then show ?thesis
    using sint_upper [of u] by (simp add: uint_of_sint mod_pos_pos_trivial)
next
  case True
  have "uint (- u) = (- uint u) mod 18446744073709551616"
    by (simp add: uint_word_ariths)
  also have "\<dots> = (- sint u) mod 18446744073709551616"
    by (simp only: uint_of_sint mod_minus_eq)
  also have "\<dots> = - sint u"
    by (rule mod_pos_pos_trivial) (use True sint_lower [of u] in linarith)+
  finally show ?thesis using True by simp
qed

lemma FormatMinorUnits_shape:
  fixes u :: int64
  defines "a \<equiv> nat \<bar>sint u\<bar>"
  obtains f where "FormatMinorUnits u = (if sint u < 0 then ''-'' else []) @ nat_str (a div 100) @ CHR ''.'' # f"
    "length f = 2" "list_all is_digit f" "digits_value f = a mod 100"
proof -
  let ?abs = "if sint u < 0 then (- (u + 1)) + 1 else u"
  have abs: "unat ?abs = a"
    using unat_absolute [of u] unfolding a_def by linarith
  have major: "unat (?abs div MinorUnitsPerMajor) = a div 100"
    and minor: "unat (?abs mod MinorUnitsPerMajor) = a mod 100"
    by (simp_all only: unat_div unat_mod abs) (simp_all add: MinorUnitsPerMajor_def)
  let ?f = "Sprintf_02d (?abs mod MinorUnitsPerMajor)"
  have "unat (?abs mod MinorUnitsPerMajor) < 100"
    by (simp add: minor)
  note f = Sprintf_02d_props [OF this]
  show thesis
  proof (rule that [of ?f])
    show "FormatMinorUnits u = (if sint u < 0 then ''-'' else []) @ nat_str (a div 100) @ CHR ''.'' # ?f"
      by (simp only: FormatMinorUnits_def Let_def FormatUint_def major) simp
  qed (use f minor in simp_all)
qed

lemma FormatMinorUnits_denotes:
  "amountPattern (FormatMinorUnits u)" "decimal_cents (FormatMinorUnits u) = sint u"
proof -
  define a where "a = nat \<bar>sint u\<bar>"
  obtain f where shape: "FormatMinorUnits u =
      (if sint u < 0 then ''-'' else []) @ nat_str (a div 100) @ CHR ''.'' # f"
    and f: "length f = 2" "list_all is_digit f" "digits_value f = a mod 100"
    unfolding a_def by (rule FormatMinorUnits_shape)
  have trim: "TrimPrefix (FormatMinorUnits u) ''-'' = nat_str (a div 100) @ CHR ''.'' # f"
    and sign: "HasPrefix (FormatMinorUnits u) ''-'' \<longleftrightarrow> sint u < 0"
    using HasPrefix_digits [of "nat_str (a div 100)" "CHR ''.'' # f"]
    by (auto simp: shape TrimPrefix_no_minus)
  show "amountPattern (FormatMinorUnits u)"
    by (simp add: amountPattern_def Let_def trim takeWhile_digits_append f)
  have "100 * (a div 100) + a mod 100 = a" by simp
  then show "decimal_cents (FormatMinorUnits u) = sint u"
    by (simp add: decimal_cents_def Let_def trim sign takeWhile_digits_append f fraction_cents_def)
      (simp add: a_def)
qed

subsection \<open>Properties\<close>

text \<open>
  (C26) \<open>parseMinorUnits\<close> reads exactly the decimal number the text denotes. When it accepts, the
  text has the required shape and the 64-bit result is its value in hundredths; when it
  refuses, the error is of kind invalid, with the overflow code precisely when the text is
  well formed and its value lies outside the signed 64-bit range, and the invalid-amount code
  precisely when it is malformed. No step of the 64-bit computation wraps around.
\<close>

theorem parseMinorUnits_exact:
  "case parseMinorUnits s of
     Inr u \<Rightarrow> amountPattern s \<and> sint u = decimal_cents s
   | Inl e \<Rightarrow> KindOf e = KindInvalid \<and>
       (if amountPattern s
        then CodeOf e = money_CodeOverflow \<and> \<not> in_int64 (decimal_cents s)
        else CodeOf e = money_CodeInvalidAmount)"
proof (cases "amountPattern s")
  case True
  then show ?thesis
    by (simp add: parseMinorUnits_accepted sint_word_of_int overflow_error_def)
next
  case False
  then show ?thesis by (auto simp: parseMinorUnits_def)
qed

text \<open>
  (C27) Formatting and parsing are inverse on the whole range: the text of any of the \<open>2 ^ 64\<close>
  amounts, including the least one whose magnitude is not a signed 64-bit number, parses back
  to that amount.
\<close>

theorem format_parse_roundtrip: "parseMinorUnits (FormatMinorUnits u) = Inr u"
  by (simp add: parseMinorUnits_ok_iff FormatMinorUnits_denotes)

lemma FormatMinorUnits_inject: "FormatMinorUnits u = FormatMinorUnits v \<longleftrightarrow> u = v"
  by (metis FormatMinorUnits_denotes(2) sint_eq_iff)

lemma Parse_ok_iff:
  "Parse a c = Inr m \<longleftrightarrow> currencyPattern c \<and> amountPattern a \<and>
     decimal_cents a = sint (m_amount m) \<and> m_currency m = c"
  by (auto simp: Parse_def and_then_Inr_iff NewCurrency_ok_iff parseMinorUnits_ok_iff)

text \<open>
  The three entry points differ only in the sign they admit: \<open>ParseNonNegative\<close> and
  \<open>ParsePositive\<close> accept exactly the texts \<open>Parse\<close> accepts whose value is not negative, or is
  positive, and return the same money.
\<close>

theorem parse_sign_variants:
  "(ParseNonNegative a c = Inr m \<longleftrightarrow> Parse a c = Inr m \<and> 0 \<le> decimal_cents a) \<and>
   (ParsePositive a c = Inr m \<longleftrightarrow> Parse a c = Inr m \<and> 0 < decimal_cents a)"
proof (cases "Parse a c")
  case (Inl e)
  then show ?thesis by (simp add: ParseNonNegative_def ParsePositive_def)
next
  case (Inr v)
  then have "decimal_cents a = sint (m_amount v)" by (simp add: Parse_ok_iff)
  with Inr show ?thesis
    by (auto simp: ParseNonNegative_def ParsePositive_def money_defs)
qed

end
