(* ===== verification/Ledger.thy ===== *)
theory Ledger
  imports Money_Text
begin

section \<open>Ledger entries (internal/domain/ledger/entry.go)\<close>

text \<open>
  An entry records one movement of a wallet: its direction, its amount and the balances before
  and after it. \<open>ledger_New\<close> and \<open>ledger_Rehydrate\<close> build one and validate it; the identifier
  that \<open>uuid.NewV7\<close> returns to the constructor is an argument. A direction is a Go string
  type, so the datatype keeps the values that are neither of its two constants.
\<close>

datatype direction = DirectionDebit | DirectionCredit | DirectionOther string

definition ledger_CodeInvalidEntry :: string where
  "ledger_CodeInvalidEntry = ''INVALID_LEDGER_ENTRY''"
definition ledger_CodeMathMismatch :: string where
  "ledger_CodeMathMismatch = ''LEDGER_BALANCE_MISMATCH''"

fun direction_string :: "direction \<Rightarrow> string" where
  "direction_string DirectionDebit = ''DEBIT''"
| "direction_string DirectionCredit = ''CREDIT''"
| "direction_string (DirectionOther s) = s"

definition ParseDirection :: "string \<Rightarrow> direction result" where
  "ParseDirection raw =
     (if raw = ''DEBIT'' then Inr DirectionDebit
      else if raw = ''CREDIT'' then Inr DirectionCredit
      else Inl (apperr_New KindInvalid ledger_CodeInvalidEntry
             (Sprintf ''direction %q is not supported'' [SArg raw])))"

record entry =
  e_id :: uuid
  e_walletID :: uuid
  e_transactionID :: uuid
  e_direction :: direction
  e_amount :: money
  e_balanceBefore :: money
  e_balanceAfter :: money
  e_createdAt :: time

definition entry_invalid :: "string \<Rightarrow> goerror" where
  "entry_invalid msg = apperr_New KindInvalid ledger_CodeInvalidEntry (Text msg)"

definition entry_validate :: "entry \<Rightarrow> unit result" where
  "entry_validate e =
     (if e_id e = uuid_Nil \<or> e_walletID e = uuid_Nil \<or> e_transactionID e = uuid_Nil
      then Inl (entry_invalid ''ledger entry identifiers are required'')
      else if e_direction e \<noteq> DirectionDebit \<and> e_direction e \<noteq> DirectionCredit
      then Inl (entry_invalid ''ledger direction is required'')
      else if \<not> money_IsValid (e_amount e) \<or> \<not> money_IsPositive (e_amount e)
      then Inl (entry_invalid ''ledger amount must be positive'')
      else if \<not> money_IsValid (e_balanceBefore e) \<or> \<not> money_IsValid (e_balanceAfter e)
      then Inl (entry_invalid ''ledger balances are required'')
      else if money_IsNegative (e_balanceBefore e) \<or> money_IsNegative (e_balanceAfter e)
      then Inl (entry_invalid ''ledger balances must not be negative'')
      else if time_IsZero (e_createdAt e)
      then Inl (entry_invalid ''ledger creation instant is required'')
      else
        and_then (case e_direction e of
            DirectionDebit \<Rightarrow> money_Sub (e_balanceBefore e) (e_amount e)
          | DirectionCredit \<Rightarrow> money_Add (e_balanceBefore e) (e_amount e)
          | DirectionOther _ \<Rightarrow> Inr money_zero_value) (\<lambda>expected.
        and_then (money_Equal expected (e_balanceAfter e)) (\<lambda>equal.
        if \<not> equal
        then Inl (apperr_New KindInvalid ledger_CodeMathMismatch
               (Sprintf ''balanceAfter %s does not match balanceBefore %s %s %s''
                 [SArg (AmountString (e_balanceAfter e)), SArg (AmountString (e_balanceBefore e)),
                  SArg (direction_string (e_direction e)), SArg (AmountString (e_amount e))]))
        else Inr ())))"

definition ledger_New ::
  "uuid \<Rightarrow> uuid \<Rightarrow> uuid \<Rightarrow> direction \<Rightarrow> money \<Rightarrow> money \<Rightarrow> money \<Rightarrow> time \<Rightarrow> entry result" where
  "ledger_New newID walletID transactionID direction amount balanceBefore balanceAfter now =
     (let entry = \<lparr>e_id = newID, e_walletID = walletID, e_transactionID = transactionID,
            e_direction = direction, e_amount = amount, e_balanceBefore = balanceBefore,
            e_balanceAfter = balanceAfter, e_createdAt = now\<rparr>
      in and_then (entry_validate entry) (\<lambda>_. Inr entry))"

definition ledger_Rehydrate ::
  "uuid \<Rightarrow> uuid \<Rightarrow> uuid \<Rightarrow> direction \<Rightarrow> money \<Rightarrow> money \<Rightarrow> money \<Rightarrow> time \<Rightarrow> entry result" where
  "ledger_Rehydrate rowID walletID transactionID direction amount balanceBefore balanceAfter createdAt =
     (let entry = \<lparr>e_id = rowID, e_walletID = walletID, e_transactionID = transactionID,
            e_direction = direction, e_amount = amount, e_balanceBefore = balanceBefore,
            e_balanceAfter = balanceAfter, e_createdAt = createdAt\<rparr>
      in and_then (entry_validate entry) (\<lambda>_. Inr entry))"

subsection \<open>What a valid entry satisfies\<close>

text \<open>The signed effect of an entry on its wallet, in minor units.\<close>

definition signed_amount :: "direction \<Rightarrow> int64 \<Rightarrow> int" where
  "signed_amount d a = (case d of DirectionDebit \<Rightarrow> - sint a | DirectionCredit \<Rightarrow> sint a
     | DirectionOther _ \<Rightarrow> 0)"

definition entry_effect :: "entry \<Rightarrow> int" where
  "entry_effect e = signed_amount (e_direction e) (m_amount (e_amount e))"

definition entry_ok :: "entry \<Rightarrow> bool" where
  "entry_ok e \<longleftrightarrow>
     e_id e \<noteq> uuid_Nil \<and> e_walletID e \<noteq> uuid_Nil \<and> e_transactionID e \<noteq> uuid_Nil \<and>
     (e_direction e = DirectionDebit \<or> e_direction e = DirectionCredit) \<and>
     compatible (e_balanceBefore e) (e_amount e) \<and>
     compatible (e_balanceBefore e) (e_balanceAfter e) \<and>
     0 < sint (m_amount (e_amount e)) \<and>
     0 \<le> sint (m_amount (e_balanceBefore e)) \<and> 0 \<le> sint (m_amount (e_balanceAfter e)) \<and>
     e_createdAt e \<noteq> 0 \<and>
     sint (m_amount (e_balanceAfter e)) = sint (m_amount (e_balanceBefore e)) + entry_effect e"

lemma sub_matches_iff:
  "(\<exists>c. money_Sub b a = Inr c \<and> money_Equal c r = Inr True) \<longleftrightarrow>
     compatible b a \<and> compatible b r \<and> sint (m_amount r) = sint (m_amount b) - sint (m_amount a)"
proof
  assume "\<exists>c. money_Sub b a = Inr c \<and> money_Equal c r = Inr True"
  then show "compatible b a \<and> compatible b r \<and> sint (m_amount r) = sint (m_amount b) - sint (m_amount a)"
    using money_exact.sub_exact [of b a] money_exact.agree_trans
    by (auto simp: money_Equal_ok_iff)
next
  assume r: "compatible b a \<and> compatible b r \<and> sint (m_amount r) = sint (m_amount b) - sint (m_amount a)"
  then have "in_int64 (sint (m_amount b) - sint (m_amount a))"
    using sint_in_int64 [of "m_amount r"] by simp
  with r show "\<exists>c. money_Sub b a = Inr c \<and> money_Equal c r = Inr True"
    by (auto simp: money_Sub_ok_iff money_Equal_ok_iff compatible_def money_defs
        sint_sub_exact simp flip: sint_eq_iff)
qed

lemma add_matches_iff:
  "(\<exists>c. money_Add b a = Inr c \<and> money_Equal c r = Inr True) \<longleftrightarrow>
     compatible b a \<and> compatible b r \<and> sint (m_amount r) = sint (m_amount b) + sint (m_amount a)"
proof
  assume "\<exists>c. money_Add b a = Inr c \<and> money_Equal c r = Inr True"
  then show "compatible b a \<and> compatible b r \<and> sint (m_amount r) = sint (m_amount b) + sint (m_amount a)"
    using money_exact.add_exact [of b a] money_exact.agree_trans
    by (auto simp: money_Equal_ok_iff)
next
  assume r: "compatible b a \<and> compatible b r \<and> sint (m_amount r) = sint (m_amount b) + sint (m_amount a)"
  then have "in_int64 (sint (m_amount b) + sint (m_amount a))"
    using sint_in_int64 [of "m_amount r"] by simp
  with r show "\<exists>c. money_Add b a = Inr c \<and> money_Equal c r = Inr True"
    by (auto simp: money_Add_ok_iff money_Equal_ok_iff compatible_def money_defs
        sint_add_exact simp flip: sint_eq_iff)
qed

lemma entry_validate_ok_iff: "entry_validate e = Inr () \<longleftrightarrow> entry_ok e"
proof -
  let ?guards = "e_id e \<noteq> uuid_Nil \<and> e_walletID e \<noteq> uuid_Nil \<and> e_transactionID e \<noteq> uuid_Nil \<and>
    money_IsValid (e_amount e) \<and> money_IsPositive (e_amount e) \<and>
    money_IsValid (e_balanceBefore e) \<and> money_IsValid (e_balanceAfter e) \<and>
    \<not> money_IsNegative (e_balanceBefore e) \<and> \<not> money_IsNegative (e_balanceAfter e) \<and>
    \<not> time_IsZero (e_createdAt e)"
  have shape: "entry_validate e = Inr () \<longleftrightarrow> ?guards \<and>
     (case e_direction e of
        DirectionDebit \<Rightarrow> \<exists>c. money_Sub (e_balanceBefore e) (e_amount e) = Inr c \<and>
          money_Equal c (e_balanceAfter e) = Inr True
      | DirectionCredit \<Rightarrow> \<exists>c. money_Add (e_balanceBefore e) (e_amount e) = Inr c \<and>
          money_Equal c (e_balanceAfter e) = Inr True
      | DirectionOther _ \<Rightarrow> False)"
    by (cases "e_direction e") (auto simp: entry_validate_def and_then_Inr_iff split: if_splits)
  show ?thesis
    unfolding shape
    by (cases "e_direction e")
      (auto simp: sub_matches_iff add_matches_iff entry_ok_def entry_effect_def signed_amount_def
        compatible_def money_defs time_IsZero_def)
qed

lemma ledger_New_ok_iff:
  "ledger_New i w t d a b c now = Inr e \<longleftrightarrow>
     e = \<lparr>e_id = i, e_walletID = w, e_transactionID = t, e_direction = d, e_amount = a,
          e_balanceBefore = b, e_balanceAfter = c, e_createdAt = now\<rparr> \<and> entry_ok e"
  by (auto simp: ledger_New_def Let_def and_then_Inr_iff simp flip: entry_validate_ok_iff)

lemma ParseDirection_string:
  "ParseDirection (direction_string d) = Inr d \<longleftrightarrow> d = DirectionDebit \<or> d = DirectionCredit"
  by (cases d) (auto simp: ParseDirection_def)

subsection \<open>Properties\<close>

text \<open>
  A ledger entry exists only if it balances: \<open>New\<close> returns an entry exactly when all
  identifiers are present, the amount is positive, neither balance is negative, all three
  amounts share one currency, and the balance after is the exact integer sum or difference of
  the balance before and the amount. The entry it returns carries the arguments unchanged.
\<close>

theorem ledger_New_balances:
  "(\<exists>e. ledger_New i w t d a b c now = Inr e) \<longleftrightarrow>
     i \<noteq> uuid_Nil \<and> w \<noteq> uuid_Nil \<and> t \<noteq> uuid_Nil \<and> now \<noteq> 0 \<and>
     compatible b a \<and> compatible b c \<and>
     0 < sint (m_amount a) \<and> 0 \<le> sint (m_amount b) \<and> 0 \<le> sint (m_amount c) \<and>
     (d = DirectionDebit \<and> sint (m_amount c) = sint (m_amount b) - sint (m_amount a) \<or>
      d = DirectionCredit \<and> sint (m_amount c) = sint (m_amount b) + sint (m_amount a))"
  by (cases d) (auto simp: ledger_New_ok_iff entry_ok_def entry_effect_def signed_amount_def)

end
