(* ===== verification/Wallet.thy ===== *)
theory Wallet
  imports Ledger
begin

section \<open>The wallet aggregate (internal/domain/wallet/wallet.go)\<close>

text \<open>
  The aggregate with its two movements. A method that mutates the receiver returns the new
  value of the aggregate; on an error the aggregate is unchanged, so only the error is
  returned. The version is a signed 64-bit counter and \<open>w.version++\<close> wraps around.
\<close>

definition wallet_CodeInvalidWallet :: string where
  "wallet_CodeInvalidWallet = ''INVALID_WALLET''"
definition wallet_CodeInsufficientFunds :: string where
  "wallet_CodeInsufficientFunds = ''INSUFFICIENT_FUNDS''"
definition wallet_CodeCurrencyMismatch :: string where
  "wallet_CodeCurrencyMismatch = ''WALLET_CURRENCY_MISMATCH''"
definition wallet_CodeVersionConflict :: string where
  "wallet_CodeVersionConflict = ''WALLET_VERSION_CONFLICT''"
definition wallet_CodeNonPositiveAmount :: string where
  "wallet_CodeNonPositiveAmount = ''WALLET_NON_POSITIVE_AMOUNT''"

record wallet =
  w_id :: uuid
  w_playerID :: uuid
  w_currency :: currency
  w_balance :: money
  w_version :: int64
  w_createdAt :: time
  w_updatedAt :: time

record BalanceChange =
  bc_Before :: money
  bc_After :: money

definition wallet_invalid :: "string \<Rightarrow> goerror" where
  "wallet_invalid msg = apperr_New KindInvalid wallet_CodeInvalidWallet (Text msg)"

definition wallet_Open :: "uuid \<Rightarrow> uuid \<Rightarrow> money \<Rightarrow> time \<Rightarrow> wallet result" where
  "wallet_Open newID playerID initialBalance now =
     (if playerID = uuid_Nil then Inl (wallet_invalid ''playerId is required'')
      else if \<not> money_IsValid initialBalance then Inl (wallet_invalid ''initial balance is required'')
      else if money_IsNegative initialBalance
      then Inl (wallet_invalid ''initial balance must not be negative'')
      else if time_IsZero now then Inl (wallet_invalid ''creation instant is required'')
      else Inr \<lparr>w_id = newID, w_playerID = playerID, w_currency = m_currency initialBalance,
             w_balance = initialBalance, w_version = 1, w_createdAt = now, w_updatedAt = now\<rparr>)"

definition wallet_Rehydrate ::
  "uuid \<Rightarrow> uuid \<Rightarrow> currency \<Rightarrow> int64 \<Rightarrow> int64 \<Rightarrow> time \<Rightarrow> time \<Rightarrow> wallet result" where
  "wallet_Rehydrate wid playerID cur balanceMinor version createdAt updatedAt =
     (if wid = uuid_Nil \<or> playerID = uuid_Nil
      then Inl (wallet_invalid ''wallet id and playerId are required'')
      else if Currency_IsZero cur then Inl (wallet_invalid ''currency is required'')
      else if sint balanceMinor < 0 then Inl (wallet_invalid ''persisted balance is negative'')
      else if sint version < 1 then Inl (wallet_invalid ''persisted version must be >= 1'')
      else if time_IsZero createdAt \<or> time_IsZero updatedAt \<or> updatedAt < createdAt
      then Inl (wallet_invalid ''invalid persisted timestamps'')
      else and_then (FromMinorUnits balanceMinor cur) (\<lambda>balance.
        Inr \<lparr>w_id = wid, w_playerID = playerID, w_currency = cur, w_balance = balance,
             w_version = version, w_createdAt = createdAt, w_updatedAt = updatedAt\<rparr>))"

definition wallet_assertMovement :: "wallet \<Rightarrow> money \<Rightarrow> time \<Rightarrow> unit result" where
  "wallet_assertMovement w amount now =
     (if \<not> money_IsValid amount then Inl (wallet_invalid ''movement amount is required'')
      else if \<not> money_IsPositive amount
      then Inl (apperr_New KindInvalid wallet_CodeNonPositiveAmount
             (Text ''movement amount must be positive''))
      else if m_currency amount \<noteq> w_currency w
      then Inl (apperr_New KindInvalid wallet_CodeCurrencyMismatch
             (Sprintf ''wallet currency is %s but movement uses %s''
               [SArg (w_currency w), SArg (m_currency amount)]))
      else if time_IsZero now then Inl (wallet_invalid ''movement instant is required'')
      else Inr ())"

definition wallet_apply :: "wallet \<Rightarrow> money \<Rightarrow> time \<Rightarrow> wallet" where
  "wallet_apply w balance now =
     w\<lparr>w_balance := balance, w_version := w_version w + 1, w_updatedAt := now\<rparr>"

definition wallet_Debit :: "wallet \<Rightarrow> money \<Rightarrow> time \<Rightarrow> (BalanceChange \<times> wallet) result" where
  "wallet_Debit w amount now =
     and_then (wallet_assertMovement w amount now) (\<lambda>_.
     and_then (money_Sub (w_balance w) amount) (\<lambda>after.
     if money_IsNegative after
     then Inl (apperr_New KindRejected wallet_CodeInsufficientFunds
            (Sprintf ''balance %s is not enough for debit of %s''
              [SArg (AmountString (w_balance w)), SArg (AmountString amount)]))
     else Inr (\<lparr>bc_Before = w_balance w, bc_After = after\<rparr>, wallet_apply w after now)))"

definition wallet_Credit :: "wallet \<Rightarrow> money \<Rightarrow> time \<Rightarrow> (BalanceChange \<times> wallet) result" where
  "wallet_Credit w amount now =
     and_then (wallet_assertMovement w amount now) (\<lambda>_.
     and_then (money_Add (w_balance w) amount) (\<lambda>after.
     Inr (\<lparr>bc_Before = w_balance w, bc_After = after\<rparr>, wallet_apply w after now)))"

subsection \<open>The invariant of the aggregate\<close>

definition wallet_inv :: "wallet \<Rightarrow> bool" where
  "wallet_inv w \<longleftrightarrow>
     w_id w \<noteq> uuid_Nil \<and> w_playerID w \<noteq> uuid_Nil \<and>
     currencyPattern (w_currency w) \<and> m_currency (w_balance w) = w_currency w \<and>
     0 \<le> sint (m_amount (w_balance w)) \<and> 1 \<le> sint (w_version w) \<and>
     w_createdAt w \<noteq> 0 \<and> w_updatedAt w \<noteq> 0 \<and> w_createdAt w \<le> w_updatedAt w"

definition movement_ok :: "wallet \<Rightarrow> money \<Rightarrow> time \<Rightarrow> bool" where
  "movement_ok w amount now \<longleftrightarrow>
     0 < sint (m_amount amount) \<and> m_currency amount = w_currency w \<and>
     w_currency w \<noteq> '''' \<and> now \<noteq> 0"

lemma wallet_assertMovement_ok_iff: "wallet_assertMovement w a now = Inr u \<longleftrightarrow> movement_ok w a now"
  by (auto simp: wallet_assertMovement_def movement_ok_def money_defs time_IsZero_def)

lemma wallet_inv_compatible:
  "wallet_inv w \<Longrightarrow> movement_ok w a now \<Longrightarrow> compatible (w_balance w) a"
  by (auto simp: wallet_inv_def movement_ok_def compatible_def money_defs)

text \<open>The whole behaviour of a debit and of a credit on a wallet that satisfies the invariant.\<close>

lemma wallet_Debit_eq:
  assumes inv: "wallet_inv w" and mv: "movement_ok w a now"
  shows "wallet_Debit w a now =
    (let after = \<lparr>m_amount = m_amount (w_balance w) - m_amount a, m_currency = w_currency w\<rparr> in
     if sint (m_amount (w_balance w)) < sint (m_amount a)
     then Inl (apperr_New KindRejected wallet_CodeInsufficientFunds
            (Sprintf ''balance %s is not enough for debit of %s''
              [SArg (AmountString (w_balance w)), SArg (AmountString a)]))
     else Inr (\<lparr>bc_Before = w_balance w, bc_After = after\<rparr>, wallet_apply w after now))"
proof -
  from inv mv have range: "in_int64 (sint (m_amount (w_balance w)) - sint (m_amount a))"
    using sint_upper [of "m_amount (w_balance w)"] sint_upper [of "m_amount a"]
    by (auto simp: wallet_inv_def movement_ok_def in_int64_def)
  from mv have "wallet_assertMovement w a now = Inr ()"
    by (simp add: wallet_assertMovement_ok_iff)
  with range wallet_inv_compatible [OF inv mv] inv show ?thesis
    by (simp add: wallet_Debit_def money_Sub_eq money_IsNegative_def sint_sub_exact Let_def wallet_inv_def)
qed

lemma wallet_Credit_eq:
  assumes inv: "wallet_inv w" and mv: "movement_ok w a now"
  shows "wallet_Credit w a now =
    (let after = \<lparr>m_amount = m_amount (w_balance w) + m_amount a, m_currency = w_currency w\<rparr> in
     if in_int64 (sint (m_amount (w_balance w)) + sint (m_amount a))
     then Inr (\<lparr>bc_Before = w_balance w, bc_After = after\<rparr>, wallet_apply w after now)
     else Inl (apperr_New KindInvalid money_CodeOverflow (Text ''money addition overflowed int64'')))"
proof -
  from mv have "wallet_assertMovement w a now = Inr ()"
    by (simp add: wallet_assertMovement_ok_iff)
  with wallet_inv_compatible [OF inv mv] inv show ?thesis
    by (simp add: wallet_Credit_def money_Add_eq Let_def wallet_inv_def)
qed

text \<open>A movement of either direction, as the service chooses it, and its signed effect.\<close>

definition wallet_Move :: "direction \<Rightarrow> wallet \<Rightarrow> money \<Rightarrow> time \<Rightarrow> (BalanceChange \<times> wallet) result" where
  "wallet_Move d w a now = (if d = DirectionDebit then wallet_Debit w a now else wallet_Credit w a now)"

lemma wallet_Move_ok:
  assumes "wallet_Move d w a now = Inr (ch, w')" and "wallet_inv w"
    and d: "d = DirectionDebit \<or> d = DirectionCredit"
  shows "movement_ok w a now" and "bc_Before ch = w_balance w" and "bc_After ch = w_balance w'"
    and "w' = wallet_apply w (bc_After ch) now"
    and "m_currency (bc_After ch) = w_currency w"
    and "0 \<le> sint (m_amount (bc_After ch))"
    and "sint (m_amount (bc_After ch)) = sint (m_amount (w_balance w)) + signed_amount d (m_amount a)"
proof -
  from assms(1) show mv: "movement_ok w a now"
    by (auto simp: wallet_Move_def wallet_Debit_def wallet_Credit_def and_then_Inr_iff
        wallet_assertMovement_ok_iff split: if_splits)
  note eqs = wallet_Debit_eq [OF assms(2) mv] wallet_Credit_eq [OF assms(2) mv]
  have nonneg: "0 \<le> sint (m_amount (w_balance w))" and pos: "0 < sint (m_amount a)"
    using assms(2) mv by (auto simp: wallet_inv_def movement_ok_def)
  have range: "\<not> sint (m_amount (w_balance w)) < sint (m_amount a) \<Longrightarrow>
      in_int64 (sint (m_amount (w_balance w)) - sint (m_amount a))"
    using pos sint_upper [of "m_amount (w_balance w)"] by (simp add: in_int64_def)
  show "bc_Before ch = w_balance w" "bc_After ch = w_balance w'"
    "w' = wallet_apply w (bc_After ch) now" "m_currency (bc_After ch) = w_currency w"
    using assms(1) d by (auto simp: wallet_Move_def eqs Let_def wallet_apply_def split: if_splits)
  show "0 \<le> sint (m_amount (bc_After ch))"
    "sint (m_amount (bc_After ch)) = sint (m_amount (w_balance w)) + signed_amount d (m_amount a)"
    using assms(1) d nonneg pos range
    by (auto simp: wallet_Move_def eqs Let_def sint_add_exact sint_sub_exact signed_amount_def
        split: if_splits)
qed

lemma wallet_apply_inv:
  assumes "wallet_inv w" and "m_currency b = w_currency w" and "0 \<le> sint (m_amount b)"
    and "w_createdAt w \<le> now" and "now \<noteq> 0" and "sint (w_version w) < 9223372036854775807"
  shows "wallet_inv (wallet_apply w b now)"
proof -
  from assms(1,6) have "sint (w_version w + 1) = sint (w_version w) + 1"
    by (subst sint_add_exact) (simp_all add: in_int64_def wallet_inv_def)
  with assms show ?thesis by (simp add: wallet_inv_def wallet_apply_def)
qed

lemma wallet_Rehydrate_ok_iff:
  "wallet_Rehydrate i p c b v cr up = Inr w \<longleftrightarrow>
     wallet_inv w \<and> w = \<lparr>w_id = i, w_playerID = p, w_currency = c,
       w_balance = \<lparr>m_amount = b, m_currency = c\<rparr>, w_version = v, w_createdAt = cr, w_updatedAt = up\<rparr>"
  by (auto simp: wallet_Rehydrate_def wallet_inv_def and_then_Inr_iff FromMinorUnits_ok_iff
      Currency_IsZero_def time_IsZero_def currencyPattern_nonempty split: if_splits)

lemma wallet_Open_ok_iff:
  "wallet_Open i p b now = Inr w \<longleftrightarrow>
     p \<noteq> uuid_Nil \<and> m_currency b \<noteq> '''' \<and> 0 \<le> sint (m_amount b) \<and> now \<noteq> 0 \<and>
     w = \<lparr>w_id = i, w_playerID = p, w_currency = m_currency b, w_balance = b, w_version = 1,
          w_createdAt = now, w_updatedAt = now\<rparr>"
  by (auto simp: wallet_Open_def money_defs time_IsZero_def)

text \<open>The ledger always accepts the change a movement reports.\<close>

lemma movement_entry_ok:
  assumes "wallet_Move d w a now = Inr (ch, w')" and "wallet_inv w"
    and "d = DirectionDebit \<or> d = DirectionCredit" and "i \<noteq> uuid_Nil" and "t \<noteq> uuid_Nil"
  shows "entry_ok \<lparr>e_id = i, e_walletID = w_id w, e_transactionID = t, e_direction = d,
    e_amount = a, e_balanceBefore = bc_Before ch, e_balanceAfter = bc_After ch, e_createdAt = now\<rparr>"
  using wallet_Move_ok [OF assms(1-3)] assms(2-5)
  by (auto simp: entry_ok_def entry_effect_def movement_ok_def wallet_inv_def compatible_def money_defs)

subsection \<open>A sample wallet for the witnesses\<close>

definition sample_wallet :: wallet where
  "sample_wallet = \<lparr>w_id = 1, w_playerID = 2, w_currency = ''BRL'',
     w_balance = \<lparr>m_amount = 10000, m_currency = ''BRL''\<rparr>, w_version = 1,
     w_createdAt = 5, w_updatedAt = 5\<rparr>"

definition sample_bet :: money where
  "sample_bet = \<lparr>m_amount = 8000, m_currency = ''BRL''\<rparr>"

lemma sample_wallet_inv: "wallet_inv sample_wallet"
  by (simp add: wallet_inv_def sample_wallet_def currencyPattern_def is_upper_def uuid_Nil_def)

lemma sample_amounts:
  "sint (m_amount (w_balance sample_wallet)) = 10000" "sint (m_amount sample_bet) = 8000"
  by (simp_all add: sample_wallet_def sample_bet_def)

lemma sample_movement_ok: "movement_ok sample_wallet sample_bet 9"
  by (simp add: movement_ok_def sample_wallet_def sample_bet_def)

lemma sample_debit:
  obtains ch w' where "wallet_Debit sample_wallet sample_bet 9 = Inr (ch, w')"
    and "wallet_Move DirectionDebit sample_wallet sample_bet 9 = Inr (ch, w')"
  by (auto simp: wallet_Debit_eq [OF sample_wallet_inv sample_movement_ok] Let_def sample_amounts
      wallet_Move_def)

subsection \<open>Properties\<close>

text \<open>
  (C24) A debit can only fail for lack of funds: on a wallet that satisfies its invariant and a
  positive amount in its currency, \<open>Debit\<close> is rejected with \<open>INSUFFICIENT_FUNDS\<close> exactly when
  the balance is smaller than the amount; otherwise the new balance is the exact difference,
  the change reports both balances, the version grows by one and the instant is recorded.
\<close>

theorem wallet_Debit_outcome:
  assumes "wallet_inv w" and "movement_ok w a now"
  shows "case wallet_Debit w a now of
      Inl e \<Rightarrow> KindOf e = KindRejected \<and> CodeOf e = wallet_CodeInsufficientFunds \<and>
        sint (m_amount (w_balance w)) < sint (m_amount a)
    | Inr (ch, w') \<Rightarrow> sint (m_amount a) \<le> sint (m_amount (w_balance w)) \<and>
        bc_Before ch = w_balance w \<and> bc_After ch = w_balance w' \<and>
        sint (m_amount (w_balance w')) = sint (m_amount (w_balance w)) - sint (m_amount a) \<and>
        w_version w' = w_version w + 1 \<and> w_updatedAt w' = now \<and> w_id w' = w_id w"
proof -
  have "in_int64 (sint (m_amount (w_balance w)) - sint (m_amount a))"
    using assms sint_upper [of "m_amount (w_balance w)"] sint_upper [of "m_amount a"]
    by (auto simp: wallet_inv_def movement_ok_def in_int64_def)
  then show ?thesis
    by (simp add: wallet_Debit_eq [OF assms] Let_def wallet_apply_def sint_sub_exact)
qed

theorem wallet_Debit_outcome_witness:
  "\<exists>ch w'. wallet_Debit sample_wallet sample_bet 9 = Inr (ch, w') \<and>
     sint (m_amount (w_balance w')) = 10000 - 8000"
proof -
  obtain ch w' where eq: "wallet_Debit sample_wallet sample_bet 9 = Inr (ch, w')"
    by (rule sample_debit)
  note out = wallet_Debit_outcome [OF sample_wallet_inv sample_movement_ok,
      unfolded eq sample_amounts sum.case prod.case]
  show ?thesis
    by (intro exI conjI, rule eq, rule out [THEN conjunct2, THEN conjunct2, THEN conjunct2, THEN conjunct1])
qed

text \<open>
  Movements keep the aggregate's invariant: after a debit or a credit the balance is not
  negative, its currency is the wallet's, the version is positive and the timestamps are in
  order, provided the instant does not precede the wallet's creation and the version counter
  has not reached its maximum.
\<close>

theorem wallet_Move_inv:
  assumes "wallet_inv w" and "d = DirectionDebit \<or> d = DirectionCredit"
    and "wallet_Move d w a now = Inr (ch, w')"
    and "w_createdAt w \<le> now" and "sint (w_version w) < 9223372036854775807"
  shows "wallet_inv w' \<and> sint (w_version w') = sint (w_version w) + 1"
proof -
  note mv = wallet_Move_ok [OF assms(3,1,2)]
  have "sint (w_version w + 1) = sint (w_version w) + 1"
    using assms(1,5) by (subst sint_add_exact) (simp_all add: in_int64_def wallet_inv_def)
  moreover have "wallet_inv (wallet_apply w (bc_After ch) now)"
    using mv assms by (intro wallet_apply_inv) (auto simp: movement_ok_def)
  ultimately show ?thesis using mv(4) by (simp add: wallet_apply_def)
qed

theorem wallet_Move_inv_witness:
  "\<exists>ch w'. wallet_Move DirectionDebit sample_wallet sample_bet 9 = Inr (ch, w') \<and> wallet_inv w'"
proof -
  obtain ch w' where mv: "wallet_Move DirectionDebit sample_wallet sample_bet 9 = Inr (ch, w')"
    by (rule sample_debit)
  have "wallet_inv w'"
    using wallet_Move_inv [OF sample_wallet_inv _ mv] by (simp add: sample_wallet_def)
  with mv show ?thesis by blast
qed

text \<open>
  (C25) The wallet and the ledger agree on every movement: the change reported by a successful
  debit or credit of a wallet that satisfies its invariant is always accepted by \<open>ledger.New\<close>,
  so a movement that has changed the wallet is never abandoned because its entry is refused.
\<close>

theorem movement_accepted_by_ledger:
  assumes "wallet_inv w" and "d = DirectionDebit \<or> d = DirectionCredit"
    and "wallet_Move d w a now = Inr (ch, w')" and "i \<noteq> uuid_Nil" and "t \<noteq> uuid_Nil"
  shows "\<exists>e. ledger_New i (w_id w) t d a (bc_Before ch) (bc_After ch) now = Inr e \<and>
     entry_effect e = sint (m_amount (w_balance w')) - sint (m_amount (w_balance w))"
proof (intro exI conjI)
  let ?e = "\<lparr>e_id = i, e_walletID = w_id w, e_transactionID = t, e_direction = d,
    e_amount = a, e_balanceBefore = bc_Before ch, e_balanceAfter = bc_After ch, e_createdAt = now\<rparr>"
  show "ledger_New i (w_id w) t d a (bc_Before ch) (bc_After ch) now = Inr ?e"
    using movement_entry_ok [OF assms(3,1,2,4,5)] by (simp add: ledger_New_ok_iff)
  show "entry_effect ?e = sint (m_amount (w_balance w')) - sint (m_amount (w_balance w))"
    using wallet_Move_ok(3,7) [OF assms(3,1,2)] by (simp add: entry_effect_def)
qed

theorem movement_accepted_by_ledger_witness:
  "\<exists>ch w' e. wallet_Move DirectionDebit sample_wallet sample_bet 9 = Inr (ch, w') \<and>
     ledger_New 7 (w_id sample_wallet) 8 DirectionDebit sample_bet (bc_Before ch) (bc_After ch) 9 = Inr e"
proof -
  obtain ch w' where mv: "wallet_Move DirectionDebit sample_wallet sample_bet 9 = Inr (ch, w')"
    by (rule sample_debit)
  obtain e where "ledger_New 7 (w_id sample_wallet) 8 DirectionDebit sample_bet
      (bc_Before ch) (bc_After ch) 9 = Inr e"
    using movement_accepted_by_ledger [OF sample_wallet_inv _ mv, of 7 8]
    by (auto simp: uuid_Nil_def)
  with mv show ?thesis by blast
qed

text \<open>
  \<open>Rehydrate\<close> accepts exactly the persisted states that satisfy the aggregate's invariant,
  returns them unchanged, and so inverts the persisting of any wallet that satisfies it.
\<close>

theorem wallet_Rehydrate_exact:
  "wallet_Rehydrate (w_id w) (w_playerID w) (w_currency w) (m_amount (w_balance w)) (w_version w)
     (w_createdAt w) (w_updatedAt w) = Inr w' \<longleftrightarrow>
   wallet_inv w' \<and> w' = w\<lparr>w_balance := \<lparr>m_amount = m_amount (w_balance w), m_currency = w_currency w\<rparr>\<rparr>"
  by (auto simp: wallet_Rehydrate_ok_iff)

end
