(* ===== verification/Wagering.thy ===== *)
theory Wagering
  imports Wallet
begin

section \<open>Wager transactions (internal/domain/wagering/transaction.go)\<close>

text \<open>
  The transaction aggregate, its validation rules and its state machine. \<open>Kind\<close>, \<open>Status\<close> and
  \<open>Origin\<close> are Go string types, so each datatype keeps the values that are none of the
  declared constants. The identifier \<open>mustUUIDv7\<close> makes is an argument of the constructors. A
  method that mutates its receiver returns the new value; all of its error returns precede its
  first assignment, so on an error the receiver is unchanged and only the error is returned.
\<close>

subsection \<open>Kinds, statuses and origins\<close>

datatype kind = KindOpening | KindBet | KindWin | KindLoss | KindRefund | KindRollback
  | KindOther string

datatype status = StatusPending | StatusPendingReference | StatusProcessed | StatusRejected
  | StatusFailed | StatusOther string

datatype origin = OriginInternal | OriginExternal | OriginOther string

definition CodeInvalidTransaction :: string where
  "CodeInvalidTransaction = ''INVALID_TRANSACTION''"
definition CodeInvalidKind :: string where
  "CodeInvalidKind = ''INVALID_TRANSACTION_KIND''"
definition CodeInvalidStatus :: string where
  "CodeInvalidStatus = ''INVALID_TRANSACTION_STATUS''"
definition CodeInvalidTransition :: string where
  "CodeInvalidTransition = ''INVALID_TRANSACTION_TRANSITION''"
definition CodeTerminalState :: string where
  "CodeTerminalState = ''TRANSACTION_TERMINAL''"

definition FailureInsufficientFunds :: string where
  "FailureInsufficientFunds = ''INSUFFICIENT_FUNDS''"
definition FailureReversalInsufficientFunds :: string where
  "FailureReversalInsufficientFunds = ''REVERSAL_INSUFFICIENT_FUNDS''"
definition FailureReferenceNotFound :: string where
  "FailureReferenceNotFound = ''REFERENCE_NOT_FOUND''"
definition FailureReferenceNotProcessed :: string where
  "FailureReferenceNotProcessed = ''REFERENCE_NOT_PROCESSED''"
definition FailureReferenceMismatch :: string where
  "FailureReferenceMismatch = ''REFERENCE_MISMATCH''"
definition FailureReferenceAmountMismatch :: string where
  "FailureReferenceAmountMismatch = ''REFERENCE_AMOUNT_MISMATCH''"
definition FailureReversalConflict :: string where
  "FailureReversalConflict = ''REVERSAL_CONFLICT''"
definition FailureWalletNotFound :: string where
  "FailureWalletNotFound = ''WALLET_NOT_FOUND''"
definition FailureWalletPlayerMismatch :: string where
  "FailureWalletPlayerMismatch = ''WALLET_PLAYER_MISMATCH''"
definition FailureCurrencyMismatch :: string where
  "FailureCurrencyMismatch = ''CURRENCY_MISMATCH''"
definition FailureInvalidAmount :: string where
  "FailureInvalidAmount = ''INVALID_AMOUNT''"
definition FailureUnsupportedKind :: string where
  "FailureUnsupportedKind = ''UNSUPPORTED_KIND''"
definition FailureReferencePending :: string where
  "FailureReferencePending = ''REFERENCE_PENDING''"

named_theorems failure_codes

lemmas [failure_codes] = FailureInsufficientFunds_def FailureReversalInsufficientFunds_def
  FailureReferenceNotFound_def FailureReferenceNotProcessed_def FailureReferenceMismatch_def
  FailureReferenceAmountMismatch_def FailureReversalConflict_def FailureWalletNotFound_def
  FailureWalletPlayerMismatch_def FailureCurrencyMismatch_def FailureInvalidAmount_def
  FailureUnsupportedKind_def FailureReferencePending_def

fun kind_string :: "kind \<Rightarrow> string" where
  "kind_string KindOpening = ''OPENING''"
| "kind_string KindBet = ''BET''"
| "kind_string KindWin = ''WIN''"
| "kind_string KindLoss = ''LOSS''"
| "kind_string KindRefund = ''REFUND''"
| "kind_string KindRollback = ''ROLLBACK''"
| "kind_string (KindOther s) = s"

definition ParseKind :: "string \<Rightarrow> kind result" where
  "ParseKind raw =
     (if raw = ''OPENING'' then Inr KindOpening
      else if raw = ''BET'' then Inr KindBet
      else if raw = ''WIN'' then Inr KindWin
      else if raw = ''LOSS'' then Inr KindLoss
      else if raw = ''REFUND'' then Inr KindRefund
      else if raw = ''ROLLBACK'' then Inr KindRollback
      else Inl (apperr_New KindInvalid CodeInvalidKind
             (Sprintf ''kind %q is not supported'' [SArg raw])))"

definition IsExternal :: "kind \<Rightarrow> bool" where
  "IsExternal k = (k \<noteq> KindOpening)"

definition RequiresReference :: "kind \<Rightarrow> bool" where
  "RequiresReference k = (k = KindRefund \<or> k = KindRollback)"

definition IsReversal :: "kind \<Rightarrow> bool" where
  "IsReversal k = (k = KindRefund \<or> k = KindRollback)"

definition requiresOptionalReference :: "kind \<Rightarrow> bool" where
  "requiresOptionalReference k = (k = KindWin)"

fun status_string :: "status \<Rightarrow> string" where
  "status_string StatusPending = ''PENDING''"
| "status_string StatusPendingReference = ''PENDING_REFERENCE''"
| "status_string StatusProcessed = ''PROCESSED''"
| "status_string StatusRejected = ''REJECTED''"
| "status_string StatusFailed = ''FAILED''"
| "status_string (StatusOther s) = s"

definition ParseStatus :: "string \<Rightarrow> status result" where
  "ParseStatus raw =
     (if raw = ''PENDING'' then Inr StatusPending
      else if raw = ''PENDING_REFERENCE'' then Inr StatusPendingReference
      else if raw = ''PROCESSED'' then Inr StatusProcessed
      else if raw = ''REJECTED'' then Inr StatusRejected
      else if raw = ''FAILED'' then Inr StatusFailed
      else Inl (apperr_New KindInvalid CodeInvalidStatus
             (Sprintf ''status %q is not supported'' [SArg raw])))"

definition status_IsTerminal :: "status \<Rightarrow> bool" where
  "status_IsTerminal s = (s = StatusProcessed \<or> s = StatusRejected \<or> s = StatusFailed)"

fun origin_string :: "origin \<Rightarrow> string" where
  "origin_string OriginInternal = ''INTERNAL''"
| "origin_string OriginExternal = ''EXTERNAL''"
| "origin_string (OriginOther s) = s"

text \<open>The conversion \<open>wagering.Origin(raw)\<close>.\<close>

definition origin_of_string :: "string \<Rightarrow> origin" where
  "origin_of_string raw =
     (if raw = ''INTERNAL'' then OriginInternal
      else if raw = ''EXTERNAL'' then OriginExternal
      else OriginOther raw)"

definition IsCorrectableFailure :: "string \<Rightarrow> bool" where
  "IsCorrectableFailure code =
     (code = FailureInsufficientFunds \<or> code = FailureReversalInsufficientFunds \<or>
      code = FailureReferenceNotFound \<or> code = FailureReferenceNotProcessed \<or>
      code = FailureReferencePending)"

subsection \<open>The aggregate\<close>

record ExternalParams =
  xp_ProviderID :: string
  xp_ExternalTransactionID :: string
  xp_IdempotencyKey :: string
  xp_PayloadHash :: string
  xp_WalletID :: uuid
  xp_PlayerID :: uuid
  xp_RoundID :: string
  xp_GameID :: string
  xp_Kind :: kind
  xp_Money :: money
  xp_ReferenceExternalTransactionID :: string

record OpeningParams =
  op_WalletID :: uuid
  op_PlayerID :: uuid
  op_Money :: money

text \<open>\<open>transaction\<close> is also the type of \<open>RehydrateParams\<close>, which has the same fields.\<close>

record transaction =
  t_id :: uuid
  t_origin :: origin
  t_providerID :: string
  t_externalTransactionID :: string
  t_idempotencyKey :: string
  t_payloadHash :: string
  t_walletID :: uuid
  t_playerID :: uuid
  t_roundID :: string
  t_gameID :: string
  t_kind :: kind
  t_amount :: money
  t_referenceExternalTransactionID :: string
  t_referenceTransactionID :: "uuid option"
  t_status :: status
  t_failureCode :: string
  t_resultBalance :: "money option"
  t_attempts :: int64
  t_nextAttemptAt :: "time option"
  t_createdAt :: time
  t_updatedAt :: time

definition tx_invalid :: "string \<Rightarrow> goerror" where
  "tx_invalid msg = apperr_New KindInvalid CodeInvalidTransaction (Text msg)"

definition tx_invalid_kind :: "string \<Rightarrow> kind \<Rightarrow> goerror" where
  "tx_invalid_kind fmt k = apperr_New KindInvalid CodeInvalidTransaction (Sprintf fmt [SArg (kind_string k)])"

definition validateAmountForKind :: "kind \<Rightarrow> money \<Rightarrow> unit result" where
  "validateAmountForKind k amount =
     (if \<not> money_IsValid amount then Inl (tx_invalid ''money is required'')
      else if money_IsNegative amount
      then Inl (apperr_New KindInvalid money_CodeNegativeAmount (Text ''amount must not be negative''))
      else if k = KindLoss
      then (if \<not> money_IsZero amount
            then Inl (apperr_New KindInvalid FailureInvalidAmount
                   (Text ''LOSS requires money.amount equal to 0.00''))
            else Inr ())
      else if \<not> money_IsPositive amount
      then Inl (apperr_New KindInvalid FailureInvalidAmount
             (Sprintf ''%s requires a positive amount'' [SArg (kind_string k)]))
      else Inr ())"

definition NewExternal :: "uuid \<Rightarrow> ExternalParams \<Rightarrow> time \<Rightarrow> transaction result" where
  "NewExternal newID p now =
     (if xp_ProviderID p = '''' then Inl (tx_invalid ''providerId is required'')
      else if xp_ExternalTransactionID p = ''''
      then Inl (tx_invalid ''externalTransactionId is required'')
      else if xp_IdempotencyKey p = '''' then Inl (tx_invalid ''idempotency key is required'')
      else if xp_PayloadHash p = '''' then Inl (tx_invalid ''payload hash is required'')
      else if xp_WalletID p = uuid_Nil \<or> xp_PlayerID p = uuid_Nil
      then Inl (tx_invalid ''walletId and playerId are required'')
      else if xp_RoundID p = '''' then Inl (tx_invalid ''roundId is required'')
      else if xp_GameID p = '''' then Inl (tx_invalid ''gameId is required'')
      else if \<not> IsExternal (xp_Kind p)
      then Inl (apperr_New KindInvalid CodeInvalidKind
        (Text ''OPENING is reserved for internal wallet creation and cannot be sent by a provider''))
      else and_then (validateAmountForKind (xp_Kind p) (xp_Money p)) (\<lambda>_.
        if RequiresReference (xp_Kind p) \<and> xp_ReferenceExternalTransactionID p = ''''
        then Inl (tx_invalid_kind ''%s requires referenceExternalTransactionId'' (xp_Kind p))
        else if \<not> IsReversal (xp_Kind p) \<and> \<not> requiresOptionalReference (xp_Kind p) \<and>
            xp_ReferenceExternalTransactionID p \<noteq> ''''
        then Inl (tx_invalid_kind ''%s does not accept referenceExternalTransactionId'' (xp_Kind p))
        else if time_IsZero now then Inl (tx_invalid ''creation instant is required'')
        else Inr \<lparr>t_id = newID, t_origin = OriginExternal, t_providerID = xp_ProviderID p,
          t_externalTransactionID = xp_ExternalTransactionID p,
          t_idempotencyKey = xp_IdempotencyKey p, t_payloadHash = xp_PayloadHash p,
          t_walletID = xp_WalletID p, t_playerID = xp_PlayerID p, t_roundID = xp_RoundID p,
          t_gameID = xp_GameID p, t_kind = xp_Kind p, t_amount = xp_Money p,
          t_referenceExternalTransactionID = xp_ReferenceExternalTransactionID p,
          t_referenceTransactionID = None, t_status = StatusPending, t_failureCode = '''',
          t_resultBalance = None, t_attempts = 0, t_nextAttemptAt = None,
          t_createdAt = now, t_updatedAt = now\<rparr>))"

definition NewOpening :: "uuid \<Rightarrow> OpeningParams \<Rightarrow> time \<Rightarrow> transaction result" where
  "NewOpening newID p now =
     (if op_WalletID p = uuid_Nil \<or> op_PlayerID p = uuid_Nil
      then Inl (tx_invalid ''walletId and playerId are required'')
      else if \<not> money_IsValid (op_Money p) \<or> \<not> money_IsPositive (op_Money p)
      then Inl (tx_invalid ''opening amount must be positive'')
      else if time_IsZero now then Inl (tx_invalid ''creation instant is required'')
      else Inr \<lparr>t_id = newID, t_origin = OriginInternal, t_providerID = '''',
          t_externalTransactionID = '''', t_idempotencyKey = '''', t_payloadHash = '''',
          t_walletID = op_WalletID p, t_playerID = op_PlayerID p, t_roundID = '''',
          t_gameID = '''', t_kind = KindOpening, t_amount = op_Money p,
          t_referenceExternalTransactionID = '''', t_referenceTransactionID = None,
          t_status = StatusProcessed, t_failureCode = '''', t_resultBalance = Some (op_Money p),
          t_attempts = 0, t_nextAttemptAt = None, t_createdAt = now, t_updatedAt = now\<rparr>)"

definition tx_Rehydrate :: "transaction \<Rightarrow> transaction result" where
  "tx_Rehydrate p =
     (if t_id p = uuid_Nil then Inl (tx_invalid ''transaction id is required'')
      else if t_walletID p = uuid_Nil \<or> t_playerID p = uuid_Nil
      then Inl (tx_invalid ''walletId and playerId are required'')
      else if \<not> money_IsValid (t_amount p) then Inl (tx_invalid ''money is required'')
      else if sint (t_attempts p) < 0 then Inl (tx_invalid ''attempts must not be negative'')
      else if status_IsTerminal (t_status p) \<and> t_resultBalance p = None \<and>
          t_status p = StatusProcessed \<and> t_kind p \<noteq> KindLoss
      then Inl (tx_invalid ''processed transaction is missing its result balance'')
      else if (t_status p = StatusRejected \<or> t_status p = StatusFailed) \<and> t_failureCode p = ''''
      then Inl (tx_invalid ''rejected or failed transaction is missing a failure code'')
      else if time_IsZero (t_createdAt p) \<or> time_IsZero (t_updatedAt p)
      then Inl (tx_invalid ''timestamps are required'')
      else Inr p)"

subsection \<open>The state machine\<close>

text \<open>The table \<open>allowed\<close>: a status that is not a key of it allows nothing.\<close>

definition allowed_transition :: "status \<Rightarrow> status \<Rightarrow> bool" where
  "allowed_transition s to =
     (case s of
        StatusPending \<Rightarrow> to \<in> {StatusPendingReference, StatusProcessed, StatusRejected, StatusFailed}
      | StatusPendingReference \<Rightarrow> to \<in> {StatusProcessed, StatusRejected, StatusFailed}
      | _ \<Rightarrow> False)"

definition assertTransition :: "transaction \<Rightarrow> status \<Rightarrow> unit result" where
  "assertTransition t to =
     (if status_IsTerminal (t_status t)
      then Inl (apperr_New KindConflict CodeTerminalState
             (Sprintf ''transaction %s is terminal in status %s''
               [UArg (t_id t), SArg (status_string (t_status t))]))
      else if \<not> allowed_transition (t_status t) to
      then Inl (apperr_New KindConflict CodeInvalidTransition
             (Sprintf ''cannot transition transaction from %s to %s''
               [SArg (status_string (t_status t)), SArg (status_string to)]))
      else Inr ())"

definition MarkPendingReference :: "transaction \<Rightarrow> time \<Rightarrow> transaction result" where
  "MarkPendingReference t now =
     and_then (assertTransition t StatusPendingReference) (\<lambda>_.
     Inr (t\<lparr>t_status := StatusPendingReference, t_updatedAt := now\<rparr>))"

definition ScheduleRetry :: "transaction \<Rightarrow> time \<Rightarrow> time \<Rightarrow> transaction result" where
  "ScheduleRetry t nextAt now =
     (if t_status t \<noteq> StatusPending \<and> t_status t \<noteq> StatusPendingReference
      then Inl (apperr_New KindConflict CodeTerminalState
             (Sprintf ''cannot schedule retry for transaction in status %s''
               [SArg (status_string (t_status t))]))
      else if time_IsZero nextAt then Inl (tx_invalid ''next attempt instant is required'')
      else Inr (t\<lparr>t_attempts := t_attempts t + 1, t_nextAttemptAt := Some nextAt, t_updatedAt := now\<rparr>))"

definition MarkProcessed :: "transaction \<Rightarrow> money \<Rightarrow> time \<Rightarrow> transaction result" where
  "MarkProcessed t balance now =
     and_then (assertTransition t StatusProcessed) (\<lambda>_.
     if \<not> money_IsValid balance then Inl (tx_invalid ''result balance is required'')
     else Inr (t\<lparr>t_status := StatusProcessed, t_resultBalance := Some balance, t_failureCode := '''',
            t_nextAttemptAt := None, t_updatedAt := now\<rparr>))"

definition MarkRejected :: "transaction \<Rightarrow> string \<Rightarrow> money option \<Rightarrow> time \<Rightarrow> transaction result" where
  "MarkRejected t code balance now =
     and_then (assertTransition t StatusRejected) (\<lambda>_.
     if code = '''' then Inl (tx_invalid ''failure code is required for a rejection'')
     else Inr (t\<lparr>t_status := StatusRejected, t_failureCode := code, t_resultBalance := balance,
            t_nextAttemptAt := None, t_updatedAt := now\<rparr>))"

definition MarkFailed :: "transaction \<Rightarrow> string \<Rightarrow> time \<Rightarrow> transaction result" where
  "MarkFailed t code now =
     and_then (assertTransition t StatusFailed) (\<lambda>_.
     if code = '''' then Inl (tx_invalid ''failure code is required for a failure'')
     else Inr (t\<lparr>t_status := StatusFailed, t_failureCode := code, t_nextAttemptAt := None,
            t_updatedAt := now\<rparr>))"

definition SetReferenceResolution :: "transaction \<Rightarrow> uuid \<Rightarrow> time \<Rightarrow> transaction" where
  "SetReferenceResolution t referenceID now =
     t\<lparr>t_referenceTransactionID := Some referenceID, t_updatedAt := now\<rparr>"

definition tx_Validate :: "transaction \<Rightarrow> unit result" where
  "tx_Validate t =
     (if t_id t = uuid_Nil then Inl (tx_invalid ''transaction id is required'')
      else if t_origin t = OriginExternal then
        (if t_providerID t = '''' \<or> t_externalTransactionID t = '''' \<or> t_idempotencyKey t = '''' \<or>
            t_payloadHash t = ''''
         then Inl (tx_invalid ''external transaction is missing provider metadata'')
         else if t_roundID t = '''' \<or> t_gameID t = ''''
         then Inl (tx_invalid ''external transaction is missing roundId or gameId'')
         else if t_kind t = KindOpening
         then Inl (tx_invalid ''external transaction cannot be an opening'')
         else validateAmountForKind (t_kind t) (t_amount t))
      else if t_kind t \<noteq> KindOpening
      then Inl (tx_invalid ''internal transaction must be an opening'')
      else validateAmountForKind (t_kind t) (t_amount t))"

definition tx_IsTerminal :: "transaction \<Rightarrow> bool" where
  "tx_IsTerminal t = status_IsTerminal (t_status t)"

subsection \<open>Lemmas on parsing, validation and transitions\<close>

lemma ParseKind_ok_iff:
  "ParseKind raw = Inr k \<longleftrightarrow> kind_string k = raw \<and> (\<forall>s. k \<noteq> KindOther s)"
  by (cases k) (auto simp: ParseKind_def)

lemma ParseStatus_ok_iff:
  "ParseStatus raw = Inr s \<longleftrightarrow> status_string s = raw \<and> (\<forall>x. s \<noteq> StatusOther x)"
  by (cases s) (auto simp: ParseStatus_def)

definition origin_known :: "origin \<Rightarrow> bool" where
  "origin_known x \<longleftrightarrow> x = OriginInternal \<or> x = OriginExternal"

lemma origin_of_string_string [simp]: "origin_known x \<Longrightarrow> origin_of_string (origin_string x) = x"
  by (auto simp: origin_known_def origin_of_string_def)

definition amount_ok :: "kind \<Rightarrow> money \<Rightarrow> bool" where
  "amount_ok k a \<longleftrightarrow> m_currency a \<noteq> '''' \<and>
     (if k = KindLoss then m_amount a = 0 else 0 < sint (m_amount a))"

lemma validateAmountForKind_ok_iff: "validateAmountForKind k a = Inr u \<longleftrightarrow> amount_ok k a"
  by (auto simp: validateAmountForKind_def amount_ok_def money_defs)

lemma assertTransition_ok_iff:
  "assertTransition t to = Inr u \<longleftrightarrow> allowed_transition (t_status t) to"
  by (cases "t_status t") (auto simp: assertTransition_def allowed_transition_def status_IsTerminal_def)

lemma NewExternal_ok_iff:
  "NewExternal i p now = Inr t \<longleftrightarrow>
     xp_ProviderID p \<noteq> '''' \<and> xp_ExternalTransactionID p \<noteq> '''' \<and> xp_IdempotencyKey p \<noteq> '''' \<and>
     xp_PayloadHash p \<noteq> '''' \<and> xp_WalletID p \<noteq> uuid_Nil \<and> xp_PlayerID p \<noteq> uuid_Nil \<and>
     xp_RoundID p \<noteq> '''' \<and> xp_GameID p \<noteq> '''' \<and> xp_Kind p \<noteq> KindOpening \<and>
     amount_ok (xp_Kind p) (xp_Money p) \<and>
     (IsReversal (xp_Kind p) \<longrightarrow> xp_ReferenceExternalTransactionID p \<noteq> '''') \<and>
     (xp_ReferenceExternalTransactionID p \<noteq> '''' \<longrightarrow> IsReversal (xp_Kind p) \<or> xp_Kind p = KindWin) \<and>
     now \<noteq> 0 \<and>
     t = \<lparr>t_id = i, t_origin = OriginExternal, t_providerID = xp_ProviderID p,
          t_externalTransactionID = xp_ExternalTransactionID p,
          t_idempotencyKey = xp_IdempotencyKey p, t_payloadHash = xp_PayloadHash p,
          t_walletID = xp_WalletID p, t_playerID = xp_PlayerID p, t_roundID = xp_RoundID p,
          t_gameID = xp_GameID p, t_kind = xp_Kind p, t_amount = xp_Money p,
          t_referenceExternalTransactionID = xp_ReferenceExternalTransactionID p,
          t_referenceTransactionID = None, t_status = StatusPending, t_failureCode = '''',
          t_resultBalance = None, t_attempts = 0, t_nextAttemptAt = None,
          t_createdAt = now, t_updatedAt = now\<rparr>"
  by (simp add: NewExternal_def IsExternal_def RequiresReference_def IsReversal_def
      requiresOptionalReference_def time_IsZero_def and_then_Inr_iff validateAmountForKind_ok_iff
      eq_commute [of t] split: if_split)

lemma NewOpening_ok_iff:
  "NewOpening i p now = Inr t \<longleftrightarrow>
     op_WalletID p \<noteq> uuid_Nil \<and> op_PlayerID p \<noteq> uuid_Nil \<and>
     m_currency (op_Money p) \<noteq> '''' \<and> 0 < sint (m_amount (op_Money p)) \<and> now \<noteq> 0 \<and>
     t = \<lparr>t_id = i, t_origin = OriginInternal, t_providerID = '''', t_externalTransactionID = '''',
          t_idempotencyKey = '''', t_payloadHash = '''', t_walletID = op_WalletID p,
          t_playerID = op_PlayerID p, t_roundID = '''', t_gameID = '''', t_kind = KindOpening,
          t_amount = op_Money p, t_referenceExternalTransactionID = '''',
          t_referenceTransactionID = None, t_status = StatusProcessed, t_failureCode = '''',
          t_resultBalance = Some (op_Money p), t_attempts = 0, t_nextAttemptAt = None,
          t_createdAt = now, t_updatedAt = now\<rparr>"
  by (simp add: NewOpening_def time_IsZero_def money_defs eq_commute [of t] split: if_split)

lemma MarkPendingReference_ok_iff:
  "MarkPendingReference t now = Inr t' \<longleftrightarrow> t_status t = StatusPending \<and>
     t' = t\<lparr>t_status := StatusPendingReference, t_updatedAt := now\<rparr>"
  by (cases "t_status t")
    (auto simp: MarkPendingReference_def and_then_Inr_iff assertTransition_ok_iff allowed_transition_def)

lemma ScheduleRetry_ok_iff:
  "ScheduleRetry t nxt now = Inr t' \<longleftrightarrow>
     (t_status t = StatusPending \<or> t_status t = StatusPendingReference) \<and> nxt \<noteq> 0 \<and>
     t' = t\<lparr>t_attempts := t_attempts t + 1, t_nextAttemptAt := Some nxt, t_updatedAt := now\<rparr>"
  by (auto simp: ScheduleRetry_def time_IsZero_def)

lemma allowed_terminal:
  "allowed_transition s to \<and> status_IsTerminal to \<longleftrightarrow>
     (s = StatusPending \<or> s = StatusPendingReference) \<and> status_IsTerminal to"
  by (cases s) (auto simp: allowed_transition_def status_IsTerminal_def)

lemma MarkProcessed_ok_iff:
  "MarkProcessed t b now = Inr t' \<longleftrightarrow>
     (t_status t = StatusPending \<or> t_status t = StatusPendingReference) \<and> m_currency b \<noteq> '''' \<and>
     t' = t\<lparr>t_status := StatusProcessed, t_resultBalance := Some b, t_failureCode := '''',
            t_nextAttemptAt := None, t_updatedAt := now\<rparr>"
  using allowed_terminal [of "t_status t" StatusProcessed]
  by (auto simp: MarkProcessed_def and_then_Inr_iff assertTransition_ok_iff status_IsTerminal_def
      money_defs)

lemma MarkRejected_ok_iff:
  "MarkRejected t code b now = Inr t' \<longleftrightarrow>
     (t_status t = StatusPending \<or> t_status t = StatusPendingReference) \<and> code \<noteq> '''' \<and>
     t' = t\<lparr>t_status := StatusRejected, t_failureCode := code, t_resultBalance := b,
            t_nextAttemptAt := None, t_updatedAt := now\<rparr>"
  using allowed_terminal [of "t_status t" StatusRejected]
  by (auto simp: MarkRejected_def and_then_Inr_iff assertTransition_ok_iff status_IsTerminal_def)

lemma MarkFailed_ok_iff:
  "MarkFailed t code now = Inr t' \<longleftrightarrow>
     (t_status t = StatusPending \<or> t_status t = StatusPendingReference) \<and> code \<noteq> '''' \<and>
     t' = t\<lparr>t_status := StatusFailed, t_failureCode := code, t_nextAttemptAt := None,
            t_updatedAt := now\<rparr>"
  using allowed_terminal [of "t_status t" StatusFailed]
  by (auto simp: MarkFailed_def and_then_Inr_iff assertTransition_ok_iff status_IsTerminal_def)

named_theorems tx_ops

lemmas [tx_ops] = MarkPendingReference_ok_iff ScheduleRetry_ok_iff MarkProcessed_ok_iff
  MarkRejected_ok_iff MarkFailed_ok_iff

subsection \<open>Runs of an aggregate\<close>

text \<open>
  One step is one successful call of a mutating method, with any arguments and an instant
  that is not zero (a clock's reading).
\<close>

inductive tx_step :: "transaction \<Rightarrow> transaction \<Rightarrow> bool" where
  step_pending_reference: "MarkPendingReference t now = Inr t' \<Longrightarrow> now \<noteq> 0 \<Longrightarrow> tx_step t t'"
| step_retry: "ScheduleRetry t nxt now = Inr t' \<Longrightarrow> now \<noteq> 0 \<Longrightarrow> tx_step t t'"
| step_processed: "MarkProcessed t b now = Inr t' \<Longrightarrow> now \<noteq> 0 \<Longrightarrow> tx_step t t'"
| step_rejected: "MarkRejected t code br now = Inr t' \<Longrightarrow> now \<noteq> 0 \<Longrightarrow> tx_step t t'"
| step_failed: "MarkFailed t code now = Inr t' \<Longrightarrow> now \<noteq> 0 \<Longrightarrow> tx_step t t'"
| step_reference: "t' = SetReferenceResolution t ref now \<Longrightarrow> now \<noteq> 0 \<Longrightarrow> tx_step t t'"

inductive_cases tx_stepE: "tx_step t t'"

text \<open>
  The contract of a state machine with final states: a step follows the transition table, the
  table is transitive, nothing leaves a final state, and what a final state freezes stays.
\<close>

locale lifecycle =
  fixes step :: "'s \<Rightarrow> 's \<Rightarrow> bool"
    and state :: "'s \<Rightarrow> 'q"
    and moves :: "'q \<Rightarrow> 'q \<Rightarrow> bool"
    and final :: "'q \<Rightarrow> bool"
    and frozen :: "'s \<Rightarrow> 'r"
  assumes step_moves: "step s s' \<Longrightarrow> state s' = state s \<or> moves (state s) (state s')"
    and moves_trans: "moves a b \<Longrightarrow> moves b c \<Longrightarrow> moves a c"
    and final_stuck: "final a \<Longrightarrow> \<not> moves a b"
    and final_frozen: "step s s' \<Longrightarrow> final (state s) \<Longrightarrow> frozen s' = frozen s"
begin

lemma run_moves:
  "step\<^sup>*\<^sup>* s s' \<Longrightarrow> state s' = state s \<or> moves (state s) (state s')"
proof (induction rule: rtranclp_induct)
  case (step y z)
  then show ?case using step_moves [OF step(2)] moves_trans by metis
qed simp

lemma run_final: "step\<^sup>*\<^sup>* s s' \<Longrightarrow> final (state s) \<Longrightarrow> state s' = state s"
  using run_moves final_stuck by blast

lemma run_frozen: "step\<^sup>*\<^sup>* s s' \<Longrightarrow> final (state s) \<Longrightarrow> frozen s' = frozen s"
proof (induction rule: rtranclp_induct)
  case (step y z)
  then show ?case using final_frozen [OF step(2)] run_final [OF step(1)] by simp
qed simp

end

text \<open>What a terminal transaction freezes: everything but its resolved reference and the instant
  of the last change.\<close>

definition terminal_view :: "transaction \<Rightarrow> transaction" where
  "terminal_view t = t\<lparr>t_referenceTransactionID := None, t_updatedAt := 0\<rparr>"

definition tx_identity :: "transaction \<Rightarrow> transaction" where
  "tx_identity t = (terminal_view t)\<lparr>t_status := StatusPending, t_failureCode := '''',
     t_resultBalance := None, t_attempts := 0, t_nextAttemptAt := None\<rparr>"

lemma allowed_transition_trans:
  "allowed_transition a b \<Longrightarrow> allowed_transition b c \<Longrightarrow> allowed_transition a c"
  by (cases a; cases b) (auto simp: allowed_transition_def)

lemma allowed_transition_terminal: "status_IsTerminal a \<Longrightarrow> \<not> allowed_transition a b"
  by (auto simp: status_IsTerminal_def allowed_transition_def)

lemma tx_step_moves:
  "tx_step t t' \<Longrightarrow> t_status t' = t_status t \<or> allowed_transition (t_status t) (t_status t')"
  by (erule tx_stepE) (auto simp: tx_ops allowed_transition_def SetReferenceResolution_def)

lemma tx_step_frozen:
  "tx_step t t' \<Longrightarrow> status_IsTerminal (t_status t) \<Longrightarrow> terminal_view t' = terminal_view t"
  by (erule tx_stepE)
    (auto simp: tx_ops status_IsTerminal_def SetReferenceResolution_def terminal_view_def)

lemma tx_step_identity: "tx_step t t' \<Longrightarrow> tx_identity t' = tx_identity t"
  by (erule tx_stepE)
    (auto simp: tx_ops SetReferenceResolution_def terminal_view_def tx_identity_def)

interpretation tx_lifecycle: lifecycle tx_step t_status allowed_transition status_IsTerminal terminal_view
  by unfold_locales
    (auto simp: tx_step_moves tx_step_frozen allowed_transition_terminal
      intro: allowed_transition_trans)

lemma tx_run_identity: "tx_step\<^sup>*\<^sup>* t t' \<Longrightarrow> tx_identity t' = tx_identity t"
  by (induction rule: rtranclp_induct) (auto dest: tx_step_identity)

subsection \<open>The invariant of reachable aggregates\<close>

definition tx_inv :: "transaction \<Rightarrow> bool" where
  "tx_inv t \<longleftrightarrow>
     tx_Validate t = Inr () \<and> t_walletID t \<noteq> uuid_Nil \<and> t_playerID t \<noteq> uuid_Nil \<and>
     origin_known (t_origin t) \<and>
     (RequiresReference (t_kind t) \<longrightarrow> t_referenceExternalTransactionID t \<noteq> '''') \<and>
     t_createdAt t \<noteq> 0 \<and> t_updatedAt t \<noteq> 0 \<and> 0 \<le> sint (t_attempts t) \<and>
     (case t_status t of
        StatusPending \<Rightarrow> t_failureCode t = '''' \<and> t_resultBalance t = None
      | StatusPendingReference \<Rightarrow> t_failureCode t = '''' \<and> t_resultBalance t = None
      | StatusProcessed \<Rightarrow> t_failureCode t = '''' \<and> t_resultBalance t \<noteq> None \<and> t_nextAttemptAt t = None
      | StatusRejected \<Rightarrow> t_failureCode t \<noteq> '''' \<and> t_nextAttemptAt t = None
      | StatusFailed \<Rightarrow> t_failureCode t \<noteq> '''' \<and> t_nextAttemptAt t = None
      | StatusOther _ \<Rightarrow> False)"

lemma tx_Validate_ok_iff:
  "tx_Validate t = Inr u \<longleftrightarrow>
     t_id t \<noteq> uuid_Nil \<and> amount_ok (t_kind t) (t_amount t) \<and>
     (if t_origin t = OriginExternal
      then t_providerID t \<noteq> '''' \<and> t_externalTransactionID t \<noteq> '''' \<and> t_idempotencyKey t \<noteq> '''' \<and>
        t_payloadHash t \<noteq> '''' \<and> t_roundID t \<noteq> '''' \<and> t_gameID t \<noteq> '''' \<and> t_kind t \<noteq> KindOpening
      else t_kind t = KindOpening)"
  by (auto simp: tx_Validate_def validateAmountForKind_ok_iff)

lemma tx_Validate_update [simp]:
  "tx_Validate (t\<lparr>t_status := s\<rparr>) = tx_Validate t"
  "tx_Validate (t\<lparr>t_failureCode := c\<rparr>) = tx_Validate t"
  "tx_Validate (t\<lparr>t_resultBalance := b\<rparr>) = tx_Validate t"
  "tx_Validate (t\<lparr>t_attempts := n\<rparr>) = tx_Validate t"
  "tx_Validate (t\<lparr>t_nextAttemptAt := x\<rparr>) = tx_Validate t"
  "tx_Validate (t\<lparr>t_referenceTransactionID := r\<rparr>) = tx_Validate t"
  "tx_Validate (t\<lparr>t_updatedAt := u\<rparr>) = tx_Validate t"
  by (simp_all add: tx_Validate_def)

lemma tx_Rehydrate_ok_iff:
  "tx_Rehydrate p = Inr t \<longleftrightarrow>
     t = p \<and> t_id p \<noteq> uuid_Nil \<and> t_walletID p \<noteq> uuid_Nil \<and> t_playerID p \<noteq> uuid_Nil \<and>
     m_currency (t_amount p) \<noteq> '''' \<and> 0 \<le> sint (t_attempts p) \<and>
     (t_status p = StatusProcessed \<and> t_kind p \<noteq> KindLoss \<longrightarrow> t_resultBalance p \<noteq> None) \<and>
     (t_status p = StatusRejected \<or> t_status p = StatusFailed \<longrightarrow> t_failureCode p \<noteq> '''') \<and>
     t_createdAt p \<noteq> 0 \<and> t_updatedAt p \<noteq> 0"
  by (auto simp: tx_Rehydrate_def money_defs time_IsZero_def status_IsTerminal_def)

lemma tx_inv_Rehydrate: "tx_inv t \<Longrightarrow> tx_Rehydrate t = Inr t"
  by (cases "t_status t") (auto simp: tx_inv_def tx_Rehydrate_ok_iff tx_Validate_ok_iff amount_ok_def)

lemma NewExternal_inv: "NewExternal i p now = Inr t \<Longrightarrow> i \<noteq> uuid_Nil \<Longrightarrow> tx_inv t"
  by (auto simp: NewExternal_ok_iff tx_inv_def tx_Validate_ok_iff IsReversal_def RequiresReference_def
      origin_known_def)

lemma NewOpening_inv: "NewOpening i p now = Inr t \<Longrightarrow> i \<noteq> uuid_Nil \<Longrightarrow> tx_inv t"
  by (auto simp: NewOpening_ok_iff tx_inv_def tx_Validate_ok_iff amount_ok_def RequiresReference_def
      origin_known_def)

lemma tx_step_inv:
  assumes "tx_step t t'" and "tx_inv t" and "sint (t_attempts t) < 9223372036854775807"
  shows "tx_inv t'"
proof -
  have "sint (t_attempts t + 1) = sint (t_attempts t) + 1"
    using assms(2,3) by (subst sint_add_exact) (simp_all add: in_int64_def tx_inv_def)
  then have nonneg: "0 \<le> sint (t_attempts t + 1)"
    using assms(2) by (simp add: tx_inv_def)
  show ?thesis
    using assms(1)
  proof (cases rule: tx_step.cases)
    case (step_pending_reference now)
    then show ?thesis using assms(2) by (simp add: tx_ops tx_inv_def)
  next
    case (step_retry nxt now)
    then show ?thesis using assms(2) nonneg by (auto simp: tx_ops tx_inv_def)
  next
    case (step_processed b now)
    then show ?thesis using assms(2) by (simp add: tx_ops tx_inv_def)
  next
    case (step_rejected code br now)
    then show ?thesis using assms(2) by (simp add: tx_ops tx_inv_def)
  next
    case (step_failed code now)
    then show ?thesis using assms(2) by (simp add: tx_ops tx_inv_def)
  next
    case (step_reference ref now)
    then show ?thesis using assms(2)
      by (cases "t_status t") (simp_all add: SetReferenceResolution_def tx_inv_def)
  qed
qed

lemma tx_step_attempts:
  assumes "tx_step t t'" and "0 \<le> sint (t_attempts t)"
    and "sint (t_attempts t) < 9223372036854775807"
  shows "0 \<le> sint (t_attempts t') \<and> sint (t_attempts t') \<le> sint (t_attempts t) + 1"
proof -
  have "sint (t_attempts t + 1) = sint (t_attempts t) + 1"
    using assms(2,3) by (subst sint_add_exact) (simp_all add: in_int64_def)
  with assms(1,2) show ?thesis
    by (cases rule: tx_stepE) (auto simp: tx_ops SetReferenceResolution_def)
qed

lemma tx_run_inv:
  assumes "(tx_step ^^ n) t t'" and "tx_inv t"
    and "sint (t_attempts t) + int n \<le> 9223372036854775807"
  shows "tx_inv t' \<and> sint (t_attempts t') \<le> sint (t_attempts t) + int n"
  using assms(1,3)
proof (induction n arbitrary: t')
  case 0
  then show ?case using assms(2) by simp
next
  case (Suc n)
  then obtain u where u: "(tx_step ^^ n) t u" and step: "tx_step u t'" by auto
  from Suc.IH [OF u] Suc.prems(2) have inv: "tx_inv u"
    and le: "sint (t_attempts u) \<le> sint (t_attempts t) + int n" by auto
  with Suc.prems(2) have "sint (t_attempts u) < 9223372036854775807" by simp
  then show ?case
    using tx_step_inv [OF step inv] tx_step_attempts [OF step] inv le by (simp add: tx_inv_def)
qed

subsection \<open>A sample transaction for the witnesses\<close>

definition sample_params :: ExternalParams where
  "sample_params = \<lparr>xp_ProviderID = ''p'', xp_ExternalTransactionID = ''x'',
     xp_IdempotencyKey = ''k'', xp_PayloadHash = ''h'', xp_WalletID = 1, xp_PlayerID = 2,
     xp_RoundID = ''r'', xp_GameID = ''g'', xp_Kind = KindRefund,
     xp_Money = \<lparr>m_amount = 8000, m_currency = ''BRL''\<rparr>,
     xp_ReferenceExternalTransactionID = ''y''\<rparr>"

definition sample_tx :: transaction where
  "sample_tx = \<lparr>t_id = 3, t_origin = OriginExternal, t_providerID = ''p'',
     t_externalTransactionID = ''x'', t_idempotencyKey = ''k'', t_payloadHash = ''h'',
     t_walletID = 1, t_playerID = 2, t_roundID = ''r'', t_gameID = ''g'', t_kind = KindRefund,
     t_amount = \<lparr>m_amount = 8000, m_currency = ''BRL''\<rparr>,
     t_referenceExternalTransactionID = ''y'', t_referenceTransactionID = None,
     t_status = StatusPending, t_failureCode = '''', t_resultBalance = None, t_attempts = 0,
     t_nextAttemptAt = None, t_createdAt = 5, t_updatedAt = 5\<rparr>"

lemma sample_NewExternal: "NewExternal 3 sample_params 5 = Inr sample_tx"
  by (simp add: NewExternal_ok_iff sample_params_def sample_tx_def IsReversal_def amount_ok_def
      uuid_Nil_def)

definition sample_pending :: transaction where
  "sample_pending = sample_tx\<lparr>t_status := StatusPendingReference, t_updatedAt := 6\<rparr>"

definition sample_retry :: transaction where
  "sample_retry = sample_pending\<lparr>t_attempts := 1, t_nextAttemptAt := Some 9, t_updatedAt := 6\<rparr>"

definition sample_rejected :: transaction where
  "sample_rejected = sample_retry\<lparr>t_status := StatusRejected, t_failureCode := ''REFERENCE_NOT_FOUND'',
     t_nextAttemptAt := None, t_updatedAt := 10\<rparr>"

definition sample_resolved :: transaction where
  "sample_resolved = sample_rejected\<lparr>t_referenceTransactionID := Some 4, t_updatedAt := 11\<rparr>"

lemma sample_steps:
  "tx_step sample_tx sample_pending" "tx_step sample_pending sample_retry"
  "tx_step sample_retry sample_rejected" "tx_step sample_rejected sample_resolved"
proof -
  show "tx_step sample_tx sample_pending"
    by (rule step_pending_reference [where now = 6]) (simp_all add: tx_ops sample_pending_def sample_tx_def)
  show "tx_step sample_pending sample_retry"
    by (rule step_retry [where nxt = 9 and now = 6])
      (simp_all add: tx_ops sample_pending_def sample_retry_def sample_tx_def)
  show "tx_step sample_retry sample_rejected"
    by (rule step_rejected [where code = "''REFERENCE_NOT_FOUND''" and br = None and now = 10])
      (simp_all add: tx_ops sample_rejected_def sample_pending_def sample_retry_def sample_tx_def)
  show "tx_step sample_rejected sample_resolved"
    by (rule step_reference [where ref = 4 and now = 11])
      (simp_all add: SetReferenceResolution_def sample_resolved_def)
qed

lemma sample_run:
  "tx_step\<^sup>*\<^sup>* sample_pending sample_rejected" "tx_step\<^sup>*\<^sup>* sample_rejected sample_resolved"
  "(tx_step ^^ 4) sample_tx sample_resolved"
proof -
  show "tx_step\<^sup>*\<^sup>* sample_pending sample_rejected"
    using sample_steps(2,3) by (meson rtranclp.rtrancl_into_rtrancl rtranclp.rtrancl_refl)
  show "tx_step\<^sup>*\<^sup>* sample_rejected sample_resolved" using sample_steps(4) by blast
  have "(tx_step ^^ Suc (Suc (Suc (Suc 0)))) sample_tx sample_resolved"
    by (rule relpowp_Suc_I [OF relpowp_Suc_I [OF relpowp_Suc_I [OF relpowp_Suc_I [OF relpowp_0_I]]]])
      (rule sample_steps)+
  then show "(tx_step ^^ 4) sample_tx sample_resolved" by (simp only: numeral_eq_Suc pred_numeral_simps Suc_1 One_nat_def BitM.simps)
qed

lemma sample_status [simp]:
  "t_status sample_tx = StatusPending" "t_status sample_pending = StatusPendingReference"
  "t_status sample_rejected = StatusRejected"
  by (simp_all add: sample_tx_def sample_pending_def sample_rejected_def)

subsection \<open>Properties\<close>

text \<open>
  (C23) A terminal transaction is final: whatever methods are called on it afterwards, and in
  whatever order, those that succeed leave its status, failure code, result balance, attempt
  counter, retry instant and identity fields as they were; only the resolved reference and the
  instant of the last change can still be written.
\<close>

theorem terminal_transaction_final:
  assumes "tx_step\<^sup>*\<^sup>* t t'" and "tx_IsTerminal t"
  shows "t' = t\<lparr>t_referenceTransactionID := t_referenceTransactionID t', t_updatedAt := t_updatedAt t'\<rparr>"
proof -
  have "terminal_view t' = terminal_view t"
    using assms by (intro tx_lifecycle.run_frozen) (simp_all add: tx_IsTerminal_def)
  then show ?thesis by (cases t; cases t') (simp add: terminal_view_def)
qed

theorem terminal_transaction_final_witness:
  "sample_resolved = sample_rejected\<lparr>t_referenceTransactionID := t_referenceTransactionID sample_resolved,
     t_updatedAt := t_updatedAt sample_resolved\<rparr>"
  by (rule terminal_transaction_final [OF sample_run(2)])
    (simp add: tx_IsTerminal_def status_IsTerminal_def)

text \<open>
  The life cycle only moves forward: over any run of successful method calls the status
  either stays or makes a transition of the table, so a run never returns to \<open>PENDING\<close> and
  never leaves a terminal status; and no call changes who made the operation, its kind, its
  amount or its idempotency data.
\<close>

theorem transaction_runs_forward:
  assumes "tx_step\<^sup>*\<^sup>* t t'"
  shows "(t_status t' = t_status t \<or> allowed_transition (t_status t) (t_status t')) \<and>
     tx_identity t' = tx_identity t"
  using tx_lifecycle.run_moves [OF assms] tx_run_identity [OF assms] by blast

theorem transaction_runs_forward_witness:
  "allowed_transition (t_status sample_pending) (t_status sample_rejected)"
  using transaction_runs_forward [OF sample_run(1)] by simp

text \<open>
  (C22) What a provider's operation becomes can always be stored and read back: from the
  transaction that \<open>NewExternal\<close> returns, every sequence of fewer than \<open>2^63\<close> successful
  method calls leads to a state that \<open>Validate\<close> accepts, that \<open>Rehydrate\<close> accepts and returns
  unchanged, whose status is one of the five declared, that has a result balance when it is
  \<open>PROCESSED\<close> and a failure code exactly when it is \<open>REJECTED\<close> or \<open>FAILED\<close>.
\<close>

theorem external_runs_rehydrate:
  assumes "NewExternal i p now = Inr t0" and "i \<noteq> uuid_Nil"
    and "(tx_step ^^ n) t0 t" and "int n < 9223372036854775808"
  shows "tx_Validate t = Inr () \<and> tx_Rehydrate t = Inr t \<and> (\<forall>s. t_status t \<noteq> StatusOther s) \<and>
     (t_status t = StatusProcessed \<longrightarrow> t_resultBalance t \<noteq> None) \<and>
     (t_failureCode t \<noteq> '''' \<longleftrightarrow> t_status t = StatusRejected \<or> t_status t = StatusFailed)"
proof -
  have "tx_inv t"
    using tx_run_inv [OF assms(3) NewExternal_inv [OF assms(1,2)]] assms(1,4)
    by (simp add: NewExternal_ok_iff)
  then show ?thesis
    using tx_inv_Rehydrate by (cases "t_status t") (simp_all add: tx_inv_def)
qed

theorem external_runs_rehydrate_witness:
  "tx_Rehydrate sample_resolved = Inr sample_resolved"
  using external_runs_rehydrate [OF sample_NewExternal _ sample_run(3)] by (simp add: uuid_Nil_def)

end
