(* ===== verification/Json.thy ===== *)
theory Json
  imports Strconv
begin

section \<open>JSON (encoding/json)\<close>

text \<open>
  What the sources use of \<open>encoding/json\<close>: the encoding of strings and objects, the scanner,
  and the decoding of a value into the fields of a struct. A text is a list of bytes; the
  scanner reads it one byte at a time with a stack of the open arrays and objects, as Go's
  does, so it needs no bound on its steps. A value keeps its strings and numbers as they are
  written; a string is unquoted when a field wants it.
\<close>

subsection \<open>Encoding strings and objects\<close>

definition byte :: "char \<Rightarrow> nat" where
  "byte c = of_char c"

definition hex_digit :: "nat \<Rightarrow> char" where
  "hex_digit n = (if n < 10 then char_of (48 + n) else char_of (87 + n))"

definition is_continuation :: "nat \<Rightarrow> nat \<Rightarrow> char list \<Rightarrow> bool" where
  "is_continuation lo hi cs = (case cs of [] \<Rightarrow> False | c # _ \<Rightarrow> lo \<le> byte c \<and> byte c \<le> hi)"

text \<open>
  How many bytes after the first one the UTF-8 sequence at the head of the string has, \<open>None\<close>
  when it is not valid (\<open>utf8.DecodeRuneInString\<close> returns \<open>RuneError\<close> and width 1).
\<close>

definition utf8_tail :: "char \<Rightarrow> char list \<Rightarrow> nat option" where
  "utf8_tail c cs =
     (let b = byte c in
      if b < 128 then Some 0
      else if 194 \<le> b \<and> b \<le> 223 \<and> is_continuation 128 191 cs then Some 1
      else if 224 \<le> b \<and> b \<le> 239 \<and>
        is_continuation (if b = 224 then 160 else 128) (if b = 237 then 159 else 191) cs \<and>
        is_continuation 128 191 (drop 1 cs) then Some 2
      else if 240 \<le> b \<and> b \<le> 244 \<and>
        is_continuation (if b = 240 then 144 else 128) (if b = 244 then 143 else 191) cs \<and>
        is_continuation 128 191 (drop 1 cs) \<and> is_continuation 128 191 (drop 2 cs) then Some 3
      else None)"

text \<open>The escape of an ASCII byte.\<close>

definition json_ascii :: "char \<Rightarrow> string" where
  "json_ascii c =
     (if c = CHR 0x5C \<or> c = CHR 0x22 then [CHR 0x5C, c]
      else if c = CHR 0x08 then [CHR 0x5C, CHR ''b'']
      else if c = CHR 0x0C then [CHR 0x5C, CHR ''f'']
      else if c = CHR 0x0A then [CHR 0x5C, CHR ''n'']
      else if c = CHR 0x0D then [CHR 0x5C, CHR ''r'']
      else if c = CHR 0x09 then [CHR 0x5C, CHR ''t'']
      else if byte c < 32 \<or> c = CHR ''<'' \<or> c = CHR ''>'' \<or> c = CHR ''&''
      then [CHR 0x5C, CHR ''u'', CHR ''0'', CHR ''0'', hex_digit (byte c div 16), hex_digit (byte c mod 16)]
      else [c])"

definition json_separators :: "string list" where
  "json_separators = [[CHR 0xE2, CHR 0x80, CHR 0xA8], [CHR 0xE2, CHR 0x80, CHR 0xA9]]"

fun json_chars :: "string \<Rightarrow> string" where
  "json_chars [] = []"
| "json_chars (c # cs) =
     (case utf8_tail c cs of
        None \<Rightarrow> [CHR 0x5C] @ ''ufffd'' @ json_chars cs
      | Some n \<Rightarrow>
          (if n = 0 then json_ascii c @ json_chars cs
           else
             (let rune = c # take n cs in
              (if rune = json_separators ! 0 then [CHR 0x5C] @ ''u2028''
               else if rune = json_separators ! 1 then [CHR 0x5C] @ ''u2029''
               else rune) @ json_chars (drop n cs))))"

definition json_string :: "string \<Rightarrow> string" where
  "json_string s = [CHR 0x22] @ json_chars s @ [CHR 0x22]"

text \<open>An object whose members are given in the order of their keys.\<close>

fun json_members :: "(string \<times> string) list \<Rightarrow> string" where
  "json_members [] = []"
| "json_members [(k, v)] = json_string k @ '':'' @ v"
| "json_members ((k, v) # ms) = json_string k @ '':'' @ v @ '','' @ json_members ms"

definition json_object :: "(string \<times> string) list \<Rightarrow> string" where
  "json_object ms = ''{'' @ json_members ms @ ''}''"

subsection \<open>The scanner\<close>

datatype json =
    JNull
  | JBool bool
  | JNumber string
  | JString string
  | JArray "json list"
  | JObject "(string \<times> json) list"

datatype num_state = NumNeg | NumZero | NumInt | NumDot | NumFrac | NumE | NumESign | NumExp

text \<open>An open array, or an open object with the key read last.\<close>

datatype json_frame = ArrayFrame "json list" | ObjectFrame "(string \<times> json) list" string

datatype json_mode =
    BeginValue
  | BeginValueOrEnd
  | BeginKey
  | BeginKeyOrEnd
  | AfterKey
  | InString bool string
  | InEscape bool string
  | InUnicode bool nat string
  | InNumber num_state string
  | InLiteral string json
  | EndValue
  | EndTop json

type_synonym json_state = "json_mode \<times> json_frame list"

definition json_space :: "char \<Rightarrow> bool" where
  "json_space c \<longleftrightarrow> c = CHR '' '' \<or> c = CHR 0x09 \<or> c = CHR 0x0A \<or> c = CHR 0x0D"

definition hex_value :: "char \<Rightarrow> nat option" where
  "hex_value c =
     (if is_digit c then Some (digit_val c)
      else if 97 \<le> byte c \<and> byte c \<le> 102 then Some (byte c - 87)
      else if 65 \<le> byte c \<and> byte c \<le> 70 then Some (byte c - 55)
      else None)"

text \<open>The end of a value: it joins the array or the object that is open.\<close>

fun json_complete :: "json \<Rightarrow> json_frame list \<Rightarrow> json_state" where
  "json_complete v [] = (EndTop v, [])"
| "json_complete v (ArrayFrame vs # st) = (EndValue, ArrayFrame (vs @ [v]) # st)"
| "json_complete v (ObjectFrame ms k # st) = (EndValue, ObjectFrame (ms @ [(k, v)]) k # st)"

text \<open>\<open>maxNestingDepth\<close> is 10000.\<close>

definition json_push :: "json_frame \<Rightarrow> json_mode \<Rightarrow> json_frame list \<Rightarrow> json_state option" where
  "json_push f m st = (if length st < 10000 then Some (m, f # st) else None)"

definition step_begin :: "json_frame list \<Rightarrow> char \<Rightarrow> json_state option" where
  "step_begin st c =
     (if json_space c then Some (BeginValue, st)
      else if c = CHR ''{'' then json_push (ObjectFrame [] '''') BeginKeyOrEnd st
      else if c = CHR ''['' then json_push (ArrayFrame []) BeginValueOrEnd st
      else if c = CHR 0x22 then Some (InString False '''', st)
      else if c = CHR ''-'' then Some (InNumber NumNeg [c], st)
      else if c = CHR ''0'' then Some (InNumber NumZero [c], st)
      else if c = CHR ''t'' then Some (InLiteral ''rue'' (JBool True), st)
      else if c = CHR ''f'' then Some (InLiteral ''alse'' (JBool False), st)
      else if c = CHR ''n'' then Some (InLiteral ''ull'' JNull, st)
      else if is_digit c then Some (InNumber NumInt [c], st)
      else None)"

definition step_end :: "json_mode \<Rightarrow> json_frame list \<Rightarrow> char \<Rightarrow> json_state option" where
  "step_end m st c =
     (if json_space c then Some (m, st)
      else case st of
        [] \<Rightarrow> None
      | ArrayFrame vs # st' \<Rightarrow>
          if c = CHR '','' then Some (BeginValue, st)
          else if c = CHR '']'' then Some (json_complete (JArray vs) st')
          else None
      | ObjectFrame ms k # st' \<Rightarrow>
          if c = CHR '','' then Some (BeginKey, st)
          else if c = CHR ''}'' then Some (json_complete (JObject ms) st')
          else None)"

definition num_step :: "num_state \<Rightarrow> char \<Rightarrow> num_state option" where
  "num_step n c =
     (let e = (c = CHR ''e'' \<or> c = CHR ''E'') in
      case n of
        NumNeg \<Rightarrow> if c = CHR ''0'' then Some NumZero else if is_digit c then Some NumInt else None
      | NumZero \<Rightarrow> if c = CHR ''.'' then Some NumDot else if e then Some NumE else None
      | NumInt \<Rightarrow> if is_digit c then Some NumInt else if c = CHR ''.'' then Some NumDot
                  else if e then Some NumE else None
      | NumDot \<Rightarrow> if is_digit c then Some NumFrac else None
      | NumFrac \<Rightarrow> if is_digit c then Some NumFrac else if e then Some NumE else None
      | NumE \<Rightarrow> if c = CHR ''+'' \<or> c = CHR ''-'' then Some NumESign
                else if is_digit c then Some NumExp else None
      | NumESign \<Rightarrow> if is_digit c then Some NumExp else None
      | NumExp \<Rightarrow> if is_digit c then Some NumExp else None)"

definition num_accepts :: "num_state \<Rightarrow> bool" where
  "num_accepts n \<longleftrightarrow> n \<in> {NumZero, NumInt, NumFrac, NumExp}"

text \<open>A finished string is a value, or the key of the open object.\<close>

fun finish_string :: "bool \<Rightarrow> string \<Rightarrow> json_frame list \<Rightarrow> json_state option" where
  "finish_string False s st = Some (json_complete (JString s) st)"
| "finish_string True s (ObjectFrame ms k # st) = Some (AfterKey, ObjectFrame ms s # st)"
| "finish_string True s st = None"

fun json_step :: "json_state \<Rightarrow> char \<Rightarrow> json_state option" where
  "json_step (BeginValue, st) c = step_begin st c"
| "json_step (BeginValueOrEnd, st) c =
     (if json_space c then Some (BeginValueOrEnd, st)
      else if c = CHR '']'' then step_end EndValue st c
      else step_begin st c)"
| "json_step (BeginKey, st) c =
     (if json_space c then Some (BeginKey, st)
      else if c = CHR 0x22 then Some (InString True '''', st)
      else None)"
| "json_step (BeginKeyOrEnd, st) c =
     (if json_space c then Some (BeginKeyOrEnd, st)
      else if c = CHR ''}'' then step_end EndValue st c
      else if c = CHR 0x22 then Some (InString True '''', st)
      else None)"
| "json_step (AfterKey, st) c =
     (if json_space c then Some (AfterKey, st)
      else if c = CHR '':'' then Some (BeginValue, st)
      else None)"
| "json_step (InString key acc, st) c =
     (if c = CHR 0x22 then finish_string key acc st
      else if c = CHR 0x5C then Some (InEscape key (acc @ [c]), st)
      else if byte c < 32 then None
      else Some (InString key (acc @ [c]), st))"
| "json_step (InEscape key acc, st) c =
     (if c \<in> {CHR ''b'', CHR ''f'', CHR ''n'', CHR ''r'', CHR ''t'', CHR 0x5C, CHR ''/'', CHR 0x22}
      then Some (InString key (acc @ [c]), st)
      else if c = CHR ''u'' then Some (InUnicode key 3 (acc @ [c]), st)
      else None)"
| "json_step (InUnicode key n acc, st) c =
     (if hex_value c = None then None
      else Some (case n of 0 \<Rightarrow> InString key (acc @ [c]) | Suc m \<Rightarrow> InUnicode key m (acc @ [c]), st))"
| "json_step (InNumber n acc, st) c =
     (case num_step n c of
        Some n' \<Rightarrow> Some (InNumber n' (acc @ [c]), st)
      | None \<Rightarrow>
          if num_accepts n then (case json_complete (JNumber acc) st of (m, st') \<Rightarrow> step_end m st' c)
          else None)"
| "json_step (InLiteral [] v, st) c = None"
| "json_step (InLiteral (x # xs) v, st) c =
     (if c \<noteq> x then None
      else Some (if xs = [] then json_complete v st else (InLiteral xs v, st)))"
| "json_step (EndValue, st) c = step_end EndValue st c"
| "json_step (EndTop v, st) c = (if json_space c then Some (EndTop v, st) else None)"

fun json_run :: "json_state \<Rightarrow> string \<Rightarrow> json_state option" where
  "json_run s [] = Some s"
| "json_run s (c # cs) = (case json_step s c of None \<Rightarrow> None | Some s' \<Rightarrow> json_run s' cs)"

text \<open>
  A whole text: the scanner is told of its end by a space, which ends a number.
\<close>

definition json_parse :: "string \<Rightarrow> json option" where
  "json_parse s =
     (case json_run (BeginValue, []) (s @ '' '') of
        Some (EndTop v, st) \<Rightarrow> Some v
      | _ \<Rightarrow> None)"

text \<open>The first value of a stream and what follows it.\<close>

fun json_first :: "json_state \<Rightarrow> string \<Rightarrow> (json \<times> string) option" where
  "json_first (EndTop v, st) s = Some (v, s)"
| "json_first s [] = None"
| "json_first s (c # cs) = (case json_step s c of None \<Rightarrow> None | Some s' \<Rightarrow> json_first s' cs)"

subsection \<open>Unquoting\<close>

definition utf8_encode :: "nat \<Rightarrow> string" where
  "utf8_encode r =
     (if r < 128 then [char_of r]
      else if r < 2048 then [char_of (192 + r div 64), char_of (128 + r mod 64)]
      else if r < 65536
      then [char_of (224 + r div 4096), char_of (128 + r div 64 mod 64), char_of (128 + r mod 64)]
      else [char_of (240 + r div 262144), char_of (128 + r div 4096 mod 64),
        char_of (128 + r div 64 mod 64), char_of (128 + r mod 64)])"

definition getu4 :: "string \<Rightarrow> nat" where
  "getu4 s = foldl (\<lambda>v c. 16 * v + (case hex_value c of Some d \<Rightarrow> d | None \<Rightarrow> 0)) 0 (take 4 s)"

text \<open>The low surrogate of a pair, when the text goes on with its escape.\<close>

definition low_surrogate :: "string \<Rightarrow> nat option" where
  "low_surrogate s =
     (if take 2 s = [CHR 0x5C, CHR ''u''] \<and> 56320 \<le> getu4 (drop 2 s) \<and> getu4 (drop 2 s) < 57344
      then Some (getu4 (drop 2 s)) else None)"

definition unescape :: "char \<Rightarrow> char" where
  "unescape c =
     (if c = CHR ''b'' then CHR 0x08 else if c = CHR ''f'' then CHR 0x0C
      else if c = CHR ''n'' then CHR 0x0A else if c = CHR ''r'' then CHR 0x0D
      else if c = CHR ''t'' then CHR 0x09 else c)"

definition replacement :: string where
  "replacement = [CHR 0xEF, CHR 0xBF, CHR 0xBD]"

fun json_unquote :: "string \<Rightarrow> string" where
  "json_unquote [] = []"
| "json_unquote (c # cs) =
     (if c = CHR 0x5C then
        (case cs of
           [] \<Rightarrow> []
         | e # es \<Rightarrow>
             if e \<noteq> CHR ''u'' then unescape e # json_unquote es
             else
               (let r = getu4 es; es' = drop 4 es in
                if r < 55296 \<or> 57344 \<le> r then utf8_encode r @ json_unquote es'
                else
                  (case (if r < 56320 then low_surrogate es' else None) of
                     Some r1 \<Rightarrow> utf8_encode (65536 + (r - 55296) * 1024 + (r1 - 56320)) @
                       json_unquote (drop 6 es')
                   | None \<Rightarrow> replacement @ json_unquote es')))
      else
        (case utf8_tail c cs of
           None \<Rightarrow> replacement @ json_unquote cs
         | Some n \<Rightarrow> c # take n cs @ json_unquote (drop n cs)))"

declare json_unquote.simps [simp del]

subsection \<open>Decoding into a struct\<close>

text \<open>
  Keys are compared up to case folding; besides the ASCII letters, the long s and the Kelvin
  sign fold to ASCII.
\<close>

fun json_fold :: "string \<Rightarrow> string" where
  "json_fold [] = []"
| "json_fold (c # cs) =
     (if 97 \<le> byte c \<and> byte c \<le> 122 then char_of (byte c - 32) # json_fold cs
      else if c = CHR 0xC5 \<and> take 1 cs = [CHR 0xBF] then CHR ''S'' # json_fold (drop 1 cs)
      else if c = CHR 0xE2 \<and> take 2 cs = [CHR 0x84, CHR 0xAA] then CHR ''K'' # json_fold (drop 2 cs)
      else c # json_fold cs)"

type_synonym 'a fields = "(string \<times> (json \<Rightarrow> 'a \<Rightarrow> 'a option)) list"

definition find_field :: "'a fields \<Rightarrow> string \<Rightarrow> (json \<Rightarrow> 'a \<Rightarrow> 'a option) option" where
  "find_field fs k = map_option snd (find (\<lambda>(n, _). json_fold n = json_fold (json_unquote k)) fs)"

text \<open>
  The members in their order, later ones over earlier ones; an unknown member is skipped, or
  refused under \<open>DisallowUnknownFields\<close>. \<open>None\<close> stands for the error, whichever it is.
\<close>

fun decode_members :: "bool \<Rightarrow> 'a fields \<Rightarrow> (string \<times> json) list \<Rightarrow> 'a \<Rightarrow> 'a option" where
  "decode_members strict fs [] a = Some a"
| "decode_members strict fs ((k, v) # ms) a =
     (case find_field fs k of
        None \<Rightarrow> if strict then None else decode_members strict fs ms a
      | Some f \<Rightarrow> (case f v a of None \<Rightarrow> None | Some a' \<Rightarrow> decode_members strict fs ms a'))"

definition decode_struct :: "bool \<Rightarrow> 'a fields \<Rightarrow> json \<Rightarrow> 'a \<Rightarrow> 'a option" where
  "decode_struct strict fs v a =
     (case v of JNull \<Rightarrow> Some a | JObject ms \<Rightarrow> decode_members strict fs ms a | _ \<Rightarrow> None)"

lemma decode_struct_simps [simp]:
  "decode_struct strict fs JNull a = Some a"
  "decode_struct strict fs (JObject ms) a = decode_members strict fs ms a"
  by (simp_all add: decode_struct_def)

text \<open>A field of type \<open>string\<close>, which \<open>null\<close> leaves alone, and one of type \<open>*string\<close>.\<close>

definition decode_string :: "(string \<Rightarrow> 'a \<Rightarrow> 'a) \<Rightarrow> json \<Rightarrow> 'a \<Rightarrow> 'a option" where
  "decode_string put v a =
     (case v of JNull \<Rightarrow> Some a | JString s \<Rightarrow> Some (put (json_unquote s) a) | _ \<Rightarrow> None)"

definition decode_pstring :: "(string option \<Rightarrow> 'a \<Rightarrow> 'a) \<Rightarrow> json \<Rightarrow> 'a \<Rightarrow> 'a option" where
  "decode_pstring put v a =
     (case v of JNull \<Rightarrow> Some (put None a) | JString s \<Rightarrow> Some (put (Some (json_unquote s)) a)
      | _ \<Rightarrow> None)"

subsection \<open>What is encoded is read back\<close>

text \<open>A text that is UTF-8 throughout.\<close>

fun valid_utf8 :: "string \<Rightarrow> bool" where
  "valid_utf8 [] = True"
| "valid_utf8 (c # cs) = (case utf8_tail c cs of None \<Rightarrow> False | Some n \<Rightarrow> valid_utf8 (drop n cs))"

declare valid_utf8.simps [simp del]

lemma byte_eq_iff: "byte c = byte d \<longleftrightarrow> c = d"
  by (simp add: byte_def)

lemma byte_char_of: "n < 256 \<Longrightarrow> byte (char_of n) = n"
  by (simp add: byte_def)

lemma is_continuation_take: "is_continuation lo hi (take n cs @ t) \<longleftrightarrow> is_continuation lo hi cs"
  if "0 < n" "n \<le> length cs"
  using that by (cases cs; cases n) (auto simp: is_continuation_def)

lemma is_continuation_nonempty: "is_continuation lo hi cs \<Longrightarrow> cs \<noteq> []"
  by (auto simp: is_continuation_def)

lemma utf8_tail_length: "utf8_tail c cs = Some n \<Longrightarrow> n \<le> length cs"
  by (auto simp: utf8_tail_def Let_def dest!: is_continuation_nonempty split: if_splits)
    (metis Suc_leI drop_all length_greater_0_conv less_numeral_extra(3) not_less_eq_eq numeral_2_eq_2 numeral_3_eq_3)+

lemma drop_take_append: "m \<le> n \<Longrightarrow> n \<le> length cs \<Longrightarrow> drop m (take n cs @ t) = take (n - m) (drop m cs) @ t"
  by (simp add: drop_take)

lemma utf8_tail_take:
  assumes "utf8_tail c cs = Some n"
  shows "utf8_tail c (take n cs @ t) = Some n"
proof -
  note len = utf8_tail_length [OF assms]
  have c1: "is_continuation lo hi (take n cs @ t) = is_continuation lo hi cs" if "0 < n" for lo hi
    using that len by (intro is_continuation_take) auto
  have cm: "is_continuation lo hi (drop m (take n cs @ t)) = is_continuation lo hi (drop m cs)"
    if "m < n" for lo hi m
    using that len by (subst drop_take_append) (auto intro!: is_continuation_take)
  show ?thesis
    using assms c1 cm [of 1] cm [of 2]
    by (auto simp: utf8_tail_def Let_def split: if_splits)
qed

lemma utf8_tail_zero: "utf8_tail c cs = Some 0 \<longleftrightarrow> byte c < 128"
  by (auto simp: utf8_tail_def Let_def)

lemma utf8_tail_high:
  assumes "utf8_tail c cs = Some n" and "0 < n"
  shows "\<forall>d \<in> set (c # take n cs). 128 \<le> byte d"
proof -
  have cont: "128 \<le> byte d" if "is_continuation lo hi (d # ds)" "128 \<le> lo" for lo hi d ds
    using that by (simp add: is_continuation_def)
  have three: "(\<exists>x y z zs. cs = x # y # z # zs) \<or> length cs < 3" by (cases cs; cases "tl cs"; cases "tl (tl cs)") auto
  show ?thesis
    using assms utf8_tail_length [OF assms(1)]
    by (cases cs; cases "tl cs"; cases "tl (tl cs)")
      (auto simp: utf8_tail_def Let_def is_continuation_def split: if_splits)
qed

subsubsection \<open>Unquoting\<close>

lemma hex_value_hex_digit [simp]: "n < 16 \<Longrightarrow> hex_value (hex_digit n) = Some n"
  by (auto simp: hex_value_def hex_digit_def is_digit_def digit_val_def byte_char_of byte_def)

lemma getu4_escape:
  "n < 256 \<Longrightarrow> getu4 (CHR ''0'' # CHR ''0'' # hex_digit (n div 16) # hex_digit (n mod 16) # r) = n"
  by (simp add: getu4_def) (simp add: hex_value_def is_digit_def digit_val_def)

lemma json_unquote_plain:
  "c \<noteq> CHR 0x5C \<Longrightarrow> byte c < 128 \<Longrightarrow> json_unquote (c # cs) = c # json_unquote cs"
  by (simp add: json_unquote.simps(2) utf8_tail_zero [THEN iffD2])

lemma json_unquote_ascii:
  assumes "byte c < 128"
  shows "json_unquote (json_ascii c @ r) = c # json_unquote r"
proof -
  let ?u = "[CHR 0x5C, CHR ''u'', CHR ''0'', CHR ''0'', hex_digit (byte c div 16), hex_digit (byte c mod 16)]"
  have u: "json_unquote (?u @ r) = c # json_unquote r"
    using assms by (simp add: json_unquote.simps(2) [of "CHR 0x5C"] getu4_escape utf8_encode_def)
      (simp add: byte_def)
  have e: "json_unquote (CHR 0x5C # e # r) = unescape e # json_unquote r" if "e \<noteq> CHR ''u''" for e
    using that by (simp add: json_unquote.simps(2) [of "CHR 0x5C"])
  show ?thesis
    unfolding json_ascii_def using u assms by (simp add: e json_unquote_plain unescape_def)
qed

lemma json_unquote_rune:
  assumes "utf8_tail c cs = Some n" and "0 < n"
  shows "json_unquote ((c # take n cs) @ r) = c # take n cs @ json_unquote r"
proof -
  have "128 \<le> byte c" using utf8_tail_high [OF assms] by simp
  then have "c \<noteq> CHR 0x5C" by (auto simp: byte_def)
  then show ?thesis
    using utf8_tail_take [OF assms(1), of r] utf8_tail_length [OF assms(1)]
    by (simp add: json_unquote.simps(2))
qed

lemma json_unquote_separators:
  "json_unquote (CHR 0x5C # ''u2028'' @ r) = json_separators ! 0 @ json_unquote r"
  "json_unquote (CHR 0x5C # ''u2029'' @ r) = json_separators ! 1 @ json_unquote r"
  by (simp_all add: json_unquote.simps(2) getu4_def hex_value_def is_digit_def digit_val_def byte_def
      utf8_encode_def json_separators_def char_of_def bit_0)

lemma json_unquote_json_chars: "valid_utf8 s \<Longrightarrow> json_unquote (json_chars s) = s"
proof (induction s rule: json_chars.induct)
  case 1
  then show ?case by (simp add: json_unquote.simps)
next
  case (2 c cs)
  then obtain n where n: "utf8_tail c cs = Some n" and v: "valid_utf8 (drop n cs)"
    by (auto simp: valid_utf8.simps split: option.splits)
  show ?case
  proof (cases "n = 0")
    case True
    then have "byte c < 128" "json_unquote (json_chars cs) = cs"
      using n v "2.IH"(2) [OF n] by (simp_all add: utf8_tail_zero)
    then show ?thesis by (simp add: n True json_unquote_ascii)
  next
    case False
    have IH: "json_unquote (json_chars (drop n cs)) = drop n cs"
      using False v by (intro "2.IH"(3) [OF n]) auto
    let ?rune = "c # take n cs"
    consider (ls) "?rune = json_separators ! 0" | (ps) "?rune = json_separators ! 1"
        "?rune \<noteq> json_separators ! 0"
      | (plain) "?rune \<noteq> json_separators ! 0" "?rune \<noteq> json_separators ! 1" by blast
    then show ?thesis
    proof cases
      case ls
      have "json_unquote (json_chars (c # cs)) = ?rune @ drop n cs"
        using n False ls IH by (simp add: Let_def json_unquote_separators [simplified])
      then show ?thesis by simp
    next
      case ps
      have "json_unquote (json_chars (c # cs)) = ?rune @ drop n cs"
        using n False ps IH by (simp add: Let_def json_unquote_separators [simplified])
      then show ?thesis by simp
    next
      case plain
      then show ?thesis using n False IH json_unquote_rune [OF n] by (simp add: Let_def)
    qed
  qed
qed

subsubsection \<open>Scanning\<close>

lemma json_run_append:
  "json_run s (xs @ ys) = (case json_run s xs of None \<Rightarrow> None | Some s' \<Rightarrow> json_run s' ys)"
  by (induction xs arbitrary: s) (auto split: option.split)

definition plain_byte :: "char \<Rightarrow> bool" where
  "plain_byte c \<longleftrightarrow> c \<noteq> CHR 0x22 \<and> c \<noteq> CHR 0x5C \<and> 32 \<le> byte c"

lemma run_plain:
  "\<forall>c \<in> set xs. plain_byte c \<Longrightarrow>
     json_run (InString key acc, st) (xs @ rest) = json_run (InString key (acc @ xs), st) rest"
  by (induction xs arbitrary: acc) (auto simp: plain_byte_def)

lemma run_escape:
  "e \<in> {CHR ''b'', CHR ''f'', CHR ''n'', CHR ''r'', CHR ''t'', CHR 0x5C, CHR ''/'', CHR 0x22} \<Longrightarrow>
     json_run (InString key acc, st) (CHR 0x5C # e # rest) =
     json_run (InString key (acc @ [CHR 0x5C, e]), st) rest"
  by auto

lemma run_unicode:
  assumes "hex_value a \<noteq> None" "hex_value b \<noteq> None" "hex_value c \<noteq> None" "hex_value d \<noteq> None"
  shows "json_run (InString key acc, st) (CHR 0x5C # CHR ''u'' # a # b # c # d # rest) =
    json_run (InString key (acc @ [CHR 0x5C, CHR ''u'', a, b, c, d]), st) rest"
  using assms by (auto simp: numeral_3_eq_3)

lemma hex_value_known [simp]:
  "hex_value (CHR ''0'') = Some 0" "hex_value (CHR ''2'') = Some 2" "hex_value (CHR ''8'') = Some 8"
  "hex_value (CHR ''9'') = Some 9" "hex_value (CHR ''f'') = Some 15" "hex_value (CHR ''d'') = Some 13"
  by (simp_all add: hex_value_def is_digit_def digit_val_def byte_def)

lemma run_json_ascii:
  assumes "byte c < 128"
  shows "json_run (InString key acc, st) (json_ascii c @ rest) =
    json_run (InString key (acc @ json_ascii c), st) rest"
proof -
  have "plain_byte c" if "\<not> byte c < 32" "c \<noteq> CHR 0x22" "c \<noteq> CHR 0x5C"
    using that by (simp add: plain_byte_def)
  then show ?thesis
    unfolding json_ascii_def
    using run_escape [of _ key acc st rest] run_plain [of "[c]" key acc st rest] assms
      run_unicode [of "CHR ''0''" "CHR ''0''" "hex_digit (byte c div 16)" "hex_digit (byte c mod 16)"
        key acc st rest]
    by (simp del: json_run.simps)
qed

lemma high_plain: "128 \<le> byte c \<Longrightarrow> plain_byte c"
  by (auto simp: plain_byte_def byte_def)

lemma run_json_chars:
  "json_run (InString key acc, st) (json_chars s @ rest) = json_run (InString key (acc @ json_chars s), st) rest"
proof (induction s arbitrary: acc rule: json_chars.induct)
  case 1
  then show ?case by simp
next
  case (2 c cs)
  show ?case
  proof (cases "utf8_tail c cs")
    case None
    have "json_run (InString key acc, st) ((CHR 0x5C # CHR ''u'' # ''fffd'') @ json_chars cs @ rest) =
        json_run (InString key (acc @ CHR 0x5C # CHR ''u'' # ''fffd''), st) (json_chars cs @ rest)"
      using run_unicode [of "CHR ''f''" "CHR ''f''" "CHR ''f''" "CHR ''d''" key acc st] by simp
    then show ?thesis using None "2.IH"(1) [OF None] by (simp del: json_run.simps)
  next
    case (Some n)
    show ?thesis
    proof (cases "n = 0")
      case True
      then have "byte c < 128" using Some by (simp add: utf8_tail_zero)
      then show ?thesis
        using "2.IH"(2) [OF Some True] run_json_ascii [of c key acc st "json_chars cs @ rest"] Some True
        by (simp del: json_run.simps utf8_tail_zero)
    next
      case False
      have plain: "\<forall>d \<in> set (c # take n cs). plain_byte d"
        using utf8_tail_high [OF Some] False high_plain by blast
      have sep: "json_run (InString key acc, st) ((CHR 0x5C # CHR ''u'' # ''202'' @ [e]) @ r) =
          json_run (InString key (acc @ CHR 0x5C # CHR ''u'' # ''202'' @ [e]), st) r"
        if "e = CHR ''8'' \<or> e = CHR ''9''" for e r
        using run_unicode [of "CHR ''2''" "CHR ''0''" "CHR ''2''" e key acc st] that by auto
      show ?thesis
        using "2.IH"(3) [OF Some False refl] Some False
          run_plain [OF plain, of key acc st "json_chars (drop n cs) @ rest"]
          sep [of "CHR ''8''" "json_chars (drop n cs) @ rest"] sep [of "CHR ''9''" "json_chars (drop n cs) @ rest"]
        by (simp add: Let_def del: json_run.simps)
    qed
  qed
qed

text \<open>
  A text renders a value when the scanner, wherever a value may start and with room for \<open>n\<close>
  more open objects, reads exactly that value from it, if something follows that ends a number.
\<close>

definition ends_value :: "char \<Rightarrow> bool" where
  "ends_value c \<longleftrightarrow> c = CHR '','' \<or> c = CHR ''}'' \<or> c = CHR '' ''"

definition renders :: "nat \<Rightarrow> string \<Rightarrow> json \<Rightarrow> bool" where
  "renders n t v \<longleftrightarrow> (\<forall>st c rest. length st + n \<le> 10000 \<longrightarrow> ends_value c \<longrightarrow>
     json_run (BeginValue, st) (t @ c # rest) = json_run (json_complete v st) (c # rest))"

lemma ends_value_simps [simp]: "ends_value (CHR '','')" "ends_value (CHR ''}'')" "ends_value (CHR '' '')"
  by (simp_all add: ends_value_def)

lemma renders_mono: "renders n t v \<Longrightarrow> n \<le> m \<Longrightarrow> renders m t v"
  by (auto simp: renders_def)

lemma renders_string: "renders n (json_string s) (JString (json_chars s))"
proof -
  have "json_run (BeginValue, st) (json_string s @ rest) = json_run (json_complete (JString (json_chars s)) st) rest"
    for st rest
    using run_json_chars [of False "[]" st s "CHR 0x22 # rest"]
    by (simp add: json_string_def step_begin_def json_space_def)
  then show ?thesis unfolding renders_def by blast
qed

lemma run_key:
  "m = BeginKey \<or> m = BeginKeyOrEnd \<Longrightarrow>
     json_run (m, ObjectFrame ms k0 # st) (json_string k @ '':'' @ rest) =
     json_run (BeginValue, ObjectFrame ms (json_chars k) # st) rest"
  using run_json_chars [of True "[]" "ObjectFrame ms k0 # st" k "CHR 0x22 # CHR '':'' # rest"]
  by (auto simp: json_string_def json_space_def)

lemma run_members:
  assumes "list_all2 (\<lambda>(k, t) (k', v). k' = json_chars k \<and> renders n t v) ms js" and "ms \<noteq> []"
    and "m = BeginKey \<or> m = BeginKeyOrEnd" and "length st + Suc n \<le> 10000"
  shows "json_run (m, ObjectFrame ps k0 # st) (json_members ms @ CHR ''}'' # rest) =
    json_run (json_complete (JObject (ps @ js)) st) rest"
  using assms(1-3)
proof (induction ms arbitrary: ps k0 js m rule: json_members.induct)
  case 1
  then show ?case by simp
next
  case (2 k t)
  then obtain v where js: "js = [(json_chars k, v)]" and v: "renders n t v"
    by (auto simp: list_all2_Cons1)
  have "json_run (BeginValue, ObjectFrame ps (json_chars k) # st) (t @ CHR ''}'' # rest) =
      json_run (EndValue, ObjectFrame (ps @ [(json_chars k, v)]) (json_chars k) # st) (CHR ''}'' # rest)"
    using v assms(4) by (simp add: renders_def)
  also have "\<dots> = json_run (json_complete (JObject (ps @ [(json_chars k, v)])) st) rest"
    by (simp add: step_end_def json_space_def)
  finally show ?case using run_key [OF "2.prems"(3)] js by simp
next
  case (3 k t p ms)
  then obtain v js' where js: "js = (json_chars k, v) # js'" and v: "renders n t v"
    and js': "list_all2 (\<lambda>(k, t) (k', v). k' = json_chars k \<and> renders n t v) (p # ms) js'"
    by (auto simp: list_all2_Cons1)
  have "json_run (BeginValue, ObjectFrame ps (json_chars k) # st) (t @ CHR '','' # json_members (p # ms) @ CHR ''}'' # rest) =
      json_run (EndValue, ObjectFrame (ps @ [(json_chars k, v)]) (json_chars k) # st)
        (CHR '','' # json_members (p # ms) @ CHR ''}'' # rest)"
    using v assms(4) by (simp add: renders_def)
  also have "\<dots> = json_run (BeginKey, ObjectFrame (ps @ [(json_chars k, v)]) (json_chars k) # st)
      (json_members (p # ms) @ CHR ''}'' # rest)"
    by (simp add: step_end_def json_space_def)
  also have "\<dots> = json_run (json_complete (JObject (ps @ js)) st) rest"
    using "3.IH" [OF js'] js by simp
  finally show ?case using run_key [OF "3.prems"(3)] by simp
qed

lemma renders_object:
  assumes "list_all2 (\<lambda>(k, t) (k', v). k' = json_chars k \<and> renders n t v) ms js"
  shows "renders (Suc n) (json_object ms) (JObject js)"
proof -
  have "json_run (BeginValue, st) (json_object ms @ rest) = json_run (json_complete (JObject js) st) rest"
    if room: "length st + Suc n \<le> 10000" for st :: "json_frame list" and rest
  proof -
    have open_brace: "json_run (BeginValue, st) (json_object ms @ rest) =
        json_run (BeginKeyOrEnd, ObjectFrame [] '''' # st) (json_members ms @ CHR ''}'' # rest)"
      using room by (simp add: json_object_def step_begin_def json_space_def json_push_def)
    show ?thesis
    proof (cases "ms = []")
      case True
      then show ?thesis using assms open_brace by (simp add: step_end_def json_space_def)
    next
      case False
      then show ?thesis using run_members [OF assms False _ room, of BeginKeyOrEnd "[]" "''''" rest] open_brace
        by simp
    qed
  qed
  then show ?thesis unfolding renders_def by blast
qed

lemma json_parse_renders: "renders n t v \<Longrightarrow> n \<le> 10000 \<Longrightarrow> json_parse t = Some v"
  by (auto simp: renders_def json_parse_def json_space_def)

text \<open>Numbers: the digits of a number do not start with a zero.\<close>

lemma nat_str_head: "0 < n \<Longrightarrow> \<exists>c cs. nat_str n = c # cs \<and> c \<noteq> CHR ''0''"
proof (induction n rule: nat_str.induct)
  case (1 n)
  show ?case
  proof (cases "n < 10")
    case True
    have "digit_val (CHR ''0'') = 0" by (simp add: digit_val_def)
    moreover have "digit_val (digit_char n) = n" using True by simp
    ultimately have "digit_char n \<noteq> CHR ''0''" using "1.prems" by (metis less_irrefl)
    moreover have "nat_str n = [digit_char n]" using True by (subst nat_str.simps) simp
    ultimately show ?thesis by simp
  next
    case False
    then obtain c cs where "nat_str (n div 10) = c # cs" "c \<noteq> CHR ''0''"
      using "1.IH" [OF False] False by (auto simp: div_greater_zero_iff)
    moreover have "nat_str n = nat_str (n div 10) @ [digit_char (n mod 10)]"
      using False by (subst nat_str.simps) simp
    ultimately show ?thesis by simp
  qed
qed

lemma run_digits:
  "list_all is_digit ds \<Longrightarrow>
     json_run (InNumber NumInt acc, st) (ds @ rest) = json_run (InNumber NumInt (acc @ ds), st) rest"
  by (induction ds arbitrary: acc) (simp_all add: num_step_def)

lemma number_ends:
  assumes "ends_value c" and "n = NumInt \<or> n = NumZero"
  shows "json_run (InNumber n acc, st) (c # rest) = json_run (json_complete (JNumber acc) st) (c # rest)"
proof -
  have c: "\<not> is_digit c" "c \<noteq> CHR ''.''" "c \<noteq> CHR ''e''" "c \<noteq> CHR ''E''"
    using assms(1) by (auto simp: ends_value_def is_digit_def)
  have n: "num_step n c = None" "num_accepts n"
    using assms(2) by (elim disjE; simp add: num_step_def num_accepts_def c)+
  have "json_step (InNumber n acc, st) c = json_step (json_complete (JNumber acc) st) c"
  proof (cases st)
    case (Cons f st')
    then show ?thesis using n by (cases f) (simp_all add: step_end_def)
  qed (simp add: n step_end_def)
  then show ?thesis by simp
qed

lemma renders_int: "renders m (int_str k) (JNumber (int_str k))"
proof -
  have nat: "json_run (BeginValue, st) (nat_str n @ c # rest) = json_run (json_complete (JNumber (nat_str n)) st) (c # rest) \<and>
      json_run (InNumber NumNeg ''-'', st) (nat_str n @ c # rest) =
        json_run (json_complete (JNumber (CHR ''-'' # nat_str n)) st) (c # rest)"
    if c: "ends_value c" for n st c rest
  proof (cases "n = 0")
    case True
    have "nat_str 0 = ''0''" by (subst nat_str.simps) (simp add: digit_char_def char_of_def bit_0)
    then show ?thesis
      using number_ends [OF c, of NumZero "''0''" st rest] number_ends [OF c, of NumZero "''-0''" st rest] True
      by (simp add: step_begin_def json_space_def num_step_def)
  next
    case False
    then obtain d ds where n: "nat_str n = d # ds" and d: "d \<noteq> CHR ''0''" using nat_str_head [of n] by blast
    have "list_all is_digit (d # ds)" using nat_str_digits [of n] by (simp only: n)
    then have dig: "is_digit d" "list_all is_digit ds" by simp_all
    have sp: "\<not> json_space d" "d \<noteq> CHR ''{''" "d \<noteq> CHR ''[''" "d \<noteq> CHR 0x22" "d \<noteq> CHR ''-''" "d \<noteq> CHR ''t''"
      "d \<noteq> CHR ''f''" "d \<noteq> CHR ''n''"
      using dig(1) by (auto simp: is_digit_def json_space_def)
    show ?thesis
      using number_ends [OF c, of NumInt "d # ds" st rest] number_ends [OF c, of NumInt "CHR ''-'' # d # ds" st rest]
        run_digits [OF dig(2), of "[d]" st "c # rest"] run_digits [OF dig(2), of "[CHR ''-'', d]" st "c # rest"] d dig sp
      by (simp add: n step_begin_def num_step_def)
  qed
  show ?thesis
  proof (cases "k < 0")
    case True
    then show ?thesis using nat by (simp add: renders_def int_str_def step_begin_def json_space_def)
  next
    case False
    then show ?thesis using nat by (simp add: renders_def int_str_def)
  qed
qed

declare json_chars.simps [simp del]

end
