(* ===== verification/Time_Text.thy ===== *)
theory Time_Text
  imports Strconv "HOL-Library.Monad_Syntax"
begin

section \<open>Instants as text (package time)\<close>

text \<open>
  The layouts \<open>RFC3339\<close> and \<open>RFC3339Nano\<close>: formatting an instant in UTC and parsing one as
  \<open>time.Parse\<close> does, which accepts a fraction with either layout, a one-digit hour, a comma
  for the point and an offset of up to 24:60. An instant counts nanoseconds from the first day
  of the year 1 of the proleptic Gregorian calendar.
\<close>

subsection \<open>The calendar\<close>

definition is_leap :: "int \<Rightarrow> bool" where
  "is_leap y \<longleftrightarrow> y mod 4 = 0 \<and> (y mod 100 \<noteq> 0 \<or> y mod 400 = 0)"

definition month_lengths :: "int \<Rightarrow> nat list" where
  "month_lengths y = [31, if is_leap y then 29 else 28, 31, 30, 31, 30, 31, 31, 30, 31, 30, 31]"

definition daysIn :: "nat \<Rightarrow> int \<Rightarrow> nat" where
  "daysIn m y = month_lengths y ! (m - 1)"

text \<open>Days from the first day of year 1 to that of year \<open>y\<close>.\<close>

definition days_before_year :: "int \<Rightarrow> int" where
  "days_before_year y = 365 * (y - 1) + (y - 1) div 4 - (y - 1) div 100 + (y - 1) div 400"

definition time_Date :: "int \<Rightarrow> nat \<Rightarrow> nat \<Rightarrow> nat \<Rightarrow> nat \<Rightarrow> nat \<Rightarrow> nat \<Rightarrow> time" where
  "time_Date y m d hh mm ss ns =
     ((days_before_year y + int (sum_list (take (m - 1) (month_lengths y)) + d) - 1) * 86400 +
      int (hh * 3600 + mm * 60 + ss)) * 1000000000 + int ns"

text \<open>The year of a day and the day in it: 400-, 100-, 4- and 1-year cycles.\<close>

definition year_of_day :: "int \<Rightarrow> int \<times> nat" where
  "year_of_day d =
     (let n400 = d div 146097; d1 = d mod 146097;
          n100 = min 3 (d1 div 36524); d2 = d1 - n100 * 36524;
          n4 = d2 div 1461; d3 = d2 mod 1461;
          n1 = min 3 (d3 div 365)
      in (400 * n400 + 100 * n100 + 4 * n4 + n1 + 1, nat (d3 - n1 * 365)))"

fun find_month :: "nat list \<Rightarrow> nat \<Rightarrow> nat \<Rightarrow> nat \<times> nat" where
  "find_month [] m d = (m, d)"
| "find_month (l # ls) m d = (if d < l then (m, d) else find_month ls (m + 1) (d - l))"

text \<open>Year, month and day of a day number.\<close>

definition civil_of_day :: "int \<Rightarrow> int \<times> nat \<times> nat" where
  "civil_of_day n =
     (case year_of_day n of (y, yday) \<Rightarrow>
        (case find_month (month_lengths y) 1 yday of (m, d) \<Rightarrow> (y, m, d + 1)))"

subsection \<open>Formatting\<close>

text \<open>\<open>appendInt\<close>: at least \<open>w\<close> digits.\<close>

definition pad :: "nat \<Rightarrow> nat \<Rightarrow> string" where
  "pad w n = (let s = nat_str n in replicate (w - length s) (CHR ''0'') @ s)"

definition pad_int :: "nat \<Rightarrow> int \<Rightarrow> string" where
  "pad_int w k = (if k < 0 then ''-'' @ pad w (nat (- k)) else pad w (nat k))"

definition trim_zeros :: "string \<Rightarrow> string" where
  "trim_zeros s = rev (dropWhile (\<lambda>c. c = CHR ''0'') (rev s))"

definition append_nano :: "nat \<Rightarrow> string" where
  "append_nano ns = (let s = trim_zeros (pad 9 ns) in if s = '''' then '''' else ''.'' @ s)"

definition Format_RFC3339Nano :: "time \<Rightarrow> string" where
  "Format_RFC3339Nano t =
     (let s = t div 1000000000; ns = nat (t mod 1000000000); sod = nat (s mod 86400) in
      case civil_of_day (s div 86400) of (y, m, d) \<Rightarrow>
        pad_int 4 y @ ''-'' @ pad 2 m @ ''-'' @ pad 2 d @ ''T'' @
        pad 2 (sod div 3600) @ '':'' @ pad 2 (sod mod 3600 div 60) @ '':'' @ pad 2 (sod mod 60) @
        append_nano ns @ ''Z'')"

subsection \<open>Parsing\<close>

definition skip :: "char \<Rightarrow> string \<Rightarrow> string option" where
  "skip c s = (case s of x # xs \<Rightarrow> if x = c then Some xs else None | [] \<Rightarrow> None)"

definition getnum :: "bool \<Rightarrow> string \<Rightarrow> (nat \<times> string) option" where
  "getnum fixed s =
     (case s of
        a # b # r \<Rightarrow>
          if \<not> is_digit a then None
          else if is_digit b then Some (10 * digit_val a + digit_val b, r)
          else if fixed then None else Some (digit_val a, b # r)
      | [a] \<Rightarrow> if is_digit a \<and> \<not> fixed then Some (digit_val a, []) else None
      | [] \<Rightarrow> None)"

definition get_year :: "string \<Rightarrow> (nat \<times> string) option" where
  "get_year s =
     (if length s < 4 \<or> \<not> list_all is_digit (take 4 s) then None
      else Some (digits_value (take 4 s), drop 4 s))"

definition in_range :: "nat \<Rightarrow> nat \<Rightarrow> nat \<Rightarrow> unit option" where
  "in_range lo hi n = (if lo \<le> n \<and> n \<le> hi then Some () else None)"

text \<open>A fraction of a second, of which nine digits count.\<close>

definition get_fraction :: "string \<Rightarrow> nat \<times> string" where
  "get_fraction s =
     (case s of
        p # c # r \<Rightarrow>
          if (p = CHR ''.'' \<or> p = CHR '','') \<and> is_digit c
          then (let ds = takeWhile is_digit (c # r); nine = take 9 ds
                in (digits_value nine * 10 ^ (9 - length nine), dropWhile is_digit (c # r)))
          else (0, s)
      | _ \<Rightarrow> (0, s))"

text \<open>The offset in seconds: \<open>Z\<close>, or a sign, two digits, a colon and two digits.\<close>

definition get_offset :: "string \<Rightarrow> (int \<times> string) option" where
  "get_offset s =
     (if take 1 s = ''Z'' then Some (0, drop 1 s)
      else if length s < 6 \<or> s ! 3 \<noteq> CHR '':'' then None
      else do {
        (hr, _) \<leftarrow> getnum True (take 2 (drop 1 s));
        (mm, _) \<leftarrow> getnum True (take 2 (drop 4 s));
        _ \<leftarrow> in_range 0 24 hr;
        _ \<leftarrow> in_range 0 60 mm;
        if s ! 0 = CHR ''+'' then Some (int (hr * 60 + mm) * 60, drop 6 s)
        else if s ! 0 = CHR ''-'' then Some (- (int (hr * 60 + mm) * 60), drop 6 s)
        else None
      })"

definition Parse_RFC3339 :: "string \<Rightarrow> time option" where
  "Parse_RFC3339 s = do {
     (year, s) \<leftarrow> get_year s;
     s \<leftarrow> skip (CHR ''-'') s;
     (month, s) \<leftarrow> getnum True s;
     _ \<leftarrow> in_range 1 12 month;
     s \<leftarrow> skip (CHR ''-'') s;
     (day, s) \<leftarrow> getnum True s;
     s \<leftarrow> skip (CHR ''T'') s;
     (hour, s) \<leftarrow> getnum False s;
     _ \<leftarrow> in_range 0 23 hour;
     s \<leftarrow> skip (CHR '':'') s;
     (minute, s) \<leftarrow> getnum True s;
     _ \<leftarrow> in_range 0 59 minute;
     s \<leftarrow> skip (CHR '':'') s;
     (second, s) \<leftarrow> getnum True s;
     _ \<leftarrow> in_range 0 59 second;
     let (nsec, s) = get_fraction s;
     (offset, s) \<leftarrow> get_offset s;
     _ \<leftarrow> in_range 1 (daysIn month (int year)) day;
     if s = [] then Some (time_Date (int year) month day hour minute second nsec - offset * 1000000000)
     else None
   }"

subsection \<open>The calendar is a bijection\<close>

lemma year_of_day_spec:
  assumes "year_of_day n = (y, yd)"
  shows "days_before_year y + int yd = n" and "yd < sum_list (month_lengths y)"
proof -
  define a where "a = n div 146097"
  define d1 where "d1 = n mod 146097"
  define b where "b = min 3 (d1 div 36524)"
  define d2 where "d2 = d1 - b * 36524"
  define c where "c = d2 div 1461"
  define d3 where "d3 = d2 mod 1461"
  define e where "e = min 3 (d3 div 365)"
  have "(400 * a + 100 * b + 4 * c + e + 1, nat (d3 - e * 365)) = (y, yd)"
    using assms
    unfolding year_of_day_def Let_def a_def [symmetric] d1_def [symmetric] b_def [symmetric]
      d2_def [symmetric] c_def [symmetric] d3_def [symmetric] e_def [symmetric] .
  then have y: "y - 1 = 400 * a + (100 * b + (4 * c + e))" and yd: "yd = nat (d3 - e * 365)" by auto
  have n: "n = 146097 * a + d1" by (simp add: a_def d1_def)
  have d1: "0 \<le> d1" "d1 < 146097" by (simp_all add: d1_def)
  have b: "0 \<le> b" "b \<le> 3" and d2: "0 \<le> d2" "d2 \<le> 36524" and b3: "d2 = 36524 \<Longrightarrow> b = 3"
  proof -
    have "0 \<le> b \<and> b \<le> 3 \<and> 0 \<le> d2 \<and> d2 \<le> 36524 \<and> (d2 = 36524 \<longrightarrow> b = 3)"
    proof -
      have "36524 * (d1 div 36524) \<le> d1" "d1 < 36524 * (d1 div 36524) + 36524" by simp_all
      moreover from this d1 have "0 \<le> d1 div 36524" "d1 div 36524 < 5" by linarith+
      ultimately show ?thesis
        using d1 unfolding d2_def b_def min_def by (cases "d1 div 36524 = 4") auto
    qed
    then show "0 \<le> b" "b \<le> 3" "0 \<le> d2" "d2 \<le> 36524" "d2 = 36524 \<Longrightarrow> b = 3" by auto
  qed
  have d2c: "d2 = 1461 * c + d3" by (simp add: c_def d3_def)
  have d3: "0 \<le> d3" "d3 < 1461" by (simp_all add: d3_def)
  have c: "0 \<le> c" "c \<le> 24" using d2 d3 d2c by linarith+
  have e: "0 \<le> e" "e \<le> 3" and r: "0 \<le> d3 - e * 365" "d3 - e * 365 \<le> 365" and
    e3: "d3 - e * 365 = 365 \<Longrightarrow> e = 3"
  proof -
    have "0 \<le> e \<and> e \<le> 3 \<and> 0 \<le> d3 - e * 365 \<and> d3 - e * 365 \<le> 365 \<and> (d3 - e * 365 = 365 \<longrightarrow> e = 3)"
    proof -
      have "365 * (d3 div 365) \<le> d3" "d3 < 365 * (d3 div 365) + 365" by simp_all
      moreover from this d3 have "0 \<le> d3 div 365" "d3 div 365 < 5" by linarith+
      ultimately show ?thesis
        using d3 unfolding e_def min_def by (cases "d3 div 365 = 4") auto
    qed
    then show "0 \<le> e" "e \<le> 3" "0 \<le> d3 - e * 365" "d3 - e * 365 \<le> 365"
      "d3 - e * 365 = 365 \<Longrightarrow> e = 3" by auto
  qed
  have "(y - 1) div 4 = 100 * a + 25 * b + c"
    by (rule int_div_pos_eq [where r = e]) (use y e in \<open>simp_all add: algebra_simps\<close>)
  moreover have "(y - 1) div 100 = 4 * a + b"
    by (rule int_div_pos_eq [where r = "4 * c + e"]) (use y c e in \<open>simp_all add: algebra_simps\<close>)
  moreover have "(y - 1) div 400 = a"
    by (rule int_div_pos_eq [where r = "100 * b + (4 * c + e)"]) (use y b c e in \<open>simp_all add: algebra_simps\<close>)
  ultimately  show "days_before_year y + int yd = n"
    using y yd r(1) n d2c by (simp add: days_before_year_def d2_def)
  have leap: "is_leap y" if "d3 - e * 365 = 365"
  proof -
    from that e3 have "e = 3" "d3 = 1460" by auto
    then have Y: "y = 400 * a + 100 * b + 4 * c + 4" using y by simp
    have "y mod 4 = 0"
      by (rule int_mod_pos_eq [where q = "100 * a + 25 * b + c + 1"]) (use Y in \<open>simp_all add: algebra_simps\<close>)
    moreover have "y mod 100 \<noteq> 0 \<or> y mod 400 = 0"
    proof (cases "c = 24")
      case True
      then have "d2 = 36524" using d2c \<open>d3 = 1460\<close> by simp
      then have "y mod 400 = 0"
        by (intro int_mod_pos_eq [where q = "a + 1"]) (use Y b3 True in \<open>simp_all add: algebra_simps\<close>)
      then show ?thesis ..
    next
      case False
      then have "y mod 100 = 4 * c + 4"
        by (intro int_mod_pos_eq [where q = "4 * a + b"]) (use Y c in \<open>simp_all add: algebra_simps\<close>)
      then show ?thesis using c by simp
    qed
    ultimately show ?thesis by (simp add: is_leap_def)
  qed
  show "yd < sum_list (month_lengths y)"
    using r leap yd by (cases "d3 - e * 365 = 365") (auto simp: month_lengths_def)
qed

lemma find_month_spec:
  assumes "find_month ls m d = (m', d')" and "d < sum_list ls"
  shows "m \<le> m' \<and> m' - m < length ls \<and> d' < ls ! (m' - m) \<and> sum_list (take (m' - m) ls) + d' = d"
  using assms
proof (induction ls m d rule: find_month.induct)
  case (2 l ls m d)
  show ?case
  proof (cases "d < l")
    case False
    then have "d - l < sum_list ls" using "2.prems"(2) by simp
    with "2.IH" "2.prems"(1) False have IH: "m + 1 \<le> m'" "m' - (m + 1) < length ls"
      "d' < ls ! (m' - (m + 1))" "sum_list (take (m' - (m + 1)) ls) + d' = d - l" by auto
    moreover from IH(1) have "m' - m = Suc (m' - (m + 1))" by simp
    ultimately show ?thesis using False by simp
  qed (use 2 in auto)
qed simp

lemma civil_of_day_spec:
  assumes "civil_of_day n = (y, m, d)"
  shows "1 \<le> m" and "m \<le> 12" and "1 \<le> d" and "d \<le> daysIn m y"
    and "days_before_year y + int (sum_list (take (m - 1) (month_lengths y)) + d) - 1 = n"
proof -
  obtain yd where y: "year_of_day n = (y, yd)" and f: "find_month (month_lengths y) 1 yd = (m, d - 1)"
    and d: "1 \<le> d"
    using assms by (auto simp: civil_of_day_def split: prod.splits)
  have spec: "1 \<le> m" "m - 1 < length (month_lengths y)" "d - 1 < month_lengths y ! (m - 1)"
      "sum_list (take (m - 1) (month_lengths y)) + (d - 1) = yd"
    using find_month_spec [OF f year_of_day_spec(2) [OF y]] by simp_all
  show "1 \<le> m" "1 \<le> d" using spec(1) d by simp_all
  have "length (month_lengths y) = 12" by (simp add: month_lengths_def)
  then show "m \<le> 12" using spec(1,2) by simp
  show "d \<le> daysIn m y" using spec(3) by (simp add: daysIn_def)
  show "days_before_year y + int (sum_list (take (m - 1) (month_lengths y)) + d) - 1 = n"
    using spec(4) year_of_day_spec(1) [OF y] d by linarith
qed

subsection \<open>Numbers in the text\<close>

lemma length_nat_str: "n < 10 ^ w \<Longrightarrow> 0 < w \<Longrightarrow> length (nat_str n) \<le> w"
proof (induction n arbitrary: w rule: nat_str.induct)
  case (1 n)
  show ?case
  proof (cases "n < 10")
    case True
    then show ?thesis using "1.prems" by (subst nat_str.simps) simp
  next
    case False
    then obtain v where w: "w = Suc v" "0 < v"
      using "1.prems" by (cases w; cases "w - 1") auto
    have "length (nat_str (n div 10)) \<le> v"
      using "1.prems"(1) w by (intro "1.IH" [OF False]) (simp_all add: less_mult_imp_div_less mult.commute)
    then show ?thesis using False w by (subst nat_str.simps) simp
  qed
qed

lemma digits_value_replicate: "digits_value (replicate k (CHR ''0'') @ s) = digits_value s"
  by (induction k) (simp_all add: digits_value_zero_Cons)

lemma pad_props:
  assumes "n < 10 ^ w" and "0 < w"
  shows "length (pad w n) = w" and "list_all is_digit (pad w n)" and "digits_value (pad w n) = n"
  using length_nat_str [OF assms]
  by (simp_all add: pad_def Let_def digits_value_replicate list_all_iff)
    (use nat_str_digits [of n] in \<open>auto simp: list_all_iff\<close>)

lemma getnum_pad:
  assumes "n < 100"
  shows "getnum fixed (pad 2 n @ r) = Some (n, r)"
proof -
  have p: "length (pad 2 n) = 2" "list_all is_digit (pad 2 n)" "digits_value (pad 2 n) = n"
    using pad_props [of n 2] assms by simp_all
  then obtain a b where "pad 2 n = [a, b]" by (auto simp: numeral_2_eq_2 length_Suc_conv)
  with p show ?thesis by (simp add: getnum_def digits_value_def)
qed

lemma get_year_pad:
  assumes "0 \<le> y" and "y \<le> 9999"
  shows "get_year (pad_int 4 y @ r) = Some (nat y, r)"
  using assms pad_props [of "nat y" 4] by (simp add: get_year_def pad_int_def)

lemma trim_zeros_append: "\<exists>k. s = trim_zeros s @ replicate k (CHR ''0'')"
proof -
  let ?z = "takeWhile (\<lambda>c. c = CHR ''0'') (rev s)"
  have z: "replicate (length ?z) (CHR ''0'') = ?z"
    by (rule replicate_length_same) (auto dest: set_takeWhileD)
  have "s = rev (?z @ dropWhile (\<lambda>c. c = CHR ''0'') (rev s))" by simp
  also have "\<dots> = trim_zeros s @ rev ?z" by (simp only: rev_append trim_zeros_def)
  also have "rev ?z = replicate (length ?z) (CHR ''0'')" by (metis z rev_replicate)
  finally show ?thesis by blast
qed

lemma digits_value_zeros: "digits_value (s @ replicate k (CHR ''0'')) = digits_value s * 10 ^ k"
proof (induction k)
  case (Suc k)
  have "s @ replicate (Suc k) (CHR ''0'') = (s @ replicate k (CHR ''0'')) @ [CHR ''0'']"
    by (simp add: replicate_append_same)
  then show ?case using Suc by (simp del: append_assoc)
qed simp

lemma get_fraction_nano:
  assumes ns: "ns < 1000000000" and c: "\<not> is_digit c" "c \<noteq> CHR ''.''" "c \<noteq> CHR '',''"
  shows "get_fraction (append_nano ns @ c # r) = (ns, c # r)"
proof -
  obtain k where k: "pad 9 ns = trim_zeros (pad 9 ns) @ replicate k (CHR ''0'')"
    using trim_zeros_append by blast
  have p: "length (pad 9 ns) = 9" "list_all is_digit (pad 9 ns)" "digits_value (pad 9 ns) = ns"
    using pad_props [of ns 9] ns by simp_all
  let ?s = "trim_zeros (pad 9 ns)"
  have len: "length ?s + k = 9" using p(1) k by (metis length_append length_replicate)
  have dig: "list_all is_digit ?s" using p(2) k by (metis list_all_append)
  have val: "digits_value ?s * 10 ^ k = ns" using p(3) k by (metis digits_value_zeros)
  show ?thesis
  proof (cases ?s)
    case Nil
    then show ?thesis
      using val c by (cases r) (auto simp: append_nano_def Let_def get_fraction_def)
  next
    case (Cons d ds)
    have tw: "takeWhile is_digit (?s @ c # r) = ?s" "dropWhile is_digit (?s @ c # r) = c # r"
      using dig c(1) by (simp_all add: list_all_iff takeWhile_append dropWhile_append)
    have "9 - length ?s = k" "take 9 ?s = ?s" using len by simp_all
    then show ?thesis
      using tw val dig Cons by (simp add: append_nano_def Let_def get_fraction_def)
  qed
qed

lemma bind_eq_Some: "f x = y \<Longrightarrow> Option.bind (Some x) f = y"
  by simp

text \<open>What is formatted parses back, for the years that have four digits.\<close>

lemma Parse_Format:
  assumes "0 \<le> fst (civil_of_day (t div 1000000000 div 86400))"
    and "fst (civil_of_day (t div 1000000000 div 86400)) \<le> 9999"
  shows "Parse_RFC3339 (Format_RFC3339Nano t) = Some t"
proof -
  define s where "s = t div 1000000000"
  define ns where "ns = nat (t mod 1000000000)"
  define sod where "sod = nat (s mod 86400)"
  obtain y m d where ymd: "civil_of_day (s div 86400) = (y, m, d)" by (cases "civil_of_day (s div 86400)")
  note civil = civil_of_day_spec [OF ymd]
  have ns: "ns < 1000000000" "int ns = t mod 1000000000" by (simp_all add: ns_def nat_less_iff)
  have sod: "sod < 86400" "int sod = s mod 86400" by (simp_all add: sod_def nat_less_iff)
  have y: "0 \<le> y" "y \<le> 9999" using assms ymd by (simp_all add: s_def)
  have len: "month_lengths y ! (m - 1) \<le> 31"
  proof -
    have "month_lengths y ! (m - 1) \<in> set (month_lengths y)"
      using civil(1,2) by (intro nth_mem) (simp add: month_lengths_def)
    then show ?thesis by (auto simp: month_lengths_def)
  qed
  have d: "d \<le> 31" using civil(4) len by (simp add: daysIn_def)
  have form: "Format_RFC3339Nano t = pad_int 4 y @ ''-'' @ pad 2 m @ ''-'' @ pad 2 d @ ''T'' @
      pad 2 (sod div 3600) @ '':'' @ pad 2 (sod mod 3600 div 60) @ '':'' @ pad 2 (sod mod 60) @
      append_nano ns @ ''Z''"
    unfolding Format_RFC3339Nano_def Let_def s_def [symmetric] ns_def [symmetric] sod_def [symmetric] ymd
    by simp
  have hms: "sod div 3600 \<le> 23" "sod mod 3600 div 60 \<le> 59" "sod mod 60 \<le> 59"
    using sod(1) by (simp_all add: less_mult_imp_div_less div_le_dividend flip: less_Suc_eq_le)
  have "Parse_RFC3339 (Format_RFC3339Nano t) =
      Some (time_Date (int (nat y)) m d (sod div 3600) (sod mod 3600 div 60) (sod mod 60) ns)"
    unfolding form Parse_RFC3339_def
    using civil d hms ns(1) y get_fraction_nano [OF ns(1), of "CHR ''Z''" "[]"]
    by (simp add: get_year_pad getnum_pad skip_def in_range_def get_offset_def is_digit_def)
  moreover have "time_Date (int (nat y)) m d (sod div 3600) (sod mod 3600 div 60) (sod mod 60) ns = t"
  proof -
    have "sod div 3600 * 3600 + sod mod 3600 div 60 * 60 + sod mod 60 = sod"
    proof -
      have "sod mod 3600 mod 60 = sod mod 60" by (simp add: mod_mod_cancel)
      then show ?thesis by (metis div_mult_mod_eq add.assoc)
    qed
    then have "time_Date (int (nat y)) m d (sod div 3600) (sod mod 3600 div 60) (sod mod 60) ns =
        (s div 86400 * 86400 + int sod) * 1000000000 + int ns"
      using civil(5) y by (simp add: time_Date_def)
    also have "s div 86400 * 86400 + int sod = s" using sod(2) by simp
    also have "s * 1000000000 + int ns = t" using ns(2) by (simp add: s_def)
    finally show ?thesis .
  qed
  ultimately show ?thesis by simp
qed

text \<open>The characters of a formatted instant.\<close>

lemma set_pad: "c \<in> set (pad w n) \<Longrightarrow> is_digit c"
  using nat_str_digits [of n] by (auto simp: pad_def Let_def list_all_iff)

lemma set_append_nano: "c \<in> set (append_nano n) \<Longrightarrow> is_digit c \<or> c = CHR ''.''"
proof -
  have "set (trim_zeros (pad 9 n)) \<subseteq> set (pad 9 n)"
    by (auto simp: trim_zeros_def dest: set_dropWhileD)
  then show "c \<in> set (append_nano n) \<Longrightarrow> is_digit c \<or> c = CHR ''.''"
    using set_pad [of c 9 n] by (auto simp: append_nano_def Let_def split: if_splits)
qed

lemma set_Format: "c \<in> set (Format_RFC3339Nano t) \<Longrightarrow> is_digit c \<or> c \<in> set ''-T:.Z''"
  using set_pad [of c] set_append_nano [of c]
  unfolding Format_RFC3339Nano_def Let_def pad_int_def
  by (cases "civil_of_day (t div 1000000000 div 86400)"; simp split: if_splits; blast)

end
