(* ===== verification/Money_Json.thy ===== *)
theory Money_Json
  imports Json Money_Text Time_Text
begin

section \<open>Amounts and instants in JSON\<close>

text \<open>
  \<open>Money.MarshalJSON\<close> and \<open>Money.UnmarshalJSON\<close> (internal/domain/money), and
  \<open>Time.UnmarshalJSON\<close>. The inner call of \<open>json.Unmarshal\<close> reads the text of a value that the
  outer one has scanned already, so it is modelled on the value.
\<close>

record money_wire =
  mw_Amount :: "string option"
  mw_Currency :: "string option"

text \<open>The error of \<open>json.Unmarshal\<close>, whichever it is.\<close>

definition json_error :: goerror where
  "json_error = LibError ''encoding/json''"

definition money_wire_fields :: "money_wire fields" where
  "money_wire_fields =
     [(''amount'', decode_pstring (\<lambda>s w. w\<lparr>mw_Amount := s\<rparr>)),
      (''currency'', decode_pstring (\<lambda>s w. w\<lparr>mw_Currency := s\<rparr>))]"

definition money_UnmarshalJSON :: "json \<Rightarrow> money result" where
  "money_UnmarshalJSON v =
     (case decode_struct False money_wire_fields v \<lparr>mw_Amount = None, mw_Currency = None\<rparr> of
        None \<Rightarrow> Inl (apperr_Wrap KindInvalid money_CodeInvalidAmount (Text ''invalid money object'') json_error)
      | Some wire \<Rightarrow>
          (case (mw_Amount wire, mw_Currency wire) of
             (Some a, Some c) \<Rightarrow> Parse a c
           | _ \<Rightarrow> Inl (apperr_New KindInvalid money_CodeInvalidAmount
                    (Text ''money requires amount and currency''))))"

definition money_MarshalJSON :: "money \<Rightarrow> string result" where
  "money_MarshalJSON m =
     (if \<not> money_IsValid m then Inl (PlainError ''money: cannot marshal an uninitialized value'')
      else Inr (json_object [(''amount'', json_string (AmountString m)),
                             (''currency'', json_string (m_currency m))]))"

text \<open>Fields of type \<open>money.Money\<close> and \<open>time.Time\<close>.\<close>

definition decode_money :: "(money \<Rightarrow> 'a \<Rightarrow> 'a) \<Rightarrow> json \<Rightarrow> 'a \<Rightarrow> 'a option" where
  "decode_money put v a = (case money_UnmarshalJSON v of Inr m \<Rightarrow> Some (put m a) | Inl _ \<Rightarrow> None)"

definition decode_time :: "(time \<Rightarrow> 'a \<Rightarrow> 'a) \<Rightarrow> json \<Rightarrow> 'a \<Rightarrow> 'a option" where
  "decode_time put v a =
     (case v of
        JNull \<Rightarrow> Some a
      | JString s \<Rightarrow> (case Parse_RFC3339 s of Some t \<Rightarrow> Some (put t a) | None \<Rightarrow> None)
      | _ \<Rightarrow> None)"

subsection \<open>Fields that were encoded\<close>

lemma valid_utf8_ascii: "\<forall>c \<in> set s. byte c < 128 \<Longrightarrow> valid_utf8 s"
  by (induction s) (simp_all add: valid_utf8.simps utf8_tail_zero [THEN iffD2])

lemma is_digit_ascii: "is_digit c \<Longrightarrow> byte c < 128"
  by (simp add: is_digit_def byte_def)

lemma is_upper_ascii: "is_upper c \<Longrightarrow> byte c < 128"
  by (simp add: is_upper_def byte_def)

lemma valid_utf8_currency: "currencyPattern s \<Longrightarrow> valid_utf8 s"
  by (rule valid_utf8_ascii) (auto simp: currencyPattern_def list_all_iff is_upper_ascii)

lemma valid_utf8_AmountString: "valid_utf8 (AmountString m)"
proof (rule valid_utf8_ascii, rule ballI)
  fix c assume c: "c \<in> set (AmountString m)"
  obtain f where "FormatMinorUnits (m_amount m) = (if sint (m_amount m) < 0 then ''-'' else []) @
      nat_str (nat \<bar>sint (m_amount m)\<bar> div 100) @ CHR ''.'' # f" "list_all is_digit f"
    by (rule FormatMinorUnits_shape)
  with c have "is_digit c \<or> c = CHR ''-'' \<or> c = CHR ''.''"
    using nat_str_digits [of "nat \<bar>sint (m_amount m)\<bar> div 100"]
    by (auto simp: AmountString_def list_all_iff split: if_splits)
  then show "byte c < 128" using is_digit_ascii [of c] by (auto simp: byte_def)
qed

lemma json_unquote_name [simp]: "\<forall>c \<in> set s. byte c < 128 \<Longrightarrow> json_unquote (json_chars s) = s"
  by (rule json_unquote_json_chars [OF valid_utf8_ascii])

text \<open>A member that was encoded under a field's own name reaches that field.\<close>

lemma find_field_chars [simp]:
  "\<forall>c \<in> set k. byte c < 128 \<Longrightarrow>
     find_field fs (json_chars k) = map_option snd (find (\<lambda>(n, _). json_fold n = json_fold k) fs)"
  by (simp add: find_field_def)

definition money_json :: "money \<Rightarrow> json" where
  "money_json m = JObject [(json_chars ''amount'', JString (json_chars (AmountString m))),
     (json_chars ''currency'', JString (json_chars (m_currency m)))]"

lemma renders_money:
  assumes "money_IsValid m"
  obtains t where "money_MarshalJSON m = Inr t" and "renders 1 t (money_json m)"
proof -
  have "renders (Suc 0) (json_object [(''amount'', json_string (AmountString m)),
      (''currency'', json_string (m_currency m))]) (money_json m)"
    unfolding money_json_def by (rule renders_object) (simp add: renders_string)
  then show thesis using assms by (intro that) (simp_all add: money_MarshalJSON_def)
qed

lemma money_UnmarshalJSON_json:
  assumes "currencyPattern (m_currency m)"
  shows "money_UnmarshalJSON (money_json m) = Inr m"
proof -
  have "Parse (AmountString m) (m_currency m) = Inr m"
    using assms format_parse_roundtrip [of "m_amount m"]
    by (simp add: Parse_def AmountString_def NewCurrency_def)
  moreover have "json_unquote (json_chars (AmountString m)) = AmountString m"
    "json_unquote (json_chars (m_currency m)) = m_currency m"
    using assms by (simp_all add: json_unquote_json_chars valid_utf8_AmountString valid_utf8_currency)
  ultimately show ?thesis
    by (simp add: money_UnmarshalJSON_def money_json_def decode_struct_def money_wire_fields_def
        decode_pstring_def byte_def)
qed

lemma json_chars_plain: "\<forall>c \<in> set s. json_ascii c = [c] \<and> byte c < 128 \<Longrightarrow> json_chars s = s"
  by (induction s) (simp_all add: json_chars.simps utf8_tail_zero [THEN iffD2])

lemma not_digits:
  "\<not> is_digit (CHR 0x5C)" "\<not> is_digit (CHR 0x22)" "\<not> is_digit (CHR 0x08)" "\<not> is_digit (CHR 0x0C)"
  "\<not> is_digit (CHR 0x0A)" "\<not> is_digit (CHR 0x0D)" "\<not> is_digit (CHR 0x09)" "\<not> is_digit (CHR ''<'')"
  "\<not> is_digit (CHR ''>'')" "\<not> is_digit (CHR ''&'')"
  by (simp_all add: is_digit_def)

lemma json_ascii_digit:
  assumes "is_digit c" shows "json_ascii c = [c]"
proof -
  have "\<not> byte c < 32" using assms by (simp add: is_digit_def byte_def)
  moreover have "c \<noteq> d" if "\<not> is_digit d" for d using assms that by blast
  ultimately show ?thesis using not_digits unfolding json_ascii_def by presburger
qed

lemma json_chars_Format: "json_chars (Format_RFC3339Nano t) = Format_RFC3339Nano t"
proof (rule json_chars_plain, rule ballI)
  have other: "\<forall>c \<in> set ''-T:.Z''. json_ascii c = [c] \<and> byte c < 128"
    by (simp add: json_ascii_def byte_def)
  fix c assume "c \<in> set (Format_RFC3339Nano t)"
  then consider "is_digit c" | "c \<in> set ''-T:.Z''" using set_Format by blast
  then show "json_ascii c = [c] \<and> byte c < 128"
  proof cases
    case 1
    then show ?thesis using json_ascii_digit is_digit_ascii by simp
  next
    case 2
    then show ?thesis using other by (rule bspec [rotated])
  qed
qed

lemma valid_utf8_Format: "valid_utf8 (Format_RFC3339Nano t)"
proof (rule valid_utf8_ascii, rule ballI)
  have other: "\<forall>c \<in> set ''-T:.Z''. byte c < 128" by (simp add: byte_def)
  fix c assume "c \<in> set (Format_RFC3339Nano t)"
  then show "byte c < 128" using set_Format [of c t] other is_digit_ascii [of c] by blast
qed

end
