(* ===== verification/Events.thy ===== *)
theory Events
  imports Wagering Money_Json
begin

section \<open>Integration events (internal/domain/events/events.go)\<close>

text \<open>
  The four event contracts, their constructors, and their payloads in JSON. The generic
  \<open>Envelope[T]\<close> is instantiated at the four data types, so its \<open>Data\<close> field is a sum of them.
  \<open>uuid.UUID.String\<close> and \<open>uuid.Parse\<close> belong to a third-party package and are arguments; the
  identifier \<open>uuid.NewV7\<close> returns is the argument \<open>newID\<close>. Instants are in UTC, as the clock of
  the service is.
\<close>

definition TypeWagerTransactionProcessed :: string where
  "TypeWagerTransactionProcessed = ''WagerTransactionProcessed''"
definition TypeWagerTransactionRejected :: string where
  "TypeWagerTransactionRejected = ''WagerTransactionRejected''"
definition TypeWalletBalanceChanged :: string where
  "TypeWalletBalanceChanged = ''WalletBalanceChanged''"
definition TypeWagerTransactionPendingReference :: string where
  "TypeWagerTransactionPendingReference = ''WagerTransactionPendingReference''"
definition SchemaVersion :: int where
  "SchemaVersion = 1"
definition CodeInvalidEvent :: string where
  "CodeInvalidEvent = ''INVALID_EVENT''"

record WagerTransactionProcessedData =
  pd_TransactionID :: string
  pd_ProviderID :: string
  pd_ExternalTransactionID :: string
  pd_WalletID :: string
  pd_PlayerID :: string
  pd_RoundID :: string
  pd_GameID :: string
  pd_Kind :: string
  pd_Status :: string
  pd_Money :: money
  pd_Balance :: money

record WagerTransactionRejectedData =
  rd_TransactionID :: string
  rd_ProviderID :: string
  rd_ExternalTransactionID :: string
  rd_WalletID :: string
  rd_PlayerID :: string
  rd_Kind :: string
  rd_Status :: string
  rd_FailureCode :: string
  rd_Money :: money

record WalletBalanceChangedData =
  bd_WalletID :: string
  bd_TransactionID :: string
  bd_Direction :: direction
  bd_Money :: money
  bd_BalanceBefore :: money
  bd_BalanceAfter :: money
  bd_WalletVersion :: int64

record WagerTransactionPendingReferenceData =
  prd_TransactionID :: string
  prd_ProviderID :: string
  prd_ExternalTransactionID :: string
  prd_ReferenceExternalTransactionID :: string
  prd_Attempt :: int64
  prd_NextAttemptAt :: time

datatype event_data =
    ProcessedData WagerTransactionProcessedData
  | RejectedData WagerTransactionRejectedData
  | BalanceData WalletBalanceChangedData
  | PendingData WagerTransactionPendingReferenceData

record Envelope =
  EventID :: string
  EventType :: string
  AggregateID :: string
  CorrelationID :: string
  CausationID :: string
  OccurredAt :: time
  Version :: int
  Data :: event_data

definition event_invalid :: "string \<Rightarrow> goerror" where
  "event_invalid msg = apperr_New KindInvalid CodeInvalidEvent (Text msg)"

definition newEnvelope ::
  "(uuid \<Rightarrow> string) \<Rightarrow> uuid \<Rightarrow> string \<Rightarrow> uuid \<Rightarrow> string \<Rightarrow> string \<Rightarrow> time \<Rightarrow> event_data \<Rightarrow> Envelope result" where
  "newEnvelope ustr newID eventType aggregateID correlationID causationID occurredAt data =
     (if aggregateID = uuid_Nil then Inl (event_invalid ''event aggregateId is required'')
      else if correlationID = '''' then Inl (event_invalid ''event correlationId is required'')
      else if time_IsZero occurredAt then Inl (event_invalid ''event occurredAt is required'')
      else Inr \<lparr>EventID = ustr newID, EventType = eventType, AggregateID = ustr aggregateID,
             CorrelationID = correlationID, CausationID = causationID, OccurredAt = occurredAt,
             Version = SchemaVersion, Data = data\<rparr>)"

definition NewWagerTransactionProcessed ::
  "(uuid \<Rightarrow> string) \<Rightarrow> uuid \<Rightarrow> uuid \<Rightarrow> string \<Rightarrow> string \<Rightarrow> time \<Rightarrow> WagerTransactionProcessedData
     \<Rightarrow> Envelope result" where
  "NewWagerTransactionProcessed ustr newID aggregateID correlationID causationID occurredAt data =
     (if pd_TransactionID data = '''' \<or> pd_WalletID data = '''' \<or> pd_PlayerID data = '''' \<or> pd_Kind data = ''''
      then Inl (event_invalid ''processed event requires transaction, wallet, player and kind'')
      else if \<not> money_IsValid (pd_Money data) \<or> \<not> money_IsValid (pd_Balance data)
      then Inl (event_invalid ''processed event requires money and balance'')
      else newEnvelope ustr newID TypeWagerTransactionProcessed aggregateID correlationID causationID
             occurredAt (ProcessedData data))"

definition NewWagerTransactionRejected ::
  "(uuid \<Rightarrow> string) \<Rightarrow> uuid \<Rightarrow> uuid \<Rightarrow> string \<Rightarrow> string \<Rightarrow> time \<Rightarrow> WagerTransactionRejectedData
     \<Rightarrow> Envelope result" where
  "NewWagerTransactionRejected ustr newID aggregateID correlationID causationID occurredAt data =
     (if rd_TransactionID data = '''' \<or> rd_WalletID data = '''' \<or> rd_FailureCode data = ''''
      then Inl (event_invalid ''rejected event requires transaction, wallet and failure code'')
      else if \<not> money_IsValid (rd_Money data)
      then Inl (event_invalid ''rejected event requires money'')
      else newEnvelope ustr newID TypeWagerTransactionRejected aggregateID correlationID causationID
             occurredAt (RejectedData data))"

definition NewWalletBalanceChanged ::
  "(uuid \<Rightarrow> string) \<Rightarrow> uuid \<Rightarrow> uuid \<Rightarrow> string \<Rightarrow> string \<Rightarrow> time \<Rightarrow> WalletBalanceChangedData
     \<Rightarrow> Envelope result" where
  "NewWalletBalanceChanged ustr newID aggregateID correlationID causationID occurredAt data =
     (if bd_WalletID data = '''' \<or> bd_TransactionID data = ''''
      then Inl (event_invalid ''balance changed event requires wallet and transaction'')
      else if bd_Direction data \<noteq> DirectionDebit \<and> bd_Direction data \<noteq> DirectionCredit
      then Inl (event_invalid ''balance changed event requires a direction'')
      else if \<not> money_IsValid (bd_Money data) \<or> \<not> money_IsValid (bd_BalanceBefore data) \<or>
        \<not> money_IsValid (bd_BalanceAfter data)
      then Inl (event_invalid ''balance changed event requires all amounts'')
      else if sint (bd_WalletVersion data) < 1
      then Inl (event_invalid ''balance changed event requires wallet version >= 1'')
      else newEnvelope ustr newID TypeWalletBalanceChanged aggregateID correlationID causationID
             occurredAt (BalanceData data))"

definition NewWagerTransactionPendingReference ::
  "(uuid \<Rightarrow> string) \<Rightarrow> uuid \<Rightarrow> uuid \<Rightarrow> string \<Rightarrow> string \<Rightarrow> time
     \<Rightarrow> WagerTransactionPendingReferenceData \<Rightarrow> Envelope result" where
  "NewWagerTransactionPendingReference ustr newID aggregateID correlationID causationID occurredAt data =
     (if prd_TransactionID data = '''' \<or> prd_ReferenceExternalTransactionID data = ''''
      then Inl (event_invalid ''pending reference event requires transaction and reference'')
      else newEnvelope ustr newID TypeWagerTransactionPendingReference aggregateID correlationID
             causationID occurredAt (PendingData data))"

subsection \<open>Marshalling\<close>

text \<open>
  \<open>Time.MarshalJSON\<close>: the year must have at most four digits. \<open>json.Marshal\<close> encodes the fields of
  a struct in their order under the names of their tags, leaves out an empty field tagged
  \<open>omitempty\<close>, and stops at the first field whose encoding fails.
\<close>

definition time_marshals :: "time \<Rightarrow> bool" where
  "time_marshals t \<longleftrightarrow>
     (let year = fst (civil_of_day (t div 1000000000 div 86400)) in 0 \<le> year \<and> year \<le> 9999)"

definition time_MarshalJSON :: "time \<Rightarrow> string result" where
  "time_MarshalJSON t =
     (if time_marshals t then Inr ([CHR 0x22] @ Format_RFC3339Nano t @ [CHR 0x22])
      else Inl (LibError ''Time.MarshalJSON: year outside of range [0,9999]''))"

type_synonym members = "(string \<times> string result) list"

fun marshal_members :: "members \<Rightarrow> (string \<times> string) list result" where
  "marshal_members [] = Inr []"
| "marshal_members ((k, Inl e) # ms) = Inl (WrapError ''json: error calling MarshalJSON'' e)"
| "marshal_members ((k, Inr t) # ms) = and_then (marshal_members ms) (\<lambda>rest. Inr ((k, t) # rest))"

definition marshal_struct :: "members \<Rightarrow> string result" where
  "marshal_struct ms = and_then (marshal_members ms) (\<lambda>ts. Inr (json_object ts))"

definition str_field :: "string \<Rightarrow> string \<Rightarrow> members" where
  "str_field k v = [(k, Inr (json_string v))]"

definition omitempty :: "string \<Rightarrow> string \<Rightarrow> members" where
  "omitempty k v = (if v = [] then [] else str_field k v)"

definition money_field :: "string \<Rightarrow> money \<Rightarrow> members" where
  "money_field k m = [(k, money_MarshalJSON m)]"

definition time_field :: "string \<Rightarrow> time \<Rightarrow> members" where
  "time_field k t = [(k, time_MarshalJSON t)]"

definition int_field :: "string \<Rightarrow> int \<Rightarrow> members" where
  "int_field k n = [(k, Inr (int_str n))]"

definition processed_members :: "WagerTransactionProcessedData \<Rightarrow> members" where
  "processed_members d =
     str_field ''transactionId'' (pd_TransactionID d) @ omitempty ''providerId'' (pd_ProviderID d) @
     omitempty ''externalTransactionId'' (pd_ExternalTransactionID d) @ str_field ''walletId'' (pd_WalletID d) @
     str_field ''playerId'' (pd_PlayerID d) @ omitempty ''roundId'' (pd_RoundID d) @ omitempty ''gameId'' (pd_GameID d) @
     str_field ''kind'' (pd_Kind d) @ str_field ''status'' (pd_Status d) @ money_field ''money'' (pd_Money d) @
     money_field ''balance'' (pd_Balance d)"

definition rejected_members :: "WagerTransactionRejectedData \<Rightarrow> members" where
  "rejected_members d =
     str_field ''transactionId'' (rd_TransactionID d) @ omitempty ''providerId'' (rd_ProviderID d) @
     omitempty ''externalTransactionId'' (rd_ExternalTransactionID d) @ str_field ''walletId'' (rd_WalletID d) @
     str_field ''playerId'' (rd_PlayerID d) @ str_field ''kind'' (rd_Kind d) @ str_field ''status'' (rd_Status d) @
     str_field ''failureCode'' (rd_FailureCode d) @ money_field ''money'' (rd_Money d)"

definition balance_members :: "WalletBalanceChangedData \<Rightarrow> members" where
  "balance_members d =
     str_field ''walletId'' (bd_WalletID d) @ str_field ''transactionId'' (bd_TransactionID d) @
     str_field ''direction'' (direction_string (bd_Direction d)) @ money_field ''money'' (bd_Money d) @
     money_field ''balanceBefore'' (bd_BalanceBefore d) @ money_field ''balanceAfter'' (bd_BalanceAfter d) @
     int_field ''walletVersion'' (sint (bd_WalletVersion d))"

definition pending_members :: "WagerTransactionPendingReferenceData \<Rightarrow> members" where
  "pending_members d =
     str_field ''transactionId'' (prd_TransactionID d) @ omitempty ''providerId'' (prd_ProviderID d) @
     omitempty ''externalTransactionId'' (prd_ExternalTransactionID d) @
     str_field ''referenceExternalTransactionId'' (prd_ReferenceExternalTransactionID d) @
     int_field ''attempt'' (sint (prd_Attempt d)) @ time_field ''nextAttemptAt'' (prd_NextAttemptAt d)"

fun marshal_data :: "event_data \<Rightarrow> string result" where
  "marshal_data (ProcessedData d) = marshal_struct (processed_members d)"
| "marshal_data (RejectedData d) = marshal_struct (rejected_members d)"
| "marshal_data (BalanceData d) = marshal_struct (balance_members d)"
| "marshal_data (PendingData d) = marshal_struct (pending_members d)"

text \<open>The text of an event: the fields before its data, and its data, whose error is the error of the whole.\<close>

definition envelope_members :: "Envelope \<Rightarrow> members" where
  "envelope_members e =
     str_field ''eventId'' (EventID e) @ str_field ''eventType'' (EventType e) @
     str_field ''aggregateId'' (AggregateID e) @ str_field ''correlationId'' (CorrelationID e) @
     omitempty ''causationId'' (CausationID e) @ time_field ''occurredAt'' (OccurredAt e) @
     int_field ''version'' (Version e)"

definition Envelope_Marshal :: "Envelope \<Rightarrow> string result" where
  "Envelope_Marshal e =
     and_then (marshal_members (envelope_members e)) (\<lambda>header.
     and_then (marshal_data (Data e)) (\<lambda>data.
     Inr (json_object (header @ [(''data'', data)]))))"

text \<open>\<open>ParseEventID\<close> decodes the one field it needs.\<close>

definition ParseEventID :: "(string \<Rightarrow> uuid result) \<Rightarrow> string \<Rightarrow> uuid result" where
  "ParseEventID uparse payload =
     (case json_parse payload of
        None \<Rightarrow> Inl json_error
      | Some v \<Rightarrow>
          (case decode_struct False [(''eventId'', decode_string (\<lambda>s _. s))] v [] of
             None \<Rightarrow> Inl json_error
           | Some eventID \<Rightarrow> uparse eventID))"

subsection \<open>Lemmas\<close>

named_theorems event_defs

lemmas event_types = TypeWagerTransactionProcessed_def TypeWagerTransactionRejected_def
  TypeWalletBalanceChanged_def TypeWagerTransactionPendingReference_def

lemmas [event_defs] = NewWagerTransactionProcessed_def NewWagerTransactionRejected_def
  NewWalletBalanceChanged_def NewWagerTransactionPendingReference_def

text \<open>Which data a constructor accepts.\<close>

fun data_ok :: "event_data \<Rightarrow> bool" where
  "data_ok (ProcessedData d) \<longleftrightarrow> pd_TransactionID d \<noteq> '''' \<and> pd_WalletID d \<noteq> '''' \<and>
     pd_PlayerID d \<noteq> '''' \<and> pd_Kind d \<noteq> '''' \<and> money_IsValid (pd_Money d) \<and> money_IsValid (pd_Balance d)"
| "data_ok (RejectedData d) \<longleftrightarrow> rd_TransactionID d \<noteq> '''' \<and> rd_WalletID d \<noteq> '''' \<and>
     rd_FailureCode d \<noteq> '''' \<and> money_IsValid (rd_Money d)"
| "data_ok (BalanceData d) \<longleftrightarrow> bd_WalletID d \<noteq> '''' \<and> bd_TransactionID d \<noteq> '''' \<and>
     (bd_Direction d = DirectionDebit \<or> bd_Direction d = DirectionCredit) \<and>
     money_IsValid (bd_Money d) \<and> money_IsValid (bd_BalanceBefore d) \<and>
     money_IsValid (bd_BalanceAfter d) \<and> 1 \<le> sint (bd_WalletVersion d)"
| "data_ok (PendingData d) \<longleftrightarrow> prd_TransactionID d \<noteq> '''' \<and>
     prd_ReferenceExternalTransactionID d \<noteq> ''''"

fun data_type :: "event_data \<Rightarrow> string" where
  "data_type (ProcessedData _) = TypeWagerTransactionProcessed"
| "data_type (RejectedData _) = TypeWagerTransactionRejected"
| "data_type (BalanceData _) = TypeWalletBalanceChanged"
| "data_type (PendingData _) = TypeWagerTransactionPendingReference"

text \<open>The constructor that belongs to a kind of data.\<close>

fun new_event ::
  "(uuid \<Rightarrow> string) \<Rightarrow> uuid \<Rightarrow> uuid \<Rightarrow> string \<Rightarrow> string \<Rightarrow> time \<Rightarrow> event_data \<Rightarrow> Envelope result" where
  "new_event s n a c k t (ProcessedData d) = NewWagerTransactionProcessed s n a c k t d"
| "new_event s n a c k t (RejectedData d) = NewWagerTransactionRejected s n a c k t d"
| "new_event s n a c k t (BalanceData d) = NewWalletBalanceChanged s n a c k t d"
| "new_event s n a c k t (PendingData d) = NewWagerTransactionPendingReference s n a c k t d"

lemma new_event_ok_iff:
  "new_event s n a c k t d = Inr e \<longleftrightarrow>
     data_ok d \<and> a \<noteq> uuid_Nil \<and> c \<noteq> '''' \<and> t \<noteq> 0 \<and>
     e = \<lparr>EventID = s n, EventType = data_type d, AggregateID = s a, CorrelationID = c,
          CausationID = k, OccurredAt = t, Version = 1, Data = d\<rparr>"
  by (cases d) (auto simp: event_defs newEnvelope_def time_IsZero_def SchemaVersion_def)

text \<open>A concrete printer and parser of identifiers for the witnesses: decimal digits.\<close>

definition decimal_uuid :: "uuid \<Rightarrow> string" where
  "decimal_uuid u = nat_str (unat u)"

definition parse_decimal_uuid :: "string \<Rightarrow> uuid result" where
  "parse_decimal_uuid s = Inr (of_nat (digits_value s))"

lemma parse_decimal_uuid: "parse_decimal_uuid (decimal_uuid u) = Inr u"
  by (simp add: parse_decimal_uuid_def decimal_uuid_def)

definition sample_data :: event_data where
  "sample_data = RejectedData \<lparr>rd_TransactionID = ''3'', rd_ProviderID = ''p'',
     rd_ExternalTransactionID = ''x'', rd_WalletID = ''1'', rd_PlayerID = ''2'', rd_Kind = ''BET'',
     rd_Status = ''REJECTED'', rd_FailureCode = ''INSUFFICIENT_FUNDS'',
     rd_Money = \<lparr>m_amount = 8000, m_currency = ''BRL''\<rparr>\<rparr>"

subsection \<open>Reading a payload\<close>

text \<open>The value a text denotes, with its keys and strings unquoted.\<close>

fun json_plain :: "json \<Rightarrow> json" where
  "json_plain (JString s) = JString (json_unquote s)"
| "json_plain (JArray vs) = JArray (map json_plain vs)"
| "json_plain (JObject ms) = JObject (map (\<lambda>m. (json_unquote (fst m), json_plain (snd m))) ms)"
| "json_plain v = v"

definition json_value :: "string \<Rightarrow> json option" where
  "json_value text = map_option json_plain (json_parse text)"

subsection \<open>What a payload denotes\<close>

text \<open>A field whose encoding succeeds with a text that renders the value.\<close>

definition encodes :: "members \<Rightarrow> (string \<times> json) list \<Rightarrow> bool" where
  "encodes ms js \<longleftrightarrow>
     list_all2 (\<lambda>(k, r) (k', v). k' = json_chars k \<and> (\<exists>t. r = Inr t \<and> renders 1 t v)) ms js"

lemma encodes_append: "encodes xs js \<Longrightarrow> encodes ys ks \<Longrightarrow> encodes (xs @ ys) (js @ ks)"
  unfolding encodes_def by (rule list_all2_appendI)

definition string_json :: "string \<Rightarrow> string \<Rightarrow> (string \<times> json) list" where
  "string_json k v = [(json_chars k, JString (json_chars v))]"

lemma encodes_str: "encodes (str_field k v) (string_json k v)"
  by (simp add: encodes_def str_field_def string_json_def renders_string)

lemma encodes_omitempty: "encodes (omitempty k v) (if v = [] then [] else string_json k v)"
  using encodes_str [of k v] by (simp add: omitempty_def) (simp add: encodes_def)

lemma encodes_money: "money_IsValid m \<Longrightarrow> encodes (money_field k m) [(json_chars k, money_json m)]"
  by (erule renders_money) (simp add: encodes_def money_field_def)

lemma encodes_time:
  "time_marshals t \<Longrightarrow> encodes (time_field k t) (string_json k (Format_RFC3339Nano t))"
  using renders_string [of 1 "Format_RFC3339Nano t"]
  by (simp add: encodes_def time_field_def time_MarshalJSON_def string_json_def json_string_def json_chars_Format)

lemma encodes_int: "encodes (int_field k n) [(json_chars k, JNumber (int_str n))]"
  by (simp add: encodes_def int_field_def renders_int)

lemma marshal_encoded:
  "encodes ms js \<Longrightarrow> \<exists>ts. marshal_members ms = Inr ts \<and>
     list_all2 (\<lambda>(k, t) (k', v). k' = json_chars k \<and> renders 1 t v) ts js"
proof (induction ms arbitrary: js rule: marshal_members.induct)
  case (3 k t ms)
  then obtain v js' where js: "js = (json_chars k, v) # js'" and v: "renders 1 t v" and e: "encodes ms js'"
    by (auto simp: encodes_def list_all2_Cons1)
  from "3.IH" [OF e] show ?case using v js by auto
qed (auto simp: encodes_def list_all2_Cons1)

lemma marshal_struct_renders:
  assumes "encodes ms js"
  obtains t where "marshal_struct ms = Inr t" and "renders 2 t (JObject js)"
proof -
  obtain ts where ts: "marshal_members ms = Inr ts"
    "list_all2 (\<lambda>(k, t) (k', v). k' = json_chars k \<and> renders 1 t v) ts js"
    using marshal_encoded [OF assms] by blast
  show thesis
    using renders_object [OF ts(2)] ts(1) by (intro that) (simp_all add: marshal_struct_def numeral_2_eq_2)
qed

text \<open>
  The fields of a contract by name and value: a text (an optional one is absent when it is empty),
  an amount, a number.
\<close>

definition plain_members :: "(string \<times> json) list \<Rightarrow> (string \<times> json) list" where
  "plain_members js = map (\<lambda>m. (json_unquote (fst m), json_plain (snd m))) js"

definition member :: "string \<Rightarrow> string \<Rightarrow> (string \<times> json) list" where
  "member k v = [(k, JString v)]"

definition optional :: "string \<Rightarrow> string \<Rightarrow> (string \<times> json) list" where
  "optional k v = (if v = [] then [] else [(k, JString v)])"

definition amount :: "string \<Rightarrow> money \<Rightarrow> (string \<times> json) list" where
  "amount k m = [(k, JObject [(''amount'', JString (AmountString m)), (''currency'', JString (m_currency m))])]"

definition number :: "string \<Rightarrow> int \<Rightarrow> (string \<times> json) list" where
  "number k n = [(k, JNumber (int_str n))]"

text \<open>The data of each kind of event.\<close>

primrec contract :: "event_data \<Rightarrow> (string \<times> json) list" where
  "contract (ProcessedData d) =
     member ''transactionId'' (pd_TransactionID d) @ optional ''providerId'' (pd_ProviderID d) @
     optional ''externalTransactionId'' (pd_ExternalTransactionID d) @ member ''walletId'' (pd_WalletID d) @
     member ''playerId'' (pd_PlayerID d) @ optional ''roundId'' (pd_RoundID d) @ optional ''gameId'' (pd_GameID d) @
     member ''kind'' (pd_Kind d) @ member ''status'' (pd_Status d) @ amount ''money'' (pd_Money d) @
     amount ''balance'' (pd_Balance d)"
| "contract (RejectedData d) =
     member ''transactionId'' (rd_TransactionID d) @ optional ''providerId'' (rd_ProviderID d) @
     optional ''externalTransactionId'' (rd_ExternalTransactionID d) @ member ''walletId'' (rd_WalletID d) @
     member ''playerId'' (rd_PlayerID d) @ member ''kind'' (rd_Kind d) @ member ''status'' (rd_Status d) @
     member ''failureCode'' (rd_FailureCode d) @ amount ''money'' (rd_Money d)"
| "contract (BalanceData d) =
     member ''walletId'' (bd_WalletID d) @ member ''transactionId'' (bd_TransactionID d) @
     member ''direction'' (if bd_Direction d = DirectionDebit then ''DEBIT'' else ''CREDIT'') @
     amount ''money'' (bd_Money d) @ amount ''balanceBefore'' (bd_BalanceBefore d) @
     amount ''balanceAfter'' (bd_BalanceAfter d) @ number ''walletVersion'' (sint (bd_WalletVersion d))"
| "contract (PendingData d) =
     member ''transactionId'' (prd_TransactionID d) @ optional ''providerId'' (prd_ProviderID d) @
     optional ''externalTransactionId'' (prd_ExternalTransactionID d) @
     member ''referenceExternalTransactionId'' (prd_ReferenceExternalTransactionID d) @
     number ''attempt'' (sint (prd_Attempt d)) @ member ''nextAttemptAt'' (Format_RFC3339Nano (prd_NextAttemptAt d))"

fun data_instants :: "event_data \<Rightarrow> time list" where
  "data_instants (PendingData d) = [prd_NextAttemptAt d]"
| "data_instants _ = []"

fun data_texts :: "event_data \<Rightarrow> string list" where
  "data_texts (ProcessedData d) = [pd_TransactionID d, pd_ProviderID d, pd_ExternalTransactionID d, pd_WalletID d,
     pd_PlayerID d, pd_RoundID d, pd_GameID d, pd_Kind d, pd_Status d, m_currency (pd_Money d), m_currency (pd_Balance d)]"
| "data_texts (RejectedData d) = [rd_TransactionID d, rd_ProviderID d, rd_ExternalTransactionID d, rd_WalletID d,
     rd_PlayerID d, rd_Kind d, rd_Status d, rd_FailureCode d, m_currency (rd_Money d)]"
| "data_texts (BalanceData d) = [bd_WalletID d, bd_TransactionID d, m_currency (bd_Money d),
     m_currency (bd_BalanceBefore d), m_currency (bd_BalanceAfter d)]"
| "data_texts (PendingData d) = [prd_TransactionID d, prd_ProviderID d, prd_ExternalTransactionID d,
     prd_ReferenceExternalTransactionID d]"

text \<open>The fields of a struct are encoded so that they are read as these members.\<close>

definition reads_as :: "members \<Rightarrow> (string \<times> json) list \<Rightarrow> bool" where
  "reads_as ms ps \<longleftrightarrow> (\<exists>js. encodes ms js \<and> plain_members js = ps)"

definition ascii :: "string \<Rightarrow> bool" where
  "ascii s \<longleftrightarrow> (\<forall>c \<in> set s. byte c < 128)"

lemma reads_append: "reads_as xs ps \<Longrightarrow> reads_as ys qs \<Longrightarrow> reads_as (xs @ ys) (ps @ qs)"
  unfolding reads_as_def
  by (elim exE conjE, rule exI, rule conjI, erule (1) encodes_append) (simp add: plain_members_def)

lemma reads_text: "valid_utf8 v \<Longrightarrow> ascii k \<Longrightarrow> reads_as (str_field k v) (member k v)"
  unfolding reads_as_def
  by (rule exI, rule conjI, rule encodes_str)
    (simp add: plain_members_def string_json_def member_def ascii_def json_unquote_json_chars)

lemma reads_optional: "valid_utf8 v \<Longrightarrow> ascii k \<Longrightarrow> reads_as (omitempty k v) (optional k v)"
  unfolding reads_as_def
  by (rule exI, rule conjI, rule encodes_omitempty)
    (simp add: plain_members_def string_json_def optional_def ascii_def json_unquote_json_chars)

lemma reads_amount: "money_IsValid m \<Longrightarrow> valid_utf8 (m_currency m) \<Longrightarrow> ascii k \<Longrightarrow> reads_as (money_field k m) (amount k m)"
  unfolding reads_as_def
  by (rule exI, rule conjI, erule encodes_money)
    (simp add: plain_members_def amount_def ascii_def money_json_def json_unquote_json_chars valid_utf8_AmountString byte_def)

lemma reads_time: "time_marshals t \<Longrightarrow> ascii k \<Longrightarrow> reads_as (time_field k t) (member k (Format_RFC3339Nano t))"
  unfolding reads_as_def
  by (rule exI, rule conjI, erule encodes_time)
    (simp add: plain_members_def string_json_def member_def ascii_def json_unquote_json_chars valid_utf8_Format)

lemma reads_number: "ascii k \<Longrightarrow> reads_as (int_field k n) (number k n)"
  unfolding reads_as_def
  by (rule exI, rule conjI, rule encodes_int) (simp add: plain_members_def number_def ascii_def)

lemmas reads_rules = reads_append reads_text reads_optional reads_amount reads_time reads_number

lemma marshal_data_reads:
  assumes "data_ok d" and "list_all valid_utf8 (data_texts d)" and "list_all time_marshals (data_instants d)"
  shows "\<exists>t js. marshal_data d = Inr t \<and> renders 2 t (JObject js) \<and> plain_members js = contract d"
proof -
  have struct: "\<exists>t js. marshal_struct ms = Inr t \<and> renders 2 t (JObject js) \<and> plain_members js = ps"
    if "reads_as ms ps" for ms ps
    using that unfolding reads_as_def by (elim exE conjE marshal_struct_renders) blast
  have utf8: "valid_utf8 ''DEBIT''" "valid_utf8 ''CREDIT''"
    by (rule valid_utf8_ascii; simp add: byte_def)+
  show ?thesis
  proof (cases d)
    case (ProcessedData p)
    then show ?thesis using assms unfolding ProcessedData marshal_data.simps contract.simps processed_members_def
      by (intro struct reads_rules) (simp_all add: ascii_def byte_def)
  next
    case (RejectedData p)
    then show ?thesis using assms unfolding RejectedData marshal_data.simps contract.simps rejected_members_def
      by (intro struct reads_rules) (simp_all add: ascii_def byte_def)
  next
    case (BalanceData p)
    then have "direction_string (bd_Direction p) = (if bd_Direction p = DirectionDebit then ''DEBIT'' else ''CREDIT'')"
      using assms(1) by auto
    then show ?thesis using assms utf8 unfolding BalanceData marshal_data.simps contract.simps balance_members_def
      by (simp only:) (intro struct reads_rules; simp add: ascii_def byte_def)
  next
    case (PendingData p)
    then show ?thesis using assms unfolding PendingData marshal_data.simps contract.simps pending_members_def
      by (intro struct reads_rules) (simp_all add: ascii_def byte_def)
  qed
qed
definition header_members :: "Envelope \<Rightarrow> (string \<times> json) list" where
  "header_members e =
     member ''eventId'' (EventID e) @ member ''eventType'' (EventType e) @ member ''aggregateId'' (AggregateID e) @
     member ''correlationId'' (CorrelationID e) @ optional ''causationId'' (CausationID e) @
     member ''occurredAt'' (Format_RFC3339Nano (OccurredAt e)) @ number ''version'' (Version e)"

lemma Envelope_Marshal_reads:
  assumes "data_ok (Data e)" and "list_all valid_utf8 (data_texts (Data e))"
    and "list_all time_marshals (OccurredAt e # data_instants (Data e))"
    and "list_all valid_utf8 [EventID e, EventType e, AggregateID e, CorrelationID e, CausationID e]"
  shows "\<exists>payload js ds. Envelope_Marshal e = Inr payload \<and>
    json_parse payload = Some (JObject (js @ [(json_chars ''data'', JObject ds)])) \<and>
    plain_members js = header_members e \<and> plain_members ds = contract (Data e)"
proof -
  obtain t ds where t: "marshal_data (Data e) = Inr t" "renders 2 t (JObject ds)" "plain_members ds = contract (Data e)"
    using marshal_data_reads [OF assms(1,2)] assms(3) by auto
  have "reads_as (str_field ''eventId'' (EventID e) @ str_field ''eventType'' (EventType e) @
      str_field ''aggregateId'' (AggregateID e) @ str_field ''correlationId'' (CorrelationID e) @
      omitempty ''causationId'' (CausationID e) @ time_field ''occurredAt'' (OccurredAt e) @
      int_field ''version'' (Version e)) (header_members e)"
    unfolding header_members_def using assms(3,4)
    by (intro reads_rules) (simp_all add: ascii_def byte_def)
  then obtain js ts where js: "plain_members js = header_members e"
    and ts: "marshal_members (str_field ''eventId'' (EventID e) @ str_field ''eventType'' (EventType e) @
      str_field ''aggregateId'' (AggregateID e) @ str_field ''correlationId'' (CorrelationID e) @
      omitempty ''causationId'' (CausationID e) @ time_field ''occurredAt'' (OccurredAt e) @
      int_field ''version'' (Version e)) = Inr ts"
    and r: "list_all2 (\<lambda>(k, t) (k', v). k' = json_chars k \<and> renders 1 t v) ts js"
    unfolding reads_as_def by (auto dest: marshal_encoded)
  have "list_all2 (\<lambda>(k, t) (k', v). k' = json_chars k \<and> renders 2 t v) ts js"
    using r by (rule list_all2_mono) (auto intro: renders_mono)
  then have "list_all2 (\<lambda>(k, t) (k', v). k' = json_chars k \<and> renders 2 t v) (ts @ [(''data'', t)])
      (js @ [(json_chars ''data'', JObject ds)])"
    using t(2) by (intro list_all2_appendI) simp_all
  from json_parse_renders [OF renders_object [OF this]] show ?thesis
    using js t by (intro exI [of _ "json_object (ts @ [(''data'', t)])"] exI [of _ js] exI [of _ ds])
      (simp add: Envelope_Marshal_def envelope_members_def ts)
qed

lemma decode_skips:
  "\<forall>m \<in> set ms. json_fold (json_unquote (fst m)) \<noteq> json_fold nm \<Longrightarrow> decode_members False [(nm, f)] ms a = Some a"
  by (induction ms) (auto simp: find_field_def)

lemma ParseEventID_reads:
  assumes "json_parse payload = Some (JObject ms)" and "plain_members ms = (''eventId'', JString i) # ps"
    and "\<forall>p \<in> set ps. json_fold (fst p) \<noteq> json_fold ''eventId''"
  shows "ParseEventID uparse payload = uparse i"
proof -
  obtain m ms' where ms: "ms = m # ms'" and k: "json_unquote (fst m) = ''eventId''" and v: "json_plain (snd m) = JString i"
    and ps: "ps = plain_members ms'"
    using assms(2) by (cases ms) (auto simp: plain_members_def)
  obtain s where s: "snd m = JString s" "json_unquote s = i" using v by (cases "snd m") auto
  have "\<forall>m \<in> set ms'. json_fold (json_unquote (fst m)) \<noteq> json_fold ''eventId''"
    using assms(3) by (simp add: ps plain_members_def)
  from decode_skips [OF this, of _ i] show ?thesis
    using s k by (cases m) (simp add: ParseEventID_def assms(1) ms find_field_def decode_string_def)
qed

subsection \<open>Properties\<close>

text \<open>
  (C31) The payload of every event follows its contract. Each constructor returns an event exactly
  when the data it needs are present and valid; the text that \<open>Marshal\<close> then produces is JSON, and a
  reader finds in it, under the names of the contract and in their order, the identifier of the
  event, the type that belongs to its data, the aggregate, the correlation, the causation when
  there is one, the instant in RFC 3339, version 1, and the fields of the data with their amounts
  as decimal strings, optional ones only when they are not empty; and \<open>ParseEventID\<close> reads from it
  the identifier the event was created with. The texts must be UTF-8, the years have four digits,
  and the identifier library must parse what it prints.
\<close>

theorem events_constructed_marshal:
  assumes "\<And>u. uparse (ustr u) = Inr u" and "\<And>u. valid_utf8 (ustr u)"
    and "list_all valid_utf8 (c # k # data_texts d)" and "list_all time_marshals (t # data_instants d)"
  shows "((\<exists>e. new_event ustr n a c k t d = Inr e) \<longleftrightarrow>
       data_ok d \<and> a \<noteq> uuid_Nil \<and> c \<noteq> '''' \<and> t \<noteq> 0) \<and>
     (\<forall>e. new_event ustr n a c k t d = Inr e \<longrightarrow>
       (\<exists>payload. Envelope_Marshal e = Inr payload \<and> ParseEventID uparse payload = Inr n \<and>
         json_value payload = Some (JObject
           ([(''eventId'', JString (ustr n)),
             (''eventType'', JString (case d of ProcessedData _ \<Rightarrow> ''WagerTransactionProcessed''
                | RejectedData _ \<Rightarrow> ''WagerTransactionRejected'' | BalanceData _ \<Rightarrow> ''WalletBalanceChanged''
                | PendingData _ \<Rightarrow> ''WagerTransactionPendingReference'')),
             (''aggregateId'', JString (ustr a)), (''correlationId'', JString c)] @
            (if k = [] then [] else [(''causationId'', JString k)]) @
            [(''occurredAt'', JString (Format_RFC3339Nano t)), (''version'', JNumber ''1''),
             (''data'', JObject (contract d))]))))"
    (is "_ \<and> (\<forall>e. _ \<longrightarrow> (\<exists>payload. _ \<and> _ \<and> json_value payload = Some (JObject ?fields)))")
proof (intro conjI allI impI)
  show "(\<exists>e. new_event ustr n a c k t d = Inr e) \<longleftrightarrow> data_ok d \<and> a \<noteq> uuid_Nil \<and> c \<noteq> '''' \<and> t \<noteq> 0"
    by (simp add: new_event_ok_iff)
  fix e assume "new_event ustr n a c k t d = Inr e"
  then have ok: "data_ok d" and e: "e = \<lparr>EventID = ustr n, EventType = data_type d, AggregateID = ustr a,
      CorrelationID = c, CausationID = k, OccurredAt = t, Version = 1, Data = d\<rparr>"
    by (simp_all add: new_event_ok_iff)
  have "valid_utf8 (data_type d)"
    by (rule valid_utf8_ascii) (cases d; simp add: event_types byte_def)
  then obtain payload js ds where p: "Envelope_Marshal e = Inr payload"
    "json_parse payload = Some (JObject (js @ [(json_chars ''data'', JObject ds)]))"
    "plain_members js = header_members e" "plain_members ds = contract d"
    using Envelope_Marshal_reads [of e] assms ok by (auto simp: e)
  have fields: "plain_members (js @ [(json_chars ''data'', JObject ds)]) = ?fields"
  proof -
    have "int_str 1 = ''1''" by code_simp
    then have "header_members e @ [(''data'', JObject (contract d))] = ?fields"
      by (cases d) (simp_all add: header_members_def e member_def optional_def number_def event_types)
    then show ?thesis using p(3,4) by (simp add: plain_members_def byte_def)
  qed
  have "ParseEventID uparse payload = uparse (ustr n)"
    by (rule ParseEventID_reads [OF p(2) fields [simplified]]) (auto simp: byte_def)
  moreover have "json_value payload = Some (JObject ?fields)"
    using fields by (simp add: json_value_def p(2) plain_members_def del: map_append)
  ultimately show "\<exists>payload. Envelope_Marshal e = Inr payload \<and> ParseEventID uparse payload = Inr n \<and>
      json_value payload = Some (JObject ?fields)"
    using p(1) assms(1) by auto
qed

lemma valid_utf8_decimal: "valid_utf8 (decimal_uuid u)"
  using nat_str_digits [of "unat u"] by (intro valid_utf8_ascii) (auto simp: decimal_uuid_def list_all_iff is_digit_ascii)

theorem events_constructed_marshal_witness:
  "\<exists>e payload. new_event decimal_uuid 9 3 ''c'' [] 5 sample_data = Inr e \<and> Envelope_Marshal e = Inr payload \<and>
     ParseEventID parse_decimal_uuid payload = Inr 9"
proof -
  have utf8: "list_all valid_utf8 (''c'' # [] # data_texts sample_data)"
    by (simp add: sample_data_def) (intro conjI valid_utf8_ascii; simp add: byte_def)
  have ok: "list_all time_marshals (5 # data_instants sample_data)"
    by (simp add: sample_data_def) code_simp
  note run = events_constructed_marshal [OF parse_decimal_uuid valid_utf8_decimal utf8 ok, of 9 3]
  have "\<exists>e. new_event decimal_uuid 9 3 ''c'' [] 5 sample_data = Inr e"
    using run by (auto simp: sample_data_def uuid_Nil_def money_defs)
  with run show ?thesis by blast
qed

end
