(* ===== verification/Store.thy ===== *)
theory Store
  imports Events
begin

section \<open>The database: tables, constraints and statements (migrations/0001_init.up.sql)\<close>

text \<open>
  The five tables of the schema as lists of rows in insertion order, and one function per SQL
  statement that the repositories of internal/adapters/postgres issue for wallets,
  transactions, the ledger and the outbox. A statement returns its result and the new database,
  or the error PostgreSQL reports, which leaves the database as it was. A row is checked the
  way PostgreSQL does it: the CHECK constraints in the order of their names, then the unique
  indexes in the order of their creation, then the foreign keys.

  A CHAR or TEXT column is a string, a nullable column an option, a BIGINT a 64-bit word; a
  TIMESTAMPTZ keeps the instant (PostgreSQL's rounding to microseconds is not modelled), the payload
  of an event is its JSON text as it was written (PostgreSQL's JSONB normalises the order of keys and
  the spaces), and an error text is kept as the error it renders. What
  else a database may report (a lost connection, a deadlock, a string it cannot store) is the
  fault a statement may return in the theory of transactions.
\<close>

subsection \<open>Rows\<close>

record wallet_row =
  wr_id :: uuid
  wr_player_id :: uuid
  wr_currency :: string
  wr_balance_minor :: int64
  wr_version :: int64
  wr_created_at :: time
  wr_updated_at :: time

record tx_row =
  tr_id :: uuid
  tr_origin :: string
  tr_provider_id :: "string option"
  tr_external_transaction_id :: "string option"
  tr_idempotency_key :: "string option"
  tr_payload_hash :: "string option"
  tr_wallet_id :: uuid
  tr_player_id :: uuid
  tr_round_id :: "string option"
  tr_game_id :: "string option"
  tr_kind :: string
  tr_amount_minor :: int64
  tr_currency :: string
  tr_reference_external_transaction_id :: "string option"
  tr_reference_transaction_id :: "uuid option"
  tr_status :: string
  tr_failure_code :: "string option"
  tr_result_balance_minor :: "int64 option"
  tr_attempts :: int64
  tr_next_attempt_at :: "time option"
  tr_created_at :: time
  tr_updated_at :: time

record ledger_row =
  lr_id :: uuid
  lr_wallet_id :: uuid
  lr_transaction_id :: uuid
  lr_direction :: string
  lr_amount_minor :: int64
  lr_currency :: string
  lr_balance_before_minor :: int64
  lr_balance_after_minor :: int64
  lr_created_at :: time

record inbox_row =
  ir_id :: uuid
  ir_consumer_name :: string
  ir_message_id :: string
  ir_payload_hash :: string
  ir_status :: string
  ir_received_at :: time
  ir_completed_at :: "time option"

record outbox_row =
  or_event_id :: uuid
  or_aggregate_id :: uuid
  or_event_type :: string
  or_payload :: string
  or_occurred_at :: time
  or_attempts :: int64
  or_next_attempt_at :: time
  or_published_at :: "time option"
  or_locked_by :: "string option"
  or_locked_at :: "time option"
  or_last_error :: "goerror option"
  or_created_at :: time

record db =
  db_wallets :: "wallet_row list"
  db_transactions :: "tx_row list"
  db_ledger :: "ledger_row list"
  db_inbox :: "inbox_row list"
  db_outbox :: "outbox_row list"

text \<open>\<open>ports.OutboxEvent\<close>, a row of the outbox as the services see it.\<close>

record OutboxEvent =
  oe_EventID :: uuid
  oe_AggregateID :: uuid
  oe_EventType :: string
  oe_Payload :: string
  oe_OccurredAt :: time
  oe_Attempts :: int64
  oe_NextAttemptAt :: time

subsection \<open>Constraints\<close>

text \<open>
  A CHECK is its name with its truth on the row, a unique index its name with whether another
  row has the key, a foreign key its name with whether the referenced row exists.
\<close>

definition violation ::
  "(string \<times> bool) list \<Rightarrow> (string \<times> bool) list \<Rightarrow> (string \<times> bool) list \<Rightarrow> goerror option" where
  "violation checks uniques fks =
     (case find (\<lambda>c. \<not> snd c) checks of
        Some (n, _) \<Rightarrow> Some (PgError ''23514'' n)
      | None \<Rightarrow>
          (case find snd uniques of
             Some (n, _) \<Rightarrow> Some (PgError ''23505'' n)
           | None \<Rightarrow>
               (case find (\<lambda>c. \<not> snd c) fks of
                  Some (n, _) \<Rightarrow> Some (PgError ''23503'' n)
                | None \<Rightarrow> None)))"

definition wallet_checks :: "wallet_row \<Rightarrow> (string \<times> bool) list" where
  "wallet_checks r =
     [(''wallets_balance_non_negative'', 0 \<le> sint (wr_balance_minor r)),
      (''wallets_currency_iso'', currencyPattern (wr_currency r)),
      (''wallets_updated_after_created'', wr_created_at r \<le> wr_updated_at r),
      (''wallets_version_positive'', 1 \<le> sint (wr_version r))]"

definition wallet_uniques :: "wallet_row list \<Rightarrow> wallet_row \<Rightarrow> (string \<times> bool) list" where
  "wallet_uniques rs r =
     [(''wallets_pkey'', \<exists>q \<in> set rs. wr_id q = wr_id r),
      (''wallets_player_currency_unique'',
        \<exists>q \<in> set rs. wr_player_id q = wr_player_id r \<and> wr_currency q = wr_currency r)]"

definition reversal_kinds :: "string list" where
  "reversal_kinds = [''REFUND'', ''ROLLBACK'']"

definition pending_statuses :: "string list" where
  "pending_statuses = [''PENDING'', ''PENDING_REFERENCE'']"

definition tx_checks :: "tx_row \<Rightarrow> (string \<times> bool) list" where
  "tx_checks r =
     [(''wager_tx_amount_by_kind'', (tr_kind r = ''LOSS'') = (tr_amount_minor r = 0)),
      (''wager_tx_attempts_non_negative'', 0 \<le> sint (tr_attempts r)),
      (''wager_tx_currency_iso'', currencyPattern (tr_currency r)),
      (''wager_tx_failure_code_required'',
        (tr_status r \<in> set [''REJECTED'', ''FAILED'']) = (tr_failure_code r \<noteq> None)),
      (''wager_tx_internal_is_opening'',
        tr_origin r \<noteq> ''INTERNAL'' \<or> tr_kind r = ''OPENING'' \<and> tr_status r = ''PROCESSED''),
      (''wager_tx_kind'',
        tr_kind r \<in> set [''OPENING'', ''BET'', ''WIN'', ''LOSS'', ''REFUND'', ''ROLLBACK'']),
      (''wager_tx_origin'', tr_origin r \<in> set [''INTERNAL'', ''EXTERNAL'']),
      (''wager_tx_origin_fields'',
        tr_origin r = ''INTERNAL'' \<and> tr_provider_id r = None \<and> tr_external_transaction_id r = None \<and>
          tr_idempotency_key r = None \<and> tr_payload_hash r = None \<and> tr_round_id r = None \<and>
          tr_game_id r = None \<and> tr_reference_external_transaction_id r = None \<or>
        tr_origin r = ''EXTERNAL'' \<and> tr_kind r \<noteq> ''OPENING'' \<and> tr_provider_id r \<noteq> None \<and>
          tr_external_transaction_id r \<noteq> None \<and> tr_idempotency_key r \<noteq> None \<and>
          tr_payload_hash r \<noteq> None \<and> tr_round_id r \<noteq> None \<and> tr_game_id r \<noteq> None),
      (''wager_tx_result_balance_non_negative'',
        case tr_result_balance_minor r of None \<Rightarrow> True | Some b \<Rightarrow> 0 \<le> sint b),
      (''wager_tx_reversal_reference'',
        tr_kind r \<notin> set reversal_kinds \<or> tr_reference_external_transaction_id r \<noteq> None),
      (''wager_tx_status'',
        tr_status r \<in> set [''PENDING'', ''PENDING_REFERENCE'', ''PROCESSED'', ''REJECTED'', ''FAILED''])]"

text \<open>The partial unique indexes; a NULL key conflicts with nothing.\<close>

definition same_key :: "'a option \<Rightarrow> 'a option \<Rightarrow> bool" where
  "same_key a b = (a \<noteq> None \<and> a = b)"

definition counts_as_reversal :: "tx_row \<Rightarrow> bool" where
  "counts_as_reversal r = (tr_status r = ''PROCESSED'' \<and> tr_kind r \<in> set reversal_kinds)"

definition reversal_conflict :: "tx_row list \<Rightarrow> tx_row \<Rightarrow> bool" where
  "reversal_conflict rs r =
     (counts_as_reversal r \<and>
      (\<exists>q \<in> set rs. counts_as_reversal q \<and> tr_kind q = tr_kind r \<and>
         same_key (tr_reference_transaction_id q) (tr_reference_transaction_id r)))"

definition tx_uniques :: "tx_row list \<Rightarrow> tx_row \<Rightarrow> (string \<times> bool) list" where
  "tx_uniques rs r =
     [(''wager_transactions_pkey'', \<exists>q \<in> set rs. tr_id q = tr_id r),
      (''wager_tx_provider_external_unique'',
        tr_origin r = ''EXTERNAL'' \<and> (\<exists>q \<in> set rs. tr_origin q = ''EXTERNAL'' \<and>
          same_key (tr_provider_id q) (tr_provider_id r) \<and>
          same_key (tr_external_transaction_id q) (tr_external_transaction_id r))),
      (''wager_tx_provider_idempotency_unique'',
        tr_origin r = ''EXTERNAL'' \<and> (\<exists>q \<in> set rs. tr_origin q = ''EXTERNAL'' \<and>
          same_key (tr_provider_id q) (tr_provider_id r) \<and>
          same_key (tr_idempotency_key q) (tr_idempotency_key r))),
      (''wager_tx_reference_reversal_unique'', reversal_conflict rs r),
      (''wager_tx_opening_unique'',
        tr_kind r = ''OPENING'' \<and> (\<exists>q \<in> set rs. tr_kind q = ''OPENING'' \<and> tr_wallet_id q = tr_wallet_id r))]"

definition tx_fks :: "db \<Rightarrow> tx_row \<Rightarrow> (string \<times> bool) list" where
  "tx_fks d r =
     [(''wager_transactions_wallet_id_fkey'', \<exists>w \<in> set (db_wallets d). wr_id w = tr_wallet_id r),
      (''wager_transactions_reference_transaction_id_fkey'',
        case tr_reference_transaction_id r of None \<Rightarrow> True
        | Some i \<Rightarrow> i = tr_id r \<or> (\<exists>q \<in> set (db_transactions d). tr_id q = i))]"

text \<open>The signed effect of a ledger row, and the CHECK on its balances in exact integers
  (PostgreSQL reports a BIGINT that overflows instead of wrapping it).\<close>

definition ledger_row_effect :: "ledger_row \<Rightarrow> int" where
  "ledger_row_effect r =
     (if lr_direction r = ''CREDIT'' then sint (lr_amount_minor r)
      else if lr_direction r = ''DEBIT'' then - sint (lr_amount_minor r) else 0)"

definition ledger_checks :: "ledger_row \<Rightarrow> (string \<times> bool) list" where
  "ledger_checks r =
     [(''ledger_amount_positive'', 0 < sint (lr_amount_minor r)),
      (''ledger_balances_non_negative'',
        0 \<le> sint (lr_balance_before_minor r) \<and> 0 \<le> sint (lr_balance_after_minor r)),
      (''ledger_direction'', lr_direction r \<in> set [''DEBIT'', ''CREDIT'']),
      (''ledger_math'',
        sint (lr_balance_after_minor r) = sint (lr_balance_before_minor r) + ledger_row_effect r)]"

definition ledger_uniques :: "ledger_row list \<Rightarrow> ledger_row \<Rightarrow> (string \<times> bool) list" where
  "ledger_uniques rs r =
     [(''wallet_ledger_entries_pkey'', \<exists>q \<in> set rs. lr_id q = lr_id r),
      (''ledger_wallet_transaction_unique'',
        \<exists>q \<in> set rs. lr_wallet_id q = lr_wallet_id r \<and> lr_transaction_id q = lr_transaction_id r)]"

definition ledger_fks :: "db \<Rightarrow> ledger_row \<Rightarrow> (string \<times> bool) list" where
  "ledger_fks d r =
     [(''wallet_ledger_entries_wallet_id_fkey'', \<exists>w \<in> set (db_wallets d). wr_id w = lr_wallet_id r),
      (''wallet_ledger_entries_transaction_id_fkey'',
        \<exists>t \<in> set (db_transactions d). tr_id t = lr_transaction_id r)]"

definition outbox_checks :: "outbox_row \<Rightarrow> (string \<times> bool) list" where
  "outbox_checks r = [(''outbox_attempts_non_negative'', 0 \<le> sint (or_attempts r))]"

definition outbox_uniques :: "outbox_row list \<Rightarrow> outbox_row \<Rightarrow> (string \<times> bool) list" where
  "outbox_uniques rs r = [(''outbox_events_pkey'', \<exists>q \<in> set rs. or_event_id q = or_event_id r)]"

subsection \<open>Statements on wallets\<close>

definition sql_insert_wallet :: "wallet_row \<Rightarrow> db \<Rightarrow> (unit \<times> db) result" where
  "sql_insert_wallet r d =
     (case violation (wallet_checks r) (wallet_uniques (db_wallets d) r) [] of
        Some e \<Rightarrow> Inl e
      | None \<Rightarrow> Inr ((), d\<lparr>db_wallets := db_wallets d @ [r]\<rparr>))"

definition sql_wallet_by_id :: "uuid \<Rightarrow> db \<Rightarrow> (wallet_row option \<times> db) result" where
  "sql_wallet_by_id i d = Inr (find (\<lambda>r. wr_id r = i) (db_wallets d), d)"

definition sql_wallet_by_player_currency ::
  "uuid \<Rightarrow> string \<Rightarrow> db \<Rightarrow> (wallet_row option \<times> db) result" where
  "sql_wallet_by_player_currency p c d =
     Inr (find (\<lambda>r. wr_player_id r = p \<and> wr_currency r = c) (db_wallets d), d)"

text \<open>\<open>UPDATE wallets SET balance_minor, version = version + 1, updated_at WHERE id AND version\<close>:
  the result is the number of rows affected.\<close>

definition sql_update_wallet ::
  "uuid \<Rightarrow> int64 \<Rightarrow> time \<Rightarrow> int64 \<Rightarrow> db \<Rightarrow> (nat \<times> db) result" where
  "sql_update_wallet i balance updated expected d =
     (case find (\<lambda>r. wr_id r = i \<and> wr_version r = expected) (db_wallets d) of
        None \<Rightarrow> Inr (0, d)
      | Some r \<Rightarrow>
          if wr_version r = MaxInt64 then Inl (PgError ''22003'' '''')
          else
            (let r' = r\<lparr>wr_balance_minor := balance, wr_version := wr_version r + 1,
                   wr_updated_at := updated\<rparr>
             in case violation (wallet_checks r') [] [] of
                  Some e \<Rightarrow> Inl e
                | None \<Rightarrow> Inr (1, d\<lparr>db_wallets :=
                    map (\<lambda>q. if wr_id q = i \<and> wr_version q = expected then r' else q) (db_wallets d)\<rparr>)))"

subsection \<open>Statements on transactions\<close>

text \<open>The driver refuses to encode an attempt counter that does not fit an INTEGER column.\<close>

definition in_int4 :: "int64 \<Rightarrow> bool" where
  "in_int4 a \<longleftrightarrow> - 2147483648 \<le> sint a \<and> sint a \<le> 2147483647"

definition int4_error :: goerror where
  "int4_error = LibError ''value is out of range for int4''"

definition sql_insert_tx :: "tx_row \<Rightarrow> db \<Rightarrow> (unit \<times> db) result" where
  "sql_insert_tx r d =
     (if \<not> in_int4 (tr_attempts r) then Inl int4_error
      else case violation (tx_checks r) (tx_uniques (db_transactions d) r) (tx_fks d r) of
        Some e \<Rightarrow> Inl e
      | None \<Rightarrow> Inr ((), d\<lparr>db_transactions := db_transactions d @ [r]\<rparr>))"

text \<open>The columns the UPDATE of a transaction sets.\<close>

definition tx_row_set ::
  "uuid option \<Rightarrow> string \<Rightarrow> string option \<Rightarrow> int64 option \<Rightarrow> int64 \<Rightarrow> time option \<Rightarrow> time \<Rightarrow> tx_row \<Rightarrow> tx_row"
where
  "tx_row_set ref st fc rb att nxt upd r =
     r\<lparr>tr_reference_transaction_id := ref, tr_status := st, tr_failure_code := fc,
       tr_result_balance_minor := rb, tr_attempts := att, tr_next_attempt_at := nxt,
       tr_updated_at := upd\<rparr>"

definition is_pending_row :: "tx_row \<Rightarrow> bool" where
  "is_pending_row r = (tr_status r \<in> set pending_statuses)"

text \<open>\<open>UPDATE wager_transactions SET ... WHERE id = $1 AND status IN ('PENDING', 'PENDING_REFERENCE')\<close>.\<close>

definition sql_update_tx :: "uuid \<Rightarrow> (tx_row \<Rightarrow> tx_row) \<Rightarrow> db \<Rightarrow> (nat \<times> db) result" where
  "sql_update_tx i change d =
     (case find (\<lambda>r. tr_id r = i \<and> is_pending_row r) (db_transactions d) of
        None \<Rightarrow> Inr (0, d)
      | Some r \<Rightarrow>
          if \<not> in_int4 (tr_attempts (change r)) then Inl int4_error
          else
            (let others = filter (\<lambda>q. tr_id q \<noteq> i) (db_transactions d)
             in case violation (tx_checks (change r)) (tx_uniques others (change r)) (tx_fks d (change r)) of
                  Some e \<Rightarrow> Inl e
                | None \<Rightarrow> Inr (1, d\<lparr>db_transactions :=
                    map (\<lambda>q. if tr_id q = i \<and> is_pending_row q then change q else q) (db_transactions d)\<rparr>)))"

definition sql_tx_by_id :: "uuid \<Rightarrow> db \<Rightarrow> (tx_row option \<times> db) result" where
  "sql_tx_by_id i d = Inr (find (\<lambda>r. tr_id r = i) (db_transactions d), d)"

definition sql_tx_by_external :: "string \<Rightarrow> string \<Rightarrow> db \<Rightarrow> (tx_row option \<times> db) result" where
  "sql_tx_by_external provider ext d =
     Inr (find (\<lambda>r. tr_provider_id r = Some provider \<and> tr_external_transaction_id r = Some ext \<and>
                  tr_origin r = ''EXTERNAL'') (db_transactions d), d)"

definition sql_tx_by_key :: "string \<Rightarrow> string \<Rightarrow> db \<Rightarrow> (tx_row option \<times> db) result" where
  "sql_tx_by_key provider key d =
     Inr (find (\<lambda>r. tr_provider_id r = Some provider \<and> tr_idempotency_key r = Some key \<and>
                  tr_origin r = ''EXTERNAL'') (db_transactions d), d)"

text \<open>A row the worker may claim, and the order it claims them in.\<close>

definition due_row :: "time \<Rightarrow> tx_row \<Rightarrow> bool" where
  "due_row now r =
     (is_pending_row r \<and> (case tr_next_attempt_at r of None \<Rightarrow> False | Some n \<Rightarrow> n \<le> now))"

definition due_before :: "tx_row \<Rightarrow> tx_row \<Rightarrow> bool" where
  "due_before a b =
     (case (tr_next_attempt_at a, tr_next_attempt_at b) of
        (Some x, Some y) \<Rightarrow> x < y \<or> x = y \<and> tr_created_at a < tr_created_at b
      | _ \<Rightarrow> False)"

text \<open>The first row of a list that no later one precedes (the first of an ORDER BY).\<close>

fun first_by :: "('a \<Rightarrow> 'a \<Rightarrow> bool) \<Rightarrow> 'a list \<Rightarrow> 'a option" where
  "first_by lt [] = None"
| "first_by lt (r # rs) =
     (case first_by lt rs of
        None \<Rightarrow> Some r
      | Some q \<Rightarrow> if lt q r then Some q else Some r)"

text \<open>\<open>ORDER BY next_attempt_at, created_at FOR UPDATE SKIP LOCKED LIMIT 1\<close>; \<open>locked\<close> are the
  rows other connections hold.\<close>

definition sql_claim_tx ::
  "(uuid \<Rightarrow> bool) \<Rightarrow> time \<Rightarrow> db \<Rightarrow> (tx_row option \<times> db) result" where
  "sql_claim_tx locked now d =
     Inr (first_by due_before (filter (\<lambda>r. due_row now r \<and> \<not> locked (tr_id r)) (db_transactions d)), d)"

definition sql_count_pending_tx :: "db \<Rightarrow> (nat \<times> db) result" where
  "sql_count_pending_tx d = Inr (length (filter is_pending_row (db_transactions d)), d)"

definition sql_find_reversal :: "uuid \<Rightarrow> string \<Rightarrow> db \<Rightarrow> (tx_row option \<times> db) result" where
  "sql_find_reversal ref k d =
     Inr (find (\<lambda>r. tr_reference_transaction_id r = Some ref \<and> tr_kind r = k \<and>
                  tr_status r = ''PROCESSED'') (db_transactions d), d)"

definition is_dependent :: "string \<Rightarrow> string \<Rightarrow> tx_row \<Rightarrow> bool" where
  "is_dependent provider ext r =
     (tr_provider_id r = Some provider \<and> tr_reference_external_transaction_id r = Some ext \<and>
      tr_status r = ''PENDING_REFERENCE'')"

definition sql_wake_dependents :: "string \<Rightarrow> string \<Rightarrow> time \<Rightarrow> db \<Rightarrow> (nat \<times> db) result" where
  "sql_wake_dependents provider ext now d =
     Inr (length (filter (is_dependent provider ext) (db_transactions d)),
       d\<lparr>db_transactions := map (\<lambda>r. if is_dependent provider ext r
           then r\<lparr>tr_next_attempt_at := Some now, tr_updated_at := now\<rparr> else r) (db_transactions d)\<rparr>)"

subsection \<open>Statements on the ledger and the outbox\<close>

definition sql_insert_ledger :: "ledger_row \<Rightarrow> db \<Rightarrow> (unit \<times> db) result" where
  "sql_insert_ledger r d =
     (case violation (ledger_checks r) (ledger_uniques (db_ledger d) r) (ledger_fks d r) of
        Some e \<Rightarrow> Inl e
      | None \<Rightarrow> Inr ((), d\<lparr>db_ledger := db_ledger d @ [r]\<rparr>))"

definition sql_insert_outbox :: "outbox_row \<Rightarrow> db \<Rightarrow> (unit \<times> db) result" where
  "sql_insert_outbox r d =
     (if \<not> in_int4 (or_attempts r) then Inl int4_error
      else case violation (outbox_checks r) (outbox_uniques (db_outbox d) r) [] of
        Some e \<Rightarrow> Inl e
      | None \<Rightarrow> Inr ((), d\<lparr>db_outbox := db_outbox d @ [r]\<rparr>))"

end
