(* ===== verification/Tx.thy ===== *)
theory Tx
  imports Store
begin

section \<open>Effects, statements and transactions (internal/adapters/postgres/pool.go)\<close>

text \<open>
  A call that reads the clock, makes an identifier, talks to the database or records a metric
  is a function of the \<open>world\<close>; it returns a result and the world after it. The world has the
  database as the current connection sees it, the snapshots that an open transaction and its
  savepoints fall back to (innermost first), whether the open transaction is aborted, the
  number of effects so far, the metrics recorded and the requests the broker has accepted.

  What is not in the repository is the parameter \<open>lib\<close>: the clock's readings, the identifiers
  of \<open>uuid.NewV7\<close> (which cannot fail with the Go version of go.mod, whose \<open>crypto/rand\<close> never
  returns an error), the printing and parsing of identifiers, SHA-256, the faults of the
  connection, and the commits of the other connections. The other connections are served
  between any two effects: \<open>lib_others n\<close> is what they commit before effect \<open>n\<close>, and it applies
  both to what this connection sees (READ COMMITTED) and to what it falls back to.
\<close>

datatype metric =
    RecordWagerTransaction string string string
  | RecordIdempotentReplay
  | RecordWalletVersionConflict
  | RecordWorkerRetry string
  | RecordDLQMessage string
  | RecordReconciliationRun bool
  | RecordOutboxPublished int
  | SetOutboxPending nat
  | SetPendingReferences nat

text \<open>
  What the message broker (SQS) is asked: a message for a queue, with its group and its
  deduplication identifier, or the deletion of a received one. A request is accepted, refused, or accepted with its answer lost.
\<close>

datatype broker_op =
    SendMessage string string string string
  | DeleteMessage string string

datatype broker_outcome = Accepted | Refused string | AnswerLost string

record lib =
  lib_clock :: "nat \<Rightarrow> time"
  lib_NewV7 :: "nat \<Rightarrow> uuid"
  lib_uuid_String :: "uuid \<Rightarrow> string"
  lib_uuid_Parse :: "string \<Rightarrow> uuid result"
  lib_sha256 :: "string \<Rightarrow> string"
  lib_fault :: "nat \<Rightarrow> string option"
  lib_ack_lost :: "nat \<Rightarrow> bool"
  lib_locked :: "nat \<Rightarrow> uuid \<Rightarrow> bool"
  lib_others :: "nat \<Rightarrow> db \<Rightarrow> db"
  lib_broker :: "nat \<Rightarrow> broker_outcome"

record world =
  wd_step :: nat
  wd_db :: db
  wd_saves :: "db list"
  wd_aborted :: bool
  wd_metrics :: "metric list"
  wd_broker :: "broker_op list"

type_synonym 'a io = "world \<Rightarrow> 'a result \<times> world"

subsection \<open>Sequencing\<close>

definition ret :: "'a \<Rightarrow> 'a io" where
  "ret v w = (Inr v, w)"

definition throw :: "goerror \<Rightarrow> 'a io" where
  "throw e w = (Inl e, w)"

definition lift :: "'a result \<Rightarrow> 'a io" where
  "lift r w = (r, w)"

text \<open>\<open>v, err := m; if err != nil { return err }; k(v)\<close>.\<close>

definition bindM :: "'a io \<Rightarrow> ('a \<Rightarrow> 'b io) \<Rightarrow> 'b io" where
  "bindM m k w = (case m w of (Inl e, w') \<Rightarrow> (Inl e, w') | (Inr v, w') \<Rightarrow> k v w')"

text \<open>\<open>v, err := m\<close>, with the error still to be looked at.\<close>

definition attempt :: "'a io \<Rightarrow> ('a result) io" where
  "attempt m w = (case m w of (r, w') \<Rightarrow> (Inr r, w'))"

text \<open>\<open>if err != nil { return f(err) }\<close>.\<close>

definition on_error :: "(goerror \<Rightarrow> goerror) \<Rightarrow> 'a io \<Rightarrow> 'a io" where
  "on_error f m w = (case m w of (Inl e, w') \<Rightarrow> (Inl (f e), w') | (Inr v, w') \<Rightarrow> (Inr v, w'))"

subsection \<open>Effects\<close>

text \<open>Before an effect, the other connections are served.\<close>

definition tick :: "lib \<Rightarrow> world \<Rightarrow> world" where
  "tick L w = w\<lparr>wd_step := Suc (wd_step w), wd_db := lib_others L (wd_step w) (wd_db w),
     wd_saves := map (lib_others L (wd_step w)) (wd_saves w)\<rparr>"

definition read_clock :: "lib \<Rightarrow> time io" where
  "read_clock L w = (Inr (lib_clock L (wd_step w)), tick L w)"

definition uuid_NewV7 :: "lib \<Rightarrow> uuid io" where
  "uuid_NewV7 L w = (Inr (lib_NewV7 L (wd_step w)), tick L w)"

definition record_metric :: "metric \<Rightarrow> unit io" where
  "record_metric m w = (Inr (), w\<lparr>wd_metrics := wd_metrics w @ [m]\<rparr>)"

text \<open>A request to the broker; the world keeps what the broker has accepted.\<close>

definition broker_call :: "lib \<Rightarrow> broker_op \<Rightarrow> unit io" where
  "broker_call L op w =
     (let w1 = tick L w in
      case lib_broker L (wd_step w) of
        Accepted \<Rightarrow> (Inr (), w1\<lparr>wd_broker := wd_broker w1 @ [op]\<rparr>)
      | Refused s \<Rightarrow> (Inl (LibError s), w1)
      | AnswerLost s \<Rightarrow> (Inl (LibError s), w1\<lparr>wd_broker := wd_broker w1 @ [op]\<rparr>))"

text \<open>
  A statement on the connection. An error inside a transaction aborts it: every later
  statement is refused (SQLSTATE 25P02) until a rollback. Outside a transaction the statement
  is its own transaction.
\<close>

definition aborted_error :: goerror where
  "aborted_error = PgError ''25P02'' ''''"

definition fail_world :: "world \<Rightarrow> world" where
  "fail_world w = w\<lparr>wd_aborted := (wd_saves w \<noteq> [])\<rparr>"

definition stmt :: "lib \<Rightarrow> (db \<Rightarrow> ('a \<times> db) result) \<Rightarrow> 'a io" where
  "stmt L f w =
     (let w1 = tick L w in
      if wd_aborted w then (Inl aborted_error, w1)
      else case lib_fault L (wd_step w) of
        Some s \<Rightarrow> (Inl (LibError s), fail_world w1)
      | None \<Rightarrow>
          (case f (wd_db w1) of
             Inl e \<Rightarrow> (Inl e, fail_world w1)
           | Inr (v, d) \<Rightarrow> (Inr v, w1\<lparr>wd_db := d\<rparr>)))"

text \<open>A query that skips the rows other connections have locked.\<close>

definition stmt_locked :: "lib \<Rightarrow> ((uuid \<Rightarrow> bool) \<Rightarrow> db \<Rightarrow> ('a \<times> db) result) \<Rightarrow> 'a io" where
  "stmt_locked L f w = stmt L (f (lib_locked L (wd_step w))) w"

subsection \<open>Transactions and savepoints\<close>

text \<open>BEGIN and SAVEPOINT push the snapshot to fall back to.\<close>

definition begin_tx :: "lib \<Rightarrow> unit io" where
  "begin_tx L = bindM (stmt L (\<lambda>d. Inr ((), d)))
     (\<lambda>_ w. (Inr (), w\<lparr>wd_saves := wd_db w # wd_saves w\<rparr>))"

text \<open>The end of a transaction or savepoint that took effect.\<close>

definition drop_save :: "world \<Rightarrow> world" where
  "drop_save w = w\<lparr>wd_saves := tl (wd_saves w)\<rparr>"

definition restore_save :: "world \<Rightarrow> world" where
  "restore_save w = w\<lparr>wd_db := hd (wd_saves w), wd_saves := tl (wd_saves w), wd_aborted := False\<rparr>"

text \<open>
  COMMIT: an aborted transaction is rolled back and reported; a fault loses the connection, so
  the server rolls back, or only the acknowledgement when the commit had already happened.
\<close>

definition commit_tx :: "lib \<Rightarrow> unit io" where
  "commit_tx L w =
     (let w1 = tick L w in
      if wd_aborted w
      then (Inl (PlainError ''commit unexpectedly resulted in rollback''), restore_save w1)
      else case lib_fault L (wd_step w) of
        Some s \<Rightarrow>
          (Inl (LibError s), if lib_ack_lost L (wd_step w) then drop_save w1 else restore_save w1)
      | None \<Rightarrow> (Inr (), drop_save w1))"

text \<open>ROLLBACK, whose error is ignored: the server rolls back in any case.\<close>

definition rollback_tx :: "lib \<Rightarrow> world \<Rightarrow> world" where
  "rollback_tx L w = restore_save (tick L w)"

text \<open>
  RELEASE SAVEPOINT and ROLLBACK TO SAVEPOINT. When either fails the enclosing transaction is
  left aborted and can only be rolled back.
\<close>

definition release_savepoint :: "lib \<Rightarrow> unit io" where
  "release_savepoint L w =
     (case stmt L (\<lambda>d. Inr ((), d)) w of (r, w') \<Rightarrow> (r, drop_save w'))"

definition rollback_savepoint :: "lib \<Rightarrow> unit io" where
  "rollback_savepoint L w =
     (let w1 = tick L w in
      case lib_fault L (wd_step w) of
        Some s \<Rightarrow> (Inl (LibError s), (drop_save w1)\<lparr>wd_aborted := True\<rparr>)
      | None \<Rightarrow> (Inr (), restore_save w1))"

text \<open>
  \<open>TxManager.WithinTransaction\<close>. A context carries a transaction exactly when one is open, so
  whether the call is nested is whether there is a snapshot to fall back to.
\<close>

definition WithinTransaction :: "lib \<Rightarrow> 'a io \<Rightarrow> 'a io" where
  "WithinTransaction L fn w =
     (if wd_saves w \<noteq> []
      then
        (case on_error (WrapError ''postgres: begin savepoint'') (begin_tx L) w of
           (Inl e, w1) \<Rightarrow> (Inl e, w1)
         | (Inr _, w1) \<Rightarrow>
             (case fn w1 of
                (Inl e, w2) \<Rightarrow>
                  (case rollback_savepoint L w2 of
                     (Inl re, w3) \<Rightarrow>
                       (Inl (JoinErrors e (WrapError ''postgres: rollback savepoint'' re)), w3)
                   | (Inr _, w3) \<Rightarrow> (Inl e, w3))
              | (Inr v, w2) \<Rightarrow>
                  (case on_error (WrapError ''postgres: release savepoint'') (release_savepoint L) w2 of
                     (Inl e, w3) \<Rightarrow> (Inl e, w3)
                   | (Inr _, w3) \<Rightarrow> (Inr v, w3))))
      else
        (case on_error (WrapError ''postgres: begin transaction'') (begin_tx L) w of
           (Inl e, w1) \<Rightarrow> (Inl e, w1)
         | (Inr _, w1) \<Rightarrow>
             (case fn w1 of
                (Inl e, w2) \<Rightarrow> (Inl e, rollback_tx L w2)
              | (Inr v, w2) \<Rightarrow>
                  (case on_error (WrapError ''postgres: commit transaction'') (commit_tx L) w2 of
                     (Inl e, w3) \<Rightarrow> (Inl e, w3)
                   | (Inr _, w3) \<Rightarrow> (Inr v, w3)))))"

subsection \<open>Classifying a driver error\<close>

definition is_pg_error :: "goerror \<Rightarrow> bool" where
  "is_pg_error e = (case e of PgError _ _ \<Rightarrow> True | _ \<Rightarrow> False)"

definition errors_As_pg :: "goerror \<Rightarrow> (string \<times> string) option" where
  "errors_As_pg err =
     (case find is_pg_error (error_chain err) of Some (PgError s c) \<Rightarrow> Some (s, c) | _ \<Rightarrow> None)"

definition constraintName :: "goerror \<Rightarrow> string" where
  "constraintName err = (case errors_As_pg err of Some (_, c) \<Rightarrow> c | None \<Rightarrow> '''')"

definition isUniqueViolation :: "goerror \<Rightarrow> string \<Rightarrow> bool" where
  "isUniqueViolation err constraint = (errors_As_pg err = Some (''23505'', constraint))"

definition isCheckViolation :: "goerror \<Rightarrow> bool" where
  "isCheckViolation err =
     (case errors_As_pg err of Some (s, _) \<Rightarrow> s = ''23514'' | None \<Rightarrow> False)"

subsection \<open>What an operation leaves of the snapshots\<close>

text \<open>The commits of the other connections between two effects.\<close>

definition drift :: "lib \<Rightarrow> nat \<Rightarrow> nat \<Rightarrow> db \<Rightarrow> db" where
  "drift L m n d = fold (lib_others L) [m..<n] d"

lemma drift_refl [simp]: "drift L m m d = d"
  by (simp add: drift_def)

lemma drift_trans: "m \<le> n \<Longrightarrow> n \<le> k \<Longrightarrow> drift L n k (drift L m n d) = drift L m k d"
  using upt_add_eq_append [of m n "k - n"] by (simp add: drift_def)

lemma drift_Suc: "drift L m (Suc m) d = lib_others L m d"
  by (simp add: drift_def)

text \<open>
  An operation is framed when it closes every transaction and savepoint it opens and gives the
  snapshots below it nothing but what the other connections committed meanwhile.
\<close>

definition framed :: "lib \<Rightarrow> 'a io \<Rightarrow> bool" where
  "framed L m \<longleftrightarrow> (\<forall>w. wd_step w \<le> wd_step (snd (m w)) \<and>
     wd_saves (snd (m w)) = map (drift L (wd_step w) (wd_step (snd (m w)))) (wd_saves w))"

named_theorems framed_rules

lemma framedI:
  assumes "\<And>w. wd_step w \<le> wd_step (snd (m w))"
    and "\<And>w. wd_saves (snd (m w)) = map (drift L (wd_step w) (wd_step (snd (m w)))) (wd_saves w)"
  shows "framed L m"
  using assms by (simp add: framed_def)

lemma framed_step: "framed L m \<Longrightarrow> m w = (r, w') \<Longrightarrow> wd_step w \<le> wd_step w'"
  by (metis framed_def snd_conv)

lemma framed_saves:
  "framed L m \<Longrightarrow> m w = (r, w') \<Longrightarrow> wd_saves w' = map (drift L (wd_step w) (wd_step w')) (wd_saves w)"
  by (metis framed_def snd_conv)

lemma tick_simps [simp]:
  "wd_step (tick L w) = Suc (wd_step w)"
  "wd_saves (tick L w) = map (lib_others L (wd_step w)) (wd_saves w)"
  "wd_db (tick L w) = lib_others L (wd_step w) (wd_db w)"
  "wd_aborted (tick L w) = wd_aborted w"
  "wd_metrics (tick L w) = wd_metrics w"
  "wd_broker (tick L w) = wd_broker w"
  by (simp_all add: tick_def)

lemma drift_Suc_fun: "drift L m (Suc m) = lib_others L m"
  by (rule ext) (simp add: drift_Suc)

lemma drift_refl_fun: "drift L m m = (\<lambda>d. d)"
  by (rule ext) simp

lemma framed_ret [framed_rules]: "framed L (ret v)"
  by (rule framedI) (simp_all add: ret_def drift_refl_fun)

lemma framed_throw [framed_rules]: "framed L (throw e)"
  by (rule framedI) (simp_all add: throw_def drift_refl_fun)

lemma framed_lift [framed_rules]: "framed L (lift r)"
  by (rule framedI) (simp_all add: lift_def drift_refl_fun)

lemma framed_metric [framed_rules]: "framed L (record_metric m)"
  by (rule framedI) (simp_all add: record_metric_def drift_refl_fun)

lemma framed_clock [framed_rules]: "framed L (read_clock L)"
  by (rule framedI) (simp_all add: read_clock_def drift_Suc_fun)

lemma framed_NewV7 [framed_rules]: "framed L (uuid_NewV7 L)"
  by (rule framedI) (simp_all add: uuid_NewV7_def drift_Suc_fun)

lemma framed_broker_call [framed_rules]: "framed L (broker_call L op)"
  by (rule framedI) (simp_all add: broker_call_def Let_def drift_Suc_fun split: broker_outcome.split)

lemma stmt_world:
  "wd_step (snd (stmt L f w)) = Suc (wd_step w) \<and>
   wd_saves (snd (stmt L f w)) = map (lib_others L (wd_step w)) (wd_saves w)"
  by (auto simp: stmt_def Let_def fail_world_def split: option.splits sum.splits prod.splits)

lemma framed_stmt [framed_rules]: "framed L (stmt L f)"
  using stmt_world [of L f] by (intro framedI) (simp_all add: drift_Suc_fun)

lemma framed_stmt_locked [framed_rules]: "framed L (stmt_locked L f)"
proof (rule framedI)
  fix w
  show "wd_step w \<le> wd_step (snd (stmt_locked L f w))"
    using stmt_world [of L "f (lib_locked L (wd_step w))" w] by (simp add: stmt_locked_def)
  show "wd_saves (snd (stmt_locked L f w)) =
      map (drift L (wd_step w) (wd_step (snd (stmt_locked L f w)))) (wd_saves w)"
    using stmt_world [of L "f (lib_locked L (wd_step w))" w] by (simp add: stmt_locked_def drift_Suc_fun)
qed

lemma framed_bindM [framed_rules]:
  assumes "framed L m" and "\<And>v. framed L (k v)"
  shows "framed L (bindM m k)"
proof -
  have "wd_step w \<le> wd_step (snd (bindM m k w)) \<and>
    wd_saves (snd (bindM m k w)) = map (drift L (wd_step w) (wd_step (snd (bindM m k w)))) (wd_saves w)"
    for w
  proof (cases "m w")
    case (Pair r w1)
    note m = framed_step [OF assms(1) Pair] framed_saves [OF assms(1) Pair]
    show ?thesis
    proof (cases r)
      case (Inl e)
      then show ?thesis using Pair m by (simp add: bindM_def)
    next
      case (Inr v)
      obtain r2 w2 where k: "k v w1 = (r2, w2)" by (cases "k v w1")
      show ?thesis
        using Pair Inr k m framed_step [OF assms(2) k] framed_saves [OF assms(2) k]
        by (simp add: bindM_def drift_trans)
    qed
  qed
  then show ?thesis by (simp add: framed_def)
qed

lemma framed_attempt [framed_rules]: "framed L m \<Longrightarrow> framed L (attempt m)"
  by (simp add: framed_def attempt_def split: prod.splits) (metis snd_conv)

lemma framed_on_error [framed_rules]: "framed L m \<Longrightarrow> framed L (on_error f m)"
  by (simp add: framed_def on_error_def split: prod.splits sum.splits) (metis snd_conv)

text \<open>A transaction or savepoint opened and ended around a framed body.\<close>

lemma begin_tx_world:
  assumes "begin_tx L w = (r, w')"
  shows "wd_step w' = Suc (wd_step w)"
    and "case r of Inl e \<Rightarrow> wd_saves w' = map (lib_others L (wd_step w)) (wd_saves w)
       | Inr _ \<Rightarrow> wd_saves w' = lib_others L (wd_step w) (wd_db w) # map (lib_others L (wd_step w)) (wd_saves w) \<and>
           wd_db w' = lib_others L (wd_step w) (wd_db w) \<and> \<not> wd_aborted w'"
  using assms stmt_world [of L "\<lambda>d. Inr ((), d)" w]
  by (auto simp: begin_tx_def bindM_def stmt_def Let_def fail_world_def split: option.splits if_splits)

lemma end_world:
  "wd_step (snd (commit_tx L w)) = Suc (wd_step w)"
  "wd_saves (snd (commit_tx L w)) = tl (map (lib_others L (wd_step w)) (wd_saves w))"
  "wd_step (rollback_tx L w) = Suc (wd_step w)"
  "wd_saves (rollback_tx L w) = tl (map (lib_others L (wd_step w)) (wd_saves w))"
  "wd_step (snd (release_savepoint L w)) = Suc (wd_step w)"
  "wd_saves (snd (release_savepoint L w)) = tl (map (lib_others L (wd_step w)) (wd_saves w))"
  "wd_step (snd (rollback_savepoint L w)) = Suc (wd_step w)"
  "wd_saves (snd (rollback_savepoint L w)) = tl (map (lib_others L (wd_step w)) (wd_saves w))"
  using stmt_world [of L "\<lambda>d. Inr ((), d)" w]
  by (auto simp: commit_tx_def rollback_tx_def release_savepoint_def rollback_savepoint_def Let_def
      drop_save_def restore_save_def split: option.splits prod.splits)

text \<open>The four ways a call of \<open>WithinTransaction\<close> goes, as one case rule.\<close>

lemma WithinTransaction_cases:
  assumes "WithinTransaction L fn w = (r, w')"
  obtains (begin_failed) e where "begin_tx L w = (Inl e, w')"
      and "r = Inl (WrapError (if wd_saves w = [] then ''postgres: begin transaction''
        else ''postgres: begin savepoint'') e)"
  | (failed) w1 w2 e where "begin_tx L w = (Inr (), w1)" and "fn w1 = (Inl e, w2)"
      and "wd_saves w = []" and "w' = rollback_tx L w2" and "r = Inl e"
  | (failed_nested) w1 w2 e re where "begin_tx L w = (Inr (), w1)" and "fn w1 = (Inl e, w2)"
      and "wd_saves w \<noteq> []" and "rollback_savepoint L w2 = (re, w')"
      and "r = Inl (case re of Inl x \<Rightarrow> JoinErrors e (WrapError ''postgres: rollback savepoint'' x)
         | Inr _ \<Rightarrow> e)"
  | (finished) w1 w2 v cr where "begin_tx L w = (Inr (), w1)" and "fn w1 = (Inr v, w2)"
      and "wd_saves w = []" and "commit_tx L w2 = (cr, w')"
      and "r = (case cr of Inl e \<Rightarrow> Inl (WrapError ''postgres: commit transaction'' e) | Inr _ \<Rightarrow> Inr v)"
  | (finished_nested) w1 w2 v cr where "begin_tx L w = (Inr (), w1)" and "fn w1 = (Inr v, w2)"
      and "wd_saves w \<noteq> []" and "release_savepoint L w2 = (cr, w')"
      and "r = (case cr of Inl e \<Rightarrow> Inl (WrapError ''postgres: release savepoint'' e) | Inr _ \<Rightarrow> Inr v)"
proof -
  obtain b w1 where b: "begin_tx L w = (b, w1)" by (cases "begin_tx L w")
  obtain q w2 where f: "fn w1 = (q, w2)" by (cases "fn w1")
  obtain re w3 where roll: "rollback_savepoint L w2 = (re, w3)" by (cases "rollback_savepoint L w2")
  obtain cr w4 where com: "commit_tx L w2 = (cr, w4)" by (cases "commit_tx L w2")
  obtain sr w5 where rel: "release_savepoint L w2 = (sr, w5)" by (cases "release_savepoint L w2")
  note run = assms [unfolded WithinTransaction_def on_error_def]
  show thesis
  proof (cases b)
    case (Inl e)
    with b run show thesis by (intro begin_failed) (auto split: if_splits)
  next
    case Inr: (Inr u)
    show thesis
    proof (cases q)
      case (Inl e)
      show thesis
        by (cases "wd_saves w = []", (rule failed [of w1 e w2]; use b Inr f Inl run in simp),
            (rule failed_nested [of w1 e w2 re]; use b Inr f Inl roll run in \<open>simp split: sum.splits\<close>))
    next
      case Inr': (Inr v)
      show thesis
        by (cases "wd_saves w = []", (rule finished [of w1 v w2 cr]; use b Inr f Inr' com run in \<open>simp split: sum.splits\<close>),
            (rule finished_nested [of w1 v w2 sr]; use b Inr f Inr' rel run in \<open>simp split: sum.splits\<close>))
    qed
  qed
qed

lemma framed_WithinTransaction [framed_rules]:
  assumes "framed L fn"
  shows "framed L (WithinTransaction L fn)"
proof -
  have "wd_step w \<le> wd_step w' \<and> wd_saves w' = map (drift L (wd_step w) (wd_step w')) (wd_saves w)"
    if "WithinTransaction L fn w = (r, w')" for w w' r
  proof -
    have frame: "wd_step w \<le> wd_step w2 \<and>
        tl (map (lib_others L (wd_step w2)) (wd_saves w2)) =
        map (drift L (wd_step w) (Suc (wd_step w2))) (wd_saves w)"
      if b: "begin_tx L w = (Inr (), w1)" and f: "fn w1 = (q, w2)" for w1 w2 and q :: "'a result"
    proof -
      note b' = begin_tx_world [OF b]
      note f' = framed_step [OF assms f] framed_saves [OF assms f]
      have le: "wd_step w \<le> Suc (wd_step w)" "Suc (wd_step w) \<le> wd_step w2" using b' f' by simp_all
      have "lib_others L (wd_step w2) (drift L (Suc (wd_step w)) (wd_step w2) (lib_others L (wd_step w) d)) =
          drift L (wd_step w) (Suc (wd_step w2)) d" for d
        using drift_trans [of "Suc (wd_step w)" "wd_step w2" "Suc (wd_step w2)" L]
          drift_trans [of "wd_step w" "Suc (wd_step w)" "Suc (wd_step w2)" L] le
        by (simp add: drift_Suc)
      then show ?thesis using b' f' by (simp add: comp_def)
    qed
    from that show ?thesis
    proof (cases rule: WithinTransaction_cases)
      case (begin_failed e)
      then show ?thesis using begin_tx_world [OF begin_failed(1)] by (simp add: drift_Suc_fun)
    next
      case (failed w1 w2 e)
      show ?thesis using frame [OF failed(1,2)] end_world(3,4) [of L w2] failed(4) by simp
    next
      case (failed_nested w1 w2 e re)
      show ?thesis
        using frame [OF failed_nested(1,2)] end_world(7,8) [of L w2] failed_nested(4) by simp
    next
      case (finished w1 w2 v cr)
      show ?thesis using frame [OF finished(1,2)] end_world(1,2) [of L w2] finished(4) by simp
    next
      case (finished_nested w1 w2 v cr)
      show ?thesis
        using frame [OF finished_nested(1,2)] end_world(5,6) [of L w2] finished_nested(4) by simp
    qed
  qed
  then show ?thesis by (simp add: framed_def) (metis prod.collapse)
qed

text \<open>The text of a commit that may have happened although it failed.\<close>

definition commit_unknown :: "goerror \<Rightarrow> bool" where
  "commit_unknown e \<longleftrightarrow> (\<exists>s. e = WrapError ''postgres: commit transaction'' (LibError s))"

lemma WithinTransaction_error_no_trace:
  assumes fr: "framed L fn" and run: "WithinTransaction L fn w = (Inl e, w')" and top: "wd_saves w = []"
  shows "wd_db w' = drift L (wd_step w) (wd_step w') (wd_db w) \<or> commit_unknown e"
proof -
  have frame: "hd (map (lib_others L (wd_step w2)) (wd_saves w2)) =
      drift L (wd_step w) (Suc (wd_step w2)) (wd_db w)"
    if b: "begin_tx L w = (Inr (), w1)" and f: "fn w1 = (q, w2)" for w1 w2 and q :: "'a result"
  proof -
    note b' = begin_tx_world [OF b]
    note f' = framed_step [OF fr f] framed_saves [OF fr f]
    have "wd_saves w2 = [drift L (Suc (wd_step w)) (wd_step w2) (lib_others L (wd_step w) (wd_db w))]"
      using b' f' top by simp
    then show ?thesis
      using drift_trans [of "Suc (wd_step w)" "wd_step w2" "Suc (wd_step w2)" L]
        drift_trans [of "wd_step w" "Suc (wd_step w)" "Suc (wd_step w2)" L] b' f'
      by (simp add: drift_Suc)
  qed
  from run show ?thesis
  proof (cases rule: WithinTransaction_cases)
    case (begin_failed x)
    from begin_failed(1) have "wd_db w' = lib_others L (wd_step w) (wd_db w)"
      by (auto simp: begin_tx_def bindM_def stmt_def Let_def fail_world_def split: option.splits if_splits)
    then show ?thesis using begin_tx_world [OF begin_failed(1)] by (simp add: drift_Suc)
  next
    case (failed w1 w2 x)
    then show ?thesis
      using frame [OF failed(1,2)] by (simp add: rollback_tx_def restore_save_def)
  next
    case (failed_nested w1 w2 x re)
    then show ?thesis using top by simp
  next
    case (finished w1 w2 v cr)
    then show ?thesis
      using frame [OF finished(1,2)]
      by (auto simp: commit_tx_def Let_def restore_save_def commit_unknown_def
          split: sum.splits option.splits if_splits)
  next
    case (finished_nested w1 w2 v cr)
    then show ?thesis using top by simp
  qed
qed

end
