(* ===== verification/Repos.thy ===== *)
theory Repos
  imports Tx
begin

section \<open>The repositories (internal/adapters/postgres)\<close>

text \<open>
  The repositories that the services use inside a transaction: what each sends to the database,
  how it classifies what comes back, and how a row becomes an aggregate. A query that finds no
  row is \<open>pgx.ErrNoRows\<close>, here \<open>None\<close>.
\<close>

definition ErrDuplicateExternalTransaction :: goerror where
  "ErrDuplicateExternalTransaction = PlainError ''repository: duplicate provider/external transaction''"
definition ErrDuplicateIdempotencyKey :: goerror where
  "ErrDuplicateIdempotencyKey = PlainError ''repository: idempotency key already used''"
definition ErrDuplicateOpening :: goerror where
  "ErrDuplicateOpening = PlainError ''repository: wallet already has an opening credit''"
definition ErrDuplicateReversal :: goerror where
  "ErrDuplicateReversal = PlainError ''repository: reference already has a successful reversal''"
definition ErrDuplicateLedgerEntry :: goerror where
  "ErrDuplicateLedgerEntry = PlainError ''repository: ledger entry already exists''"

subsection \<open>Wallets (wallet_repo.go)\<close>

definition wallet_to_row :: "wallet \<Rightarrow> wallet_row" where
  "wallet_to_row w =
     \<lparr>wr_id = w_id w, wr_player_id = w_playerID w, wr_currency = w_currency w,
      wr_balance_minor = m_amount (w_balance w), wr_version = w_version w,
      wr_created_at = w_createdAt w, wr_updated_at = w_updatedAt w\<rparr>"

definition scanWallet :: "wallet_row \<Rightarrow> wallet result" where
  "scanWallet r =
     and_then (NewCurrency (wr_currency r)) (\<lambda>cur.
     wallet_Rehydrate (wr_id r) (wr_player_id r) cur (wr_balance_minor r) (wr_version r)
       (wr_created_at r) (wr_updated_at r))"

definition wallet_not_found :: goerror where
  "wallet_not_found = apperr_New KindNotFound ''WALLET_NOT_FOUND'' (Text ''wallet was not found'')"

definition wallets_Create :: "lib \<Rightarrow> wallet \<Rightarrow> unit io" where
  "wallets_Create L w =
     on_error (\<lambda>err.
       if isUniqueViolation err ''wallets_player_currency_unique''
       then apperr_Wrap KindConflict ''WALLET_ALREADY_EXISTS''
              (Text ''a wallet already exists for this player and currency'') err
       else WrapError ''postgres: insert wallet'' err)
     (stmt L (sql_insert_wallet (wallet_to_row w)))"

definition scan_wallet_row :: "wallet_row option \<Rightarrow> wallet io" where
  "scan_wallet_row row =
     (case row of None \<Rightarrow> throw wallet_not_found | Some r \<Rightarrow> lift (scanWallet r))"

definition wallets_GetByID :: "lib \<Rightarrow> uuid \<Rightarrow> wallet io" where
  "wallets_GetByID L i =
     bindM (on_error (WrapError ''postgres: scan wallet'') (stmt L (sql_wallet_by_id i))) scan_wallet_row"

definition wallets_GetByPlayerAndCurrency :: "lib \<Rightarrow> uuid \<Rightarrow> currency \<Rightarrow> wallet io" where
  "wallets_GetByPlayerAndCurrency L p c =
     bindM (on_error (WrapError ''postgres: scan wallet'') (stmt L (sql_wallet_by_player_currency p c)))
       scan_wallet_row"

definition version_conflict :: goerror where
  "version_conflict =
     apperr_New KindConflict wallet_CodeVersionConflict (Text ''wallet was modified concurrently'')"

definition wallets_UpdateBalance :: "lib \<Rightarrow> wallet \<Rightarrow> int64 \<Rightarrow> unit io" where
  "wallets_UpdateBalance L w expectedVersion =
     bindM
       (on_error (\<lambda>err.
          if isCheckViolation err
          then apperr_Wrap KindRejected wallet_CodeInsufficientFunds
                 (Text ''database rejected a negative balance'') err
          else WrapError ''postgres: update wallet balance'' err)
        (stmt L (sql_update_wallet (w_id w) (m_amount (w_balance w)) (w_updatedAt w) expectedVersion)))
       (\<lambda>affected. if affected = 0 then throw version_conflict else ret ())"

subsection \<open>Transactions (transaction_repo.go)\<close>

definition nullableString :: "string \<Rightarrow> string option" where
  "nullableString v = (if v = '''' then None else Some v)"

definition nullableTime :: "time option \<Rightarrow> time option" where
  "nullableTime v = (case v of None \<Rightarrow> None | Some t \<Rightarrow> if time_IsZero t then None else Some t)"

definition derefString :: "string option \<Rightarrow> string" where
  "derefString v = (case v of None \<Rightarrow> '''' | Some s \<Rightarrow> s)"

definition tx_to_row :: "transaction \<Rightarrow> tx_row" where
  "tx_to_row t =
     \<lparr>tr_id = t_id t, tr_origin = origin_string (t_origin t),
      tr_provider_id = nullableString (t_providerID t),
      tr_external_transaction_id = nullableString (t_externalTransactionID t),
      tr_idempotency_key = nullableString (t_idempotencyKey t),
      tr_payload_hash = nullableString (t_payloadHash t), tr_wallet_id = t_walletID t,
      tr_player_id = t_playerID t, tr_round_id = nullableString (t_roundID t),
      tr_game_id = nullableString (t_gameID t), tr_kind = kind_string (t_kind t),
      tr_amount_minor = m_amount (t_amount t), tr_currency = m_currency (t_amount t),
      tr_reference_external_transaction_id = nullableString (t_referenceExternalTransactionID t),
      tr_reference_transaction_id = t_referenceTransactionID t,
      tr_status = status_string (t_status t), tr_failure_code = nullableString (t_failureCode t),
      tr_result_balance_minor = map_option m_amount (t_resultBalance t),
      tr_attempts = t_attempts t, tr_next_attempt_at = nullableTime (t_nextAttemptAt t),
      tr_created_at = t_createdAt t, tr_updated_at = t_updatedAt t\<rparr>"

definition scanTransaction :: "tx_row \<Rightarrow> transaction result" where
  "scanTransaction r =
     and_then (NewCurrency (tr_currency r)) (\<lambda>cur.
     and_then (FromMinorUnits (tr_amount_minor r) cur) (\<lambda>amount.
     and_then (case tr_result_balance_minor r of
         None \<Rightarrow> Inr None
       | Some b \<Rightarrow> and_then (FromMinorUnits b cur) (\<lambda>balance. Inr (Some balance))) (\<lambda>resultBalance.
     and_then (ParseKind (tr_kind r)) (\<lambda>parsedKind.
     and_then (ParseStatus (tr_status r)) (\<lambda>parsedStatus.
     tx_Rehydrate \<lparr>t_id = tr_id r, t_origin = origin_of_string (tr_origin r),
       t_providerID = derefString (tr_provider_id r),
       t_externalTransactionID = derefString (tr_external_transaction_id r),
       t_idempotencyKey = derefString (tr_idempotency_key r),
       t_payloadHash = derefString (tr_payload_hash r), t_walletID = tr_wallet_id r,
       t_playerID = tr_player_id r, t_roundID = derefString (tr_round_id r),
       t_gameID = derefString (tr_game_id r), t_kind = parsedKind, t_amount = amount,
       t_referenceExternalTransactionID = derefString (tr_reference_external_transaction_id r),
       t_referenceTransactionID = tr_reference_transaction_id r, t_status = parsedStatus,
       t_failureCode = derefString (tr_failure_code r), t_resultBalance = resultBalance,
       t_attempts = tr_attempts r, t_nextAttemptAt = tr_next_attempt_at r,
       t_createdAt = tr_created_at r, t_updatedAt = tr_updated_at r\<rparr>)))))"

definition transaction_not_found :: goerror where
  "transaction_not_found =
     apperr_New KindNotFound ''TRANSACTION_NOT_FOUND'' (Text ''transaction was not found'')"

definition scan_tx_row :: "tx_row option \<Rightarrow> transaction io" where
  "scan_tx_row row =
     (case row of None \<Rightarrow> throw transaction_not_found | Some r \<Rightarrow> lift (scanTransaction r))"

definition classify_insert :: "goerror \<Rightarrow> goerror" where
  "classify_insert err =
     (if constraintName err = ''wager_tx_provider_external_unique'' then ErrDuplicateExternalTransaction
      else if constraintName err = ''wager_tx_provider_idempotency_unique'' then ErrDuplicateIdempotencyKey
      else if constraintName err = ''wager_tx_opening_unique'' then ErrDuplicateOpening
      else if constraintName err = ''wager_tx_reference_reversal_unique'' then ErrDuplicateReversal
      else WrapError ''postgres: insert wager transaction'' err)"

definition transactions_Insert :: "lib \<Rightarrow> transaction \<Rightarrow> unit io" where
  "transactions_Insert L t = on_error classify_insert (stmt L (sql_insert_tx (tx_to_row t)))"

definition tx_finalized_error :: goerror where
  "tx_finalized_error =
     apperr_New KindConflict CodeTerminalState (Text ''transaction is terminal or was already finalized'')"

definition transactions_Update :: "lib \<Rightarrow> transaction \<Rightarrow> unit io" where
  "transactions_Update L t =
     bindM
       (on_error (\<lambda>err.
          if isUniqueViolation err ''wager_tx_reference_reversal_unique'' then ErrDuplicateReversal
          else WrapError ''postgres: update wager transaction'' err)
        (stmt L (sql_update_tx (t_id t)
          (tx_row_set (t_referenceTransactionID t) (status_string (t_status t))
            (nullableString (t_failureCode t)) (map_option m_amount (t_resultBalance t))
            (t_attempts t) (nullableTime (t_nextAttemptAt t)) (t_updatedAt t)))))
       (\<lambda>affected. if affected = 0 then throw tx_finalized_error else ret ())"

definition scan_error :: "'a io \<Rightarrow> 'a io" where
  "scan_error m = on_error (WrapError ''postgres: scan wager transaction'') m"

definition transactions_GetByID :: "lib \<Rightarrow> uuid \<Rightarrow> transaction io" where
  "transactions_GetByID L i = bindM (scan_error (stmt L (sql_tx_by_id i))) scan_tx_row"

definition transactions_GetByProviderExternal :: "lib \<Rightarrow> string \<Rightarrow> string \<Rightarrow> transaction io" where
  "transactions_GetByProviderExternal L providerID externalID =
     bindM (scan_error (stmt L (sql_tx_by_external providerID externalID))) scan_tx_row"

definition transactions_GetByProviderIdempotencyKey :: "lib \<Rightarrow> string \<Rightarrow> string \<Rightarrow> transaction io" where
  "transactions_GetByProviderIdempotencyKey L providerID key =
     bindM (scan_error (stmt L (sql_tx_by_key providerID key))) scan_tx_row"

text \<open>\<open>if err != nil { if CodeOf(err) == "TRANSACTION_NOT_FOUND" { return nil, nil }; return nil, err }\<close>.\<close>

definition nil_if_not_found :: "transaction io \<Rightarrow> transaction option io" where
  "nil_if_not_found m =
     bindM (attempt m) (\<lambda>r. case r of
         Inl err \<Rightarrow> if CodeOf err = ''TRANSACTION_NOT_FOUND'' then ret None else throw err
       | Inr t \<Rightarrow> ret (Some t))"

definition transactions_ClaimOne :: "lib \<Rightarrow> time \<Rightarrow> transaction option io" where
  "transactions_ClaimOne L now =
     nil_if_not_found
       (bindM (scan_error (stmt_locked L (\<lambda>locked. sql_claim_tx locked now))) scan_tx_row)"

definition transactions_CountPending :: "lib \<Rightarrow> nat io" where
  "transactions_CountPending L =
     on_error (WrapError ''postgres: count pending transactions'') (stmt L sql_count_pending_tx)"

definition transactions_FindReversal :: "lib \<Rightarrow> uuid \<Rightarrow> kind \<Rightarrow> transaction option io" where
  "transactions_FindReversal L referenceID k =
     nil_if_not_found
       (bindM (scan_error (stmt L (sql_find_reversal referenceID (kind_string k)))) scan_tx_row)"

definition transactions_WakeDependents :: "lib \<Rightarrow> string \<Rightarrow> string \<Rightarrow> time \<Rightarrow> nat io" where
  "transactions_WakeDependents L providerID externalID now =
     on_error (WrapError ''postgres: wake dependents'')
       (stmt L (sql_wake_dependents providerID externalID now))"

subsection \<open>The ledger (ledger_repo.go) and the outbox (outbox_repo.go)\<close>

definition entry_to_row :: "entry \<Rightarrow> ledger_row" where
  "entry_to_row e =
     \<lparr>lr_id = e_id e, lr_wallet_id = e_walletID e, lr_transaction_id = e_transactionID e,
      lr_direction = direction_string (e_direction e), lr_amount_minor = m_amount (e_amount e),
      lr_currency = m_currency (e_amount e), lr_balance_before_minor = m_amount (e_balanceBefore e),
      lr_balance_after_minor = m_amount (e_balanceAfter e), lr_created_at = e_createdAt e\<rparr>"

definition ledgers_Insert :: "lib \<Rightarrow> entry \<Rightarrow> unit io" where
  "ledgers_Insert L e =
     on_error (\<lambda>err.
       if isUniqueViolation err ''ledger_wallet_transaction_unique'' then ErrDuplicateLedgerEntry
       else WrapError ''postgres: insert ledger entry'' err)
     (stmt L (sql_insert_ledger (entry_to_row e)))"

definition scanLedgerEntry :: "ledger_row \<Rightarrow> entry result" where
  "scanLedgerEntry r =
     and_then (NewCurrency (lr_currency r)) (\<lambda>cur.
     and_then (FromMinorUnits (lr_amount_minor r) cur) (\<lambda>amount.
     and_then (FromMinorUnits (lr_balance_before_minor r) cur) (\<lambda>balanceBefore.
     and_then (FromMinorUnits (lr_balance_after_minor r) cur) (\<lambda>after.
     and_then (ParseDirection (lr_direction r)) (\<lambda>parsedDirection.
     ledger_Rehydrate (lr_id r) (lr_wallet_id r) (lr_transaction_id r) parsedDirection amount
       balanceBefore after (lr_created_at r))))))"

definition event_to_row :: "OutboxEvent \<Rightarrow> outbox_row" where
  "event_to_row e =
     \<lparr>or_event_id = oe_EventID e, or_aggregate_id = oe_AggregateID e, or_event_type = oe_EventType e,
      or_payload = oe_Payload e, or_occurred_at = oe_OccurredAt e, or_attempts = oe_Attempts e,
      or_next_attempt_at =
        (if time_IsZero (oe_NextAttemptAt e) then oe_OccurredAt e else oe_NextAttemptAt e),
      or_published_at = None, or_locked_by = None, or_locked_at = None, or_last_error = None,
      or_created_at = oe_OccurredAt e\<rparr>"

definition outbox_Insert :: "lib \<Rightarrow> OutboxEvent \<Rightarrow> unit io" where
  "outbox_Insert L e =
     on_error (WrapError ''postgres: insert outbox event'') (stmt L (sql_insert_outbox (event_to_row e)))"

end
