(* ===== verification/Command.thy ===== *)
theory Command
  imports Repos Json
begin

section \<open>Commands and their payload hash (internal/app/wager/service.go, hash.go)\<close>

text \<open>
  The command of a provider, its validation, and the hash that identifies its payload: the
  SHA-256 (the argument \<open>sha\<close>) of the canonical JSON of its business fields, written in
  hexadecimal. \<open>json_string\<close> is the encoding of a string by \<open>encoding/json\<close>, with the escapes
  for HTML and the replacement of bytes that are not UTF-8.
\<close>

record ProcessCommand =
  cmd_ProviderID :: string
  cmd_ExternalTransactionID :: string
  cmd_IdempotencyKey :: string
  cmd_PlayerID :: uuid
  cmd_WalletID :: uuid
  cmd_RoundID :: string
  cmd_GameID :: string
  cmd_Kind :: kind
  cmd_Money :: money
  cmd_ReferenceExternalTransactionID :: string
  cmd_CorrelationID :: string
  cmd_CausationID :: string

definition cmd_Validate :: "ProcessCommand \<Rightarrow> unit result" where
  "cmd_Validate cmd =
     (if cmd_ProviderID cmd = '''' then Inl (tx_invalid ''providerId is required'')
      else if cmd_ExternalTransactionID cmd = ''''
      then Inl (tx_invalid ''externalTransactionId is required'')
      else if cmd_IdempotencyKey cmd = '''' then Inl (tx_invalid ''idempotency key is required'')
      else if cmd_PlayerID cmd = uuid_Nil \<or> cmd_WalletID cmd = uuid_Nil
      then Inl (tx_invalid ''playerId and walletId are required'')
      else if cmd_RoundID cmd = '''' \<or> cmd_GameID cmd = ''''
      then Inl (tx_invalid ''roundId and gameId are required'')
      else if \<not> money_IsValid (cmd_Money cmd)
      then Inl (apperr_New KindInvalid money_CodeInvalidAmount (Text ''money is required''))
      else if \<not> IsExternal (cmd_Kind cmd)
      then Inl (apperr_New KindInvalid CodeInvalidKind
             (Text ''OPENING is reserved for internal wallet creation''))
      else if RequiresReference (cmd_Kind cmd) \<and> cmd_ReferenceExternalTransactionID cmd = ''''
      then Inl (tx_invalid_kind ''%s requires referenceExternalTransactionId'' (cmd_Kind cmd))
      else if money_IsNegative (cmd_Money cmd)
      then Inl (apperr_New KindInvalid money_CodeNegativeAmount (Text ''amount must not be negative''))
      else if cmd_Kind cmd = KindLoss
      then (if \<not> money_IsZero (cmd_Money cmd)
            then Inl (apperr_New KindInvalid FailureInvalidAmount
                   (Text ''LOSS requires money.amount equal to 0.00''))
            else Inr ())
      else if \<not> money_IsPositive (cmd_Money cmd)
      then Inl (apperr_New KindInvalid FailureInvalidAmount
             (Sprintf ''%s requires a positive amount'' [SArg (kind_string (cmd_Kind cmd))]))
      else Inr ())"

subsection \<open>The hash\<close>

text \<open>\<open>json.Marshal\<close> of the map, whose keys it sorts.\<close>

definition canonical_payload :: "(uuid \<Rightarrow> string) \<Rightarrow> ProcessCommand \<Rightarrow> string" where
  "canonical_payload ustr cmd =
     json_object
       [(''externalTransactionId'', json_string (cmd_ExternalTransactionID cmd)),
        (''gameId'', json_string (cmd_GameID cmd)),
        (''kind'', json_string (kind_string (cmd_Kind cmd))),
        (''money'', json_object
          [(''amount'', json_string (AmountString (cmd_Money cmd))),
           (''currency'', json_string (m_currency (cmd_Money cmd)))]),
        (''playerId'', json_string (ustr (cmd_PlayerID cmd))),
        (''providerId'', json_string (cmd_ProviderID cmd)),
        (''referenceExternalTransactionId'', json_string (cmd_ReferenceExternalTransactionID cmd)),
        (''roundId'', json_string (cmd_RoundID cmd)),
        (''walletId'', json_string (ustr (cmd_WalletID cmd)))]"

definition hex_EncodeToString :: "string \<Rightarrow> string" where
  "hex_EncodeToString s = concat (map (\<lambda>c. [hex_digit (byte c div 16), hex_digit (byte c mod 16)]) s)"

definition ComputePayloadHash :: "(string \<Rightarrow> string) \<Rightarrow> (uuid \<Rightarrow> string) \<Rightarrow> ProcessCommand \<Rightarrow> string" where
  "ComputePayloadHash sha ustr cmd = hex_EncodeToString (sha (canonical_payload ustr cmd))"

end
