(* ===== verification/Wager_Service.thy ===== *)
theory Wager_Service
  imports Command
begin

section \<open>Processing wager operations (internal/app/wager/service.go)\<close>

text \<open>
  The use case: a command is applied once, in one database transaction, with a bounded number
  of attempts when another writer wins a race; an operation whose reference is missing is
  parked and resumed by a worker. A pointer to an aggregate that a callee mutates is passed and
  returned by value; the logger is not modelled. Identifiers are drawn just before the
  constructor that takes them.
\<close>

definition ErrIdempotencyConflict :: goerror where
  "ErrIdempotencyConflict = apperr_New KindConflict ''IDEMPOTENCY_CONFLICT''
     (Text ''idempotency key or external transaction id was already used with a different payload'')"

definition errReferencePending :: goerror where
  "errReferencePending = PlainError ''reference is not available yet''"

record Config =
  cf_MaxWalletRetries :: int64
  cf_ReferenceMaxAttempts :: int64
  cf_ReferenceBaseBackoff :: duration
  cf_ReferenceMaxBackoff :: duration

text \<open>The defaults of \<open>NewService\<close>.\<close>

definition NewService_config :: "Config \<Rightarrow> Config" where
  "NewService_config c =
     c\<lparr>cf_MaxWalletRetries := (if sint (cf_MaxWalletRetries c) < 1 then 5 else cf_MaxWalletRetries c),
       cf_ReferenceMaxAttempts :=
         (if sint (cf_ReferenceMaxAttempts c) < 1 then 10 else cf_ReferenceMaxAttempts c)\<rparr>"

record Result =
  rs_Transaction :: transaction
  rs_Status :: status
  rs_Balance :: money
  rs_HasBalance :: bool
  rs_FailureCode :: string
  rs_IdempotentReplay :: bool

definition isRetryable :: "goerror \<Rightarrow> bool" where
  "isRetryable err =
     (CodeOf err = wallet_CodeVersionConflict \<or>
      errors_Is err ErrDuplicateExternalTransaction \<or>
      errors_Is err ErrDuplicateIdempotencyKey \<or>
      errors_Is err ErrDuplicateReversal)"

definition correlationOf :: "lib \<Rightarrow> string \<Rightarrow> uuid \<Rightarrow> string" where
  "correlationOf L correlationID transactionID =
     (if correlationID \<noteq> '''' then correlationID else lib_uuid_String L transactionID)"

fun backoff_loop :: "nat \<Rightarrow> duration \<Rightarrow> duration \<Rightarrow> duration" where
  "backoff_loop 0 backoff mx = (if sint backoff > sint mx then mx else backoff)"
| "backoff_loop (Suc n) backoff mx =
     (let b = backoff * 2 in if sint b \<ge> sint mx then mx else backoff_loop n b mx)"

definition referenceBackoff :: "Config \<Rightarrow> int64 \<Rightarrow> duration" where
  "referenceBackoff c n =
     (let n' = if sint n < 1 then 1 else n
      in backoff_loop (nat (sint n' - 1)) (cf_ReferenceBaseBackoff c) (cf_ReferenceMaxBackoff c))"

definition replay :: "transaction \<Rightarrow> string \<Rightarrow> Result io" where
  "replay existing hash =
     (if t_payloadHash existing \<noteq> hash then throw ErrIdempotencyConflict
      else bindM (record_metric RecordIdempotentReplay) (\<lambda>_.
        ret \<lparr>rs_Transaction = existing, rs_Status = t_status existing,
          rs_Balance = (case t_resultBalance existing of Some b \<Rightarrow> b | None \<Rightarrow> money_zero_value),
          rs_HasBalance = (t_resultBalance existing \<noteq> None),
          rs_FailureCode = t_failureCode existing, rs_IdempotentReplay = True\<rparr>))"

definition enqueue :: "lib \<Rightarrow> uuid \<Rightarrow> Envelope \<Rightarrow> unit io" where
  "enqueue L aggregateID envelope =
     bindM (lift (Envelope_Marshal envelope)) (\<lambda>payload.
     bindM (on_error (WrapError ''wager: invalid event id'') (lift (lib_uuid_Parse L (EventID envelope))))
       (\<lambda>parsedID.
     outbox_Insert L \<lparr>oe_EventID = parsedID, oe_AggregateID = aggregateID,
       oe_EventType = EventType envelope, oe_Payload = payload, oe_OccurredAt = OccurredAt envelope,
       oe_Attempts = 0, oe_NextAttemptAt = OccurredAt envelope\<rparr>))"

definition reject ::
  "lib \<Rightarrow> transaction \<Rightarrow> wallet option \<Rightarrow> string \<Rightarrow> time \<Rightarrow> string \<Rightarrow> Result io" where
  "reject L t0 w code now correlationID =
     bindM (lift (MarkRejected t0 code (map_option w_balance w) now)) (\<lambda>t.
     bindM (transactions_Update L t) (\<lambda>_.
     bindM (uuid_NewV7 L) (\<lambda>newID.
     bindM (lift (NewWagerTransactionRejected (lib_uuid_String L) newID (t_id t) correlationID
         (lib_uuid_String L (t_id t)) now
         \<lparr>rd_TransactionID = lib_uuid_String L (t_id t), rd_ProviderID = t_providerID t,
          rd_ExternalTransactionID = t_externalTransactionID t,
          rd_WalletID = lib_uuid_String L (t_walletID t),
          rd_PlayerID = lib_uuid_String L (t_playerID t), rd_Kind = kind_string (t_kind t),
          rd_Status = status_string (t_status t), rd_FailureCode = code, rd_Money = t_amount t\<rparr>))
       (\<lambda>envelope.
     bindM (enqueue L (t_id t) envelope) (\<lambda>_.
     bindM (record_metric (RecordWagerTransaction ''REJECTED'' (kind_string (t_kind t)) code)) (\<lambda>_.
     ret \<lparr>rs_Transaction = t, rs_Status = StatusRejected,
          rs_Balance = (case w of Some w' \<Rightarrow> w_balance w' | None \<Rightarrow> money_zero_value),
          rs_HasBalance = (w \<noteq> None), rs_FailureCode = code, rs_IdempotentReplay = False\<rparr>))))))"

definition markProcessed :: "lib \<Rightarrow> transaction \<Rightarrow> money \<Rightarrow> time \<Rightarrow> string \<Rightarrow> Result io" where
  "markProcessed L t0 balance now correlationID =
     bindM (lift (MarkProcessed t0 balance now)) (\<lambda>t.
     bindM (transactions_Update L t) (\<lambda>_.
     bindM (uuid_NewV7 L) (\<lambda>newID.
     bindM (lift (NewWagerTransactionProcessed (lib_uuid_String L) newID (t_id t) correlationID
         (lib_uuid_String L (t_id t)) now
         \<lparr>pd_TransactionID = lib_uuid_String L (t_id t), pd_ProviderID = t_providerID t,
          pd_ExternalTransactionID = t_externalTransactionID t,
          pd_WalletID = lib_uuid_String L (t_walletID t),
          pd_PlayerID = lib_uuid_String L (t_playerID t), pd_RoundID = t_roundID t,
          pd_GameID = t_gameID t, pd_Kind = kind_string (t_kind t),
          pd_Status = status_string (t_status t), pd_Money = t_amount t, pd_Balance = balance\<rparr>))
       (\<lambda>envelope.
     bindM (enqueue L (t_id t) envelope) (\<lambda>_.
     bindM (if t_origin t = OriginExternal
            then bindM (transactions_WakeDependents L (t_providerID t) (t_externalTransactionID t) now)
                   (\<lambda>_. ret ())
            else ret ()) (\<lambda>_.
     bindM (record_metric (RecordWagerTransaction ''PROCESSED'' (kind_string (t_kind t)) '''')) (\<lambda>_.
     ret \<lparr>rs_Transaction = t, rs_Status = StatusProcessed, rs_Balance = balance,
          rs_HasBalance = True, rs_FailureCode = '''', rs_IdempotentReplay = False\<rparr>)))))))"

text \<open>The end of \<open>move\<close>: the ledger entry, the balance event, and the final status.\<close>

definition announce_movement ::
  "lib \<Rightarrow> transaction \<Rightarrow> wallet \<Rightarrow> direction \<Rightarrow> BalanceChange \<Rightarrow> time \<Rightarrow> string \<Rightarrow> Result io" where
  "announce_movement L t w direction change now correlationID =
     bindM (uuid_NewV7 L) (\<lambda>newID.
     bindM (lift (NewWalletBalanceChanged (lib_uuid_String L) newID (w_id w) correlationID
         (lib_uuid_String L (t_id t)) now
         \<lparr>bd_WalletID = lib_uuid_String L (w_id w),
          bd_TransactionID = lib_uuid_String L (t_id t), bd_Direction = direction,
          bd_Money = t_amount t, bd_BalanceBefore = bc_Before change,
          bd_BalanceAfter = bc_After change, bd_WalletVersion = w_version w\<rparr>)) (\<lambda>balanceEnvelope.
     bindM (enqueue L (w_id w) balanceEnvelope) (\<lambda>_.
     markProcessed L t (bc_After change) now correlationID)))"

definition record_movement ::
  "lib \<Rightarrow> transaction \<Rightarrow> wallet \<Rightarrow> direction \<Rightarrow> BalanceChange \<Rightarrow> time \<Rightarrow> string \<Rightarrow> Result io" where
  "record_movement L t w direction change now correlationID =
     bindM (uuid_NewV7 L) (\<lambda>entryID.
     bindM (lift (ledger_New entryID (w_id w) (t_id t) direction (t_amount t) (bc_Before change)
         (bc_After change) now)) (\<lambda>entry.
     bindM (ledgers_Insert L entry) (\<lambda>_.
     announce_movement L t w direction change now correlationID)))"

definition move ::
  "lib \<Rightarrow> transaction \<Rightarrow> wallet \<Rightarrow> direction \<Rightarrow> transaction option \<Rightarrow> time \<Rightarrow> string \<Rightarrow> Result io" where
  "move L t w direction ref now correlationID =
     (case wallet_Move direction w (t_amount t) now of
        Inl err \<Rightarrow>
          if CodeOf err = wallet_CodeInsufficientFunds
          then reject L t (Some w)
                 (if t_kind t = KindRollback then FailureReversalInsufficientFunds
                  else FailureInsufficientFunds) now correlationID
          else throw err
      | Inr (change, w') \<Rightarrow>
          bindM (wallets_UpdateBalance L w' (w_version w)) (\<lambda>_.
          record_movement L
            (case ref of Some r \<Rightarrow> SetReferenceResolution t (t_id r) now | None \<Rightarrow> t)
            w' direction change now correlationID))"

definition applyReversal ::
  "lib \<Rightarrow> transaction \<Rightarrow> wallet \<Rightarrow> transaction \<Rightarrow> time \<Rightarrow> string \<Rightarrow> Result io" where
  "applyReversal L t w ref now correlationID =
     (if t_kind ref = KindBet then move L t w DirectionCredit (Some ref) now correlationID
      else if t_kind ref = KindWin \<or> t_kind ref = KindRefund
      then move L t w DirectionDebit (Some ref) now correlationID
      else reject L t (Some w) FailureReferenceMismatch now correlationID)"

definition mismatchError :: "transaction \<Rightarrow> string \<Rightarrow> goerror" where
  "mismatchError t msg =
     apperr_New KindRejected FailureReferenceMismatch
       (Sprintf ''reference %s is invalid for transaction %s: %s''
         [SArg (t_referenceExternalTransactionID t), UArg (t_id t), SArg msg])"

text \<open>What a reference must be for the kind of the transaction.\<close>

definition reference_kind_error :: "transaction \<Rightarrow> transaction \<Rightarrow> goerror option" where
  "reference_kind_error t ref =
     (if t_kind t = KindRefund \<and> t_kind ref \<noteq> KindBet
      then Some (mismatchError t ''REFUND can only reference a BET'')
      else if t_kind t = KindRollback \<and> t_kind ref \<noteq> KindBet \<and> t_kind ref \<noteq> KindWin \<and>
        t_kind ref \<noteq> KindRefund
      then Some (mismatchError t ''ROLLBACK can only reference a BET, WIN or REFUND'')
      else if t_kind t = KindWin \<and> t_kind ref \<noteq> KindBet
      then Some (mismatchError t ''WIN can only reference a BET'')
      else None)"

text \<open>The checks on the reference that read nothing else.\<close>

definition check_reference :: "transaction \<Rightarrow> transaction \<Rightarrow> unit result" where
  "check_reference t ref =
     (if t_status ref = StatusPending \<or> t_status ref = StatusPendingReference
      then Inl errReferencePending
      else if t_status ref \<noteq> StatusProcessed
      then Inl (apperr_New KindRejected FailureReferenceNotProcessed
             (Sprintf ''reference %s finished with status %s''
               [SArg (t_externalTransactionID ref), SArg (status_string (t_status ref))]))
      else case reference_kind_error t ref of
        Some e \<Rightarrow> Inl e
      | None \<Rightarrow>
          if t_playerID ref \<noteq> t_playerID t \<or> t_walletID ref \<noteq> t_walletID t \<or>
            m_currency (t_amount ref) \<noteq> m_currency (t_amount t) \<or> t_roundID ref \<noteq> t_roundID t
          then Inl (mismatchError t ''reference does not agree on player, wallet, currency or round'')
          else if IsReversal (t_kind t)
          then and_then (money_Equal (t_amount ref) (t_amount t)) (\<lambda>equal.
            if \<not> equal
            then Inl (apperr_New KindRejected FailureReferenceAmountMismatch
                   (Text ''reversal amount must equal the referenced amount''))
            else Inr ())
          else Inr ())"

definition resolveReference :: "lib \<Rightarrow> transaction \<Rightarrow> transaction io" where
  "resolveReference L t =
     bindM (attempt (transactions_GetByProviderExternal L (t_providerID t)
              (t_referenceExternalTransactionID t))) (\<lambda>r. case r of
       Inl err \<Rightarrow> if KindOf err = KindNotFound then throw errReferencePending else throw err
     | Inr ref \<Rightarrow>
         bindM (lift (check_reference t ref)) (\<lambda>_.
         bindM (transactions_FindReversal L (t_id ref) (t_kind t)) (\<lambda>existing.
         if existing \<noteq> None
         then throw (apperr_New KindRejected FailureReversalConflict
                (Sprintf ''reference already has a successful %s'' [SArg (kind_string (t_kind t))]))
         else if t_kind ref = KindBet
         then (let crossKind = (if t_kind t = KindRollback then KindRefund else KindRollback) in
               bindM (transactions_FindReversal L (t_id ref) crossKind) (\<lambda>cross.
               if cross \<noteq> None
               then throw (apperr_New KindRejected FailureReversalConflict
                      (Sprintf ''bet already has a successful %s; it cannot be reversed again''
                        [SArg (kind_string crossKind)]))
               else ret ref))
         else ret ref)))"

definition scheduleReferenceRetry ::
  "lib \<Rightarrow> Config \<Rightarrow> transaction \<Rightarrow> time \<Rightarrow> string \<Rightarrow> Result io" where
  "scheduleReferenceRetry L c t0 now correlationID =
     (if sint (t_attempts t0 + 1) \<ge> sint (cf_ReferenceMaxAttempts c)
      then reject L t0 None FailureReferenceNotFound now correlationID
      else
        bindM (lift (if t_status t0 = StatusPending then MarkPendingReference t0 now else Inr t0)) (\<lambda>t1.
        let nextAt = time_Add now (referenceBackoff c (t_attempts t1 + 1)) in
        bindM (lift (ScheduleRetry t1 nextAt now)) (\<lambda>t.
        bindM (transactions_Update L t) (\<lambda>_.
        bindM (uuid_NewV7 L) (\<lambda>newID.
        bindM (lift (NewWagerTransactionPendingReference (lib_uuid_String L) newID (t_id t) correlationID
            (lib_uuid_String L (t_id t)) now
            \<lparr>prd_TransactionID = lib_uuid_String L (t_id t), prd_ProviderID = t_providerID t,
             prd_ExternalTransactionID = t_externalTransactionID t,
             prd_ReferenceExternalTransactionID = t_referenceExternalTransactionID t,
             prd_Attempt = t_attempts t, prd_NextAttemptAt = nextAt\<rparr>)) (\<lambda>envelope.
        bindM (enqueue L (t_id t) envelope) (\<lambda>_.
        bindM (record_metric (RecordWagerTransaction ''PENDING_REFERENCE'' (kind_string (t_kind t)) ''''))
          (\<lambda>_.
        ret \<lparr>rs_Transaction = t, rs_Status = StatusPendingReference, rs_Balance = money_zero_value,
             rs_HasBalance = False, rs_FailureCode = '''', rs_IdempotentReplay = False\<rparr>))))))))"

definition handleReferenceError ::
  "lib \<Rightarrow> Config \<Rightarrow> transaction \<Rightarrow> wallet \<Rightarrow> goerror \<Rightarrow> time \<Rightarrow> string \<Rightarrow> Result io" where
  "handleReferenceError L c t w refErr now correlationID =
     (if errors_Is refErr errReferencePending then scheduleReferenceRetry L c t now correlationID
      else if CodeOf refErr = '''' then throw refErr
      else reject L t (Some w) (CodeOf refErr) now correlationID)"

definition applyOperation :: "lib \<Rightarrow> Config \<Rightarrow> transaction \<Rightarrow> time \<Rightarrow> string \<Rightarrow> Result io" where
  "applyOperation L c t now correlationID =
     bindM
       (on_error (\<lambda>err. if KindOf err = KindNotFound
            then apperr_Wrap KindRejected FailureWalletNotFound (Text ''wallet does not exist'') err
            else err)
          (wallets_GetByID L (t_walletID t))) (\<lambda>w.
     if w_playerID w \<noteq> t_playerID t
     then reject L t (Some w) FailureWalletPlayerMismatch now correlationID
     else if w_currency w \<noteq> m_currency (t_amount t)
     then reject L t (Some w) FailureCurrencyMismatch now correlationID
     else if t_kind t = KindLoss then markProcessed L t (w_balance w) now correlationID
     else if t_kind t = KindBet then move L t w DirectionDebit None now correlationID
     else if t_kind t = KindWin \<and> t_referenceExternalTransactionID t = ''''
     then move L t w DirectionCredit None now correlationID
     else if t_kind t = KindWin \<or> t_kind t = KindRefund \<or> t_kind t = KindRollback
     then bindM (attempt (resolveReference L t)) (\<lambda>r. case r of
         Inl err \<Rightarrow> handleReferenceError L c t w err now correlationID
       | Inr ref \<Rightarrow>
           if t_kind t = KindWin then move L t w DirectionCredit (Some ref) now correlationID
           else applyReversal L t w ref now correlationID)
     else throw (apperr_New KindInvalid FailureUnsupportedKind
            (Sprintf ''kind %s cannot be processed'' [SArg (kind_string (t_kind t))])))"

definition params_of :: "ProcessCommand \<Rightarrow> string \<Rightarrow> ExternalParams" where
  "params_of cmd hash =
     \<lparr>xp_ProviderID = cmd_ProviderID cmd, xp_ExternalTransactionID = cmd_ExternalTransactionID cmd,
      xp_IdempotencyKey = cmd_IdempotencyKey cmd, xp_PayloadHash = hash,
      xp_WalletID = cmd_WalletID cmd, xp_PlayerID = cmd_PlayerID cmd, xp_RoundID = cmd_RoundID cmd,
      xp_GameID = cmd_GameID cmd, xp_Kind = cmd_Kind cmd, xp_Money = cmd_Money cmd,
      xp_ReferenceExternalTransactionID = cmd_ReferenceExternalTransactionID cmd\<rparr>"

text \<open>The part of \<open>processOnce\<close> after the two look-ups found nothing.\<close>

definition process_new :: "lib \<Rightarrow> Config \<Rightarrow> ProcessCommand \<Rightarrow> string \<Rightarrow> time \<Rightarrow> Result io" where
  "process_new L c cmd hash now =
     bindM (uuid_NewV7 L) (\<lambda>newID.
     bindM (lift (NewExternal newID (params_of cmd hash) now)) (\<lambda>t.
     bindM (transactions_Insert L t) (\<lambda>_.
     applyOperation L c t now (correlationOf L (cmd_CorrelationID cmd) (t_id t)))))"

definition processOnce :: "lib \<Rightarrow> Config \<Rightarrow> ProcessCommand \<Rightarrow> string \<Rightarrow> Result io" where
  "processOnce L c cmd hash =
     bindM (read_clock L) (\<lambda>now.
     bindM (attempt (transactions_GetByProviderExternal L (cmd_ProviderID cmd)
              (cmd_ExternalTransactionID cmd))) (\<lambda>r. case r of
       Inr existing \<Rightarrow> replay existing hash
     | Inl err \<Rightarrow>
         if KindOf err \<noteq> KindNotFound then throw err
         else
           bindM (attempt (transactions_GetByProviderIdempotencyKey L (cmd_ProviderID cmd)
                    (cmd_IdempotencyKey cmd))) (\<lambda>r. case r of
             Inr byKey \<Rightarrow>
               if t_externalTransactionID byKey = cmd_ExternalTransactionID cmd \<and>
                 t_payloadHash byKey = hash
               then replay byKey hash
               else throw ErrIdempotencyConflict
           | Inl err \<Rightarrow>
               if KindOf err \<noteq> KindNotFound then throw err
               else process_new L c cmd hash now)))"

definition retries_exhausted :: "string \<Rightarrow> goerror option \<Rightarrow> goerror" where
  "retries_exhausted msg lastErr = AppError KindConflict wallet_CodeVersionConflict (Text msg) lastErr"

text \<open>The loop of \<open>Process\<close>, with the number of attempts left and the last error.\<close>

definition note_conflict :: "goerror \<Rightarrow> unit io" where
  "note_conflict err =
     (if CodeOf err = wallet_CodeVersionConflict then record_metric RecordWalletVersionConflict
      else ret ())"

fun process_loop ::
  "lib \<Rightarrow> Config \<Rightarrow> ProcessCommand \<Rightarrow> string \<Rightarrow> nat \<Rightarrow> goerror option \<Rightarrow> Result io" where
  "process_loop L c cmd hash 0 lastErr =
     throw (retries_exhausted ''wallet kept changing during the operation'' lastErr)"
| "process_loop L c cmd hash (Suc n) lastErr =
     bindM (attempt (WithinTransaction L (processOnce L c cmd hash))) (\<lambda>r. case r of
       Inr result \<Rightarrow> ret result
     | Inl err \<Rightarrow>
         if isRetryable err
         then bindM (note_conflict err) (\<lambda>_. process_loop L c cmd hash n (Some err))
         else throw err)"

text \<open>\<open>for attempt := 0; attempt <= MaxWalletRetries; attempt++\<close> runs \<open>MaxWalletRetries + 1\<close>
  times, and not at all for a negative bound.\<close>

definition attempts_of :: "Config \<Rightarrow> nat" where
  "attempts_of c = nat (sint (cf_MaxWalletRetries c) + 1)"

definition Process :: "lib \<Rightarrow> Config \<Rightarrow> ProcessCommand \<Rightarrow> Result io" where
  "Process L c cmd =
     bindM (lift (cmd_Validate cmd)) (\<lambda>_.
     process_loop L c cmd (ComputePayloadHash (lib_sha256 L) (lib_uuid_String L) cmd) (attempts_of c) None)"

subsection \<open>Resuming parked operations\<close>

fun resume_attempts ::
  "lib \<Rightarrow> Config \<Rightarrow> transaction \<Rightarrow> bool \<Rightarrow> nat \<Rightarrow> goerror option \<Rightarrow> unit io" where
  "resume_attempts L c t first 0 lastErr =
     throw (retries_exhausted ''wallet kept changing during resume'' lastErr)"
| "resume_attempts L c t first (Suc n) lastErr =
     bindM (if first then ret t else transactions_GetByID L (t_id t)) (\<lambda>t.
     bindM (attempt (WithinTransaction L
         (bindM (read_clock L) (\<lambda>now. applyOperation L c t now (correlationOf L '''' (t_id t)))))) (\<lambda>r.
     case r of
       Inr _ \<Rightarrow> ret ()
     | Inl err \<Rightarrow>
         if isRetryable err
         then bindM (note_conflict err) (\<lambda>_. resume_attempts L c t False n (Some err))
         else throw err))"

definition resumeOne :: "lib \<Rightarrow> Config \<Rightarrow> bool io" where
  "resumeOne L c =
     WithinTransaction L
       (bindM (read_clock L) (\<lambda>now.
        bindM (transactions_ClaimOne L now) (\<lambda>claimed. case claimed of
          None \<Rightarrow> ret False
        | Some t \<Rightarrow> bindM (resume_attempts L c t True (attempts_of c) None) (\<lambda>_. ret True))))"

text \<open>\<open>ResumeDue\<close> returns how many rows it resumed, and the error that stopped it.\<close>

fun resume_due :: "lib \<Rightarrow> Config \<Rightarrow> nat \<Rightarrow> nat \<Rightarrow> (nat \<times> goerror option) io" where
  "resume_due L c 0 resumed = ret (resumed, None)"
| "resume_due L c (Suc n) resumed =
     bindM (attempt (resumeOne L c)) (\<lambda>r. case r of
       Inl err \<Rightarrow> ret (resumed, Some err)
     | Inr claimed \<Rightarrow> if claimed then resume_due L c n (resumed + 1) else ret (resumed, None))"

definition ResumeDue :: "lib \<Rightarrow> Config \<Rightarrow> int \<Rightarrow> (nat \<times> goerror option) io" where
  "ResumeDue L c limit = resume_due L c (nat limit) 0"

subsection \<open>Queries (internal/app/wager/queries.go)\<close>

definition GetTransaction :: "lib \<Rightarrow> uuid \<Rightarrow> transaction io" where
  "GetTransaction L i = transactions_GetByID L i"

definition GetByProviderExternal :: "lib \<Rightarrow> string \<Rightarrow> string \<Rightarrow> transaction io" where
  "GetByProviderExternal L providerID externalID =
     transactions_GetByProviderExternal L providerID externalID"

definition CountPending :: "lib \<Rightarrow> nat io" where
  "CountPending L = transactions_CountPending L"

end
