(* ===== verification/Atomicity.thy ===== *)
theory Atomicity
  imports Wager_Service
begin

section \<open>Transactions leave all or nothing\<close>

text \<open>
  Every operation of the service is framed: it closes what it opens and leaves the snapshots
  below it alone. From that, an operation that fails leaves the database as the other
  connections have made it meanwhile, whatever faults the connection had.
\<close>

lemma framed_option [framed_rules]:
  "(\<And>x. v = Some x \<Longrightarrow> framed L (f x)) \<Longrightarrow> framed L n \<Longrightarrow>
   framed L (case v of None \<Rightarrow> n | Some x \<Rightarrow> f x)"
  by (cases v) auto

lemma framed_sum [framed_rules]:
  "(\<And>x. framed L (f x)) \<Longrightarrow> (\<And>x. framed L (g x)) \<Longrightarrow>
   framed L (case v of Inl x \<Rightarrow> f x | Inr x \<Rightarrow> g x)"
  by (cases v) auto

lemma framed_prod [framed_rules]:
  "(\<And>x y. framed L (f x y)) \<Longrightarrow> framed L (case v of (x, y) \<Rightarrow> f x y)"
  by (cases v) auto

lemma framed_if [framed_rules]:
  "framed L a \<Longrightarrow> framed L b \<Longrightarrow> framed L (if c then a else b)"
  by simp

lemma framed_let [framed_rules]: "framed L (f x) \<Longrightarrow> framed L (let y = x in f y)"
  by simp

named_theorems io_defs

lemmas [io_defs] = scan_wallet_row_def scan_tx_row_def wallets_GetByID_def wallets_UpdateBalance_def
  transactions_Insert_def transactions_Update_def scan_error_def transactions_GetByID_def
  transactions_GetByProviderExternal_def transactions_GetByProviderIdempotencyKey_def
  nil_if_not_found_def transactions_ClaimOne_def transactions_CountPending_def
  transactions_FindReversal_def wallets_GetByPlayerAndCurrency_def wallets_Create_def
  transactions_WakeDependents_def ledgers_Insert_def outbox_Insert_def

lemma framed_scan [framed_rules]:
  "framed L (scan_wallet_row row)" "framed L (scan_tx_row r)"
  unfolding io_defs by (intro framed_rules)+

lemma framed_repos [framed_rules]:
  "framed L (wallets_GetByID L i)" "framed L (wallets_UpdateBalance L w v)"
  "framed L (wallets_GetByPlayerAndCurrency L pl cu)" "framed L (wallets_Create L w)"
  "framed L (transactions_CountPending L)"
  "framed L (transactions_Insert L t)" "framed L (transactions_Update L t)"
  "framed L (transactions_GetByID L i)" "framed L (transactions_GetByProviderExternal L p x)"
  "framed L (transactions_GetByProviderIdempotencyKey L p x)" "framed L (transactions_ClaimOne L now)"
  "framed L (transactions_FindReversal L i k)" "framed L (transactions_WakeDependents L p x now)"
  "framed L (ledgers_Insert L e)" "framed L (outbox_Insert L oe)"
  unfolding io_defs by (intro framed_rules)+

lemma framed_enqueue [framed_rules]: "framed L (enqueue L a e)"
  unfolding enqueue_def by (intro framed_rules)

lemma framed_reject [framed_rules]: "framed L (reject L t w code now corr)"
  unfolding reject_def by (intro framed_rules)

lemma framed_markProcessed [framed_rules]: "framed L (markProcessed L t b now corr)"
  unfolding markProcessed_def by (intro framed_rules)

lemma framed_move [framed_rules]: "framed L (move L t w d ref now corr)"
  unfolding move_def record_movement_def announce_movement_def by (intro framed_rules)

lemma framed_applyReversal [framed_rules]: "framed L (applyReversal L t w ref now corr)"
  unfolding applyReversal_def by (intro framed_rules)

lemma framed_resolveReference [framed_rules]: "framed L (resolveReference L t)"
  unfolding resolveReference_def by (intro framed_rules)

lemma framed_handleReferenceError [framed_rules]: "framed L (handleReferenceError L c t w e now corr)"
  unfolding handleReferenceError_def scheduleReferenceRetry_def by (intro framed_rules)

lemma framed_applyOperation [framed_rules]: "framed L (applyOperation L c t now corr)"
  unfolding applyOperation_def by (intro framed_rules)

lemma framed_replay [framed_rules]: "framed L (replay t h)"
  unfolding replay_def by (intro framed_rules)

lemma framed_processOnce [framed_rules]: "framed L (processOnce L c cmd h)"
  unfolding processOnce_def process_new_def by (intro framed_rules)

lemma framed_note_conflict [framed_rules]: "framed L (note_conflict e)"
  unfolding note_conflict_def by (intro framed_rules)

lemma framed_process_loop [framed_rules]: "framed L (process_loop L c cmd h n e)"
  by (induction n arbitrary: e) (auto intro!: framed_rules)

lemma framed_Process [framed_rules]: "framed L (Process L c cmd)"
  unfolding Process_def by (intro framed_rules)

lemma framed_resume_attempts [framed_rules]: "framed L (resume_attempts L c t first n e)"
  by (induction n arbitrary: t first e) (auto intro!: framed_rules)

lemma framed_resumeOne [framed_rules]: "framed L (resumeOne L c)"
  unfolding resumeOne_def by (intro framed_rules)

subsection \<open>A failed operation leaves no trace\<close>

lemma bindM_cases:
  assumes "bindM m k w = (r, w')"
  obtains (first) e where "m w = (Inl e, w')" and "r = Inl e"
  | (second) v w1 where "m w = (Inr v, w1)" and "k v w1 = (r, w')"
  using assms by (cases "m w"; cases "fst (m w)") (auto simp: bindM_def)

lemma commit_unknown_not_retryable: "commit_unknown e \<Longrightarrow> \<not> isRetryable e"
  by (auto simp: commit_unknown_def isRetryable_def wallet_CodeVersionConflict_def errors_Is_def
      Error_Is_def ErrDuplicateExternalTransaction_def ErrDuplicateIdempotencyKey_def
      ErrDuplicateReversal_def)

lemma note_conflict_world:
  "note_conflict e w = (r, w') \<Longrightarrow> r = Inr () \<and> wd_db w' = wd_db w \<and> wd_step w' = wd_step w \<and>
     wd_saves w' = wd_saves w \<and> wd_aborted w' = wd_aborted w"
  by (auto simp: note_conflict_def record_metric_def ret_def split: if_splits)

lemma process_loop_no_trace:
  assumes "process_loop L c cmd h n e0 w = (Inl e, w')" and "wd_saves w = []"
  shows "wd_db w' = drift L (wd_step w) (wd_step w') (wd_db w) \<or> commit_unknown e"
  using assms
proof (induction n arbitrary: e0 w)
  case 0
  then show ?case by (simp add: throw_def)
next
  case (Suc n)
  let ?tx = "WithinTransaction L (processOnce L c cmd h)"
  obtain r w1 where tx: "?tx w = (r, w1)" by (cases "?tx w")
  have fr: "framed L (processOnce L c cmd h)" by (intro framed_rules)
  note fr1 = framed_step [OF framed_WithinTransaction [OF fr] tx]
    framed_saves [OF framed_WithinTransaction [OF fr] tx]
  show ?case
  proof (cases r)
    case (Inr v)
    then show ?thesis using Suc.prems(1) tx by (simp add: bindM_def attempt_def ret_def)
  next
    case (Inl err)
    with tx have tx': "?tx w = (Inl err, w1)" by simp
    from WithinTransaction_error_no_trace [OF fr tx' Suc.prems(2)]
    consider (trace) "wd_db w1 = drift L (wd_step w) (wd_step w1) (wd_db w)" | (unknown) "commit_unknown err"
      by blast
    then show ?thesis
    proof cases
      case unknown
      then show ?thesis
        using Suc.prems(1) tx Inl commit_unknown_not_retryable
        by (auto simp: bindM_def attempt_def throw_def)
    next
      case trace
      show ?thesis
      proof (cases "isRetryable err")
        case False
        then show ?thesis
          using Suc.prems(1) tx Inl trace by (auto simp: bindM_def attempt_def throw_def)
      next
        case True
        obtain q w2 where nt: "note_conflict err w1 = (q, w2)" by (cases "note_conflict err w1")
        note nw = note_conflict_world [OF nt]
        have loop: "process_loop L c cmd h n (Some err) w2 = (Inl e, w')"
          using Suc.prems(1) tx Inl True nt nw by (simp add: bindM_def attempt_def)
        have saves: "wd_saves w2 = []" using nw fr1 Suc.prems(2) by simp
        have "wd_step w2 \<le> wd_step w'"
          by (rule framed_step [OF framed_process_loop loop])
        with Suc.IH [OF loop saves] nw trace fr1 show ?thesis
          using drift_trans [of "wd_step w" "wd_step w1" "wd_step w'" L] by auto
      qed
    qed
  qed
qed

lemma Process_no_trace:
  assumes "Process L c cmd w = (Inl e, w')" and "wd_saves w = []"
  shows "wd_db w' = drift L (wd_step w) (wd_step w') (wd_db w) \<or> commit_unknown e"
proof (cases "cmd_Validate cmd")
  case (Inl x)
  then show ?thesis using assms by (simp add: Process_def bindM_def lift_def)
next
  case (Inr u)
  then show ?thesis
    using assms process_loop_no_trace by (fastforce simp: Process_def bindM_def lift_def)
qed

text \<open>An environment without faults and without other connections.\<close>

definition quiet :: "lib \<Rightarrow> bool" where
  "quiet L \<longleftrightarrow> (\<forall>n. lib_fault L n = None) \<and> (\<forall>n d. lib_others L n d = d)"

lemma quiet_drift: "quiet L \<Longrightarrow> drift L m n d = d"
  by (induction n) (auto simp: quiet_def drift_def)

subsection \<open>A sample environment for the witnesses\<close>

definition sample_lib :: lib where
  "sample_lib = \<lparr>lib_clock = (\<lambda>n. 100 + int n), lib_NewV7 = (\<lambda>n. of_nat (20 + n)),
     lib_uuid_String = decimal_uuid, lib_uuid_Parse = parse_decimal_uuid, lib_sha256 = (\<lambda>_. ''h''),
     lib_fault = (\<lambda>_. None), lib_ack_lost = (\<lambda>_. False), lib_locked = (\<lambda>_ _. False),
     lib_others = (\<lambda>_ d. d), lib_broker = (\<lambda>_. Accepted)\<rparr>"

definition sample_config :: Config where
  "sample_config = \<lparr>cf_MaxWalletRetries = 2, cf_ReferenceMaxAttempts = 3,
     cf_ReferenceBaseBackoff = 10, cf_ReferenceMaxBackoff = 100\<rparr>"

definition sample_db :: db where
  "sample_db = \<lparr>db_wallets = [wallet_to_row sample_wallet], db_transactions = [], db_ledger = [],
     db_inbox = [], db_outbox = []\<rparr>"

definition sample_world :: world where
  "sample_world = \<lparr>wd_step = 0, wd_db = sample_db, wd_saves = [], wd_aborted = False,
     wd_metrics = [], wd_broker = []\<rparr>"

definition sample_cmd :: ProcessCommand where
  "sample_cmd = \<lparr>cmd_ProviderID = ''p'', cmd_ExternalTransactionID = ''x'', cmd_IdempotencyKey = ''k'',
     cmd_PlayerID = 2, cmd_WalletID = 1, cmd_RoundID = ''r'', cmd_GameID = ''g'', cmd_Kind = KindBet,
     cmd_Money = \<lparr>m_amount = 8000, m_currency = ''BRL''\<rparr>,
     cmd_ReferenceExternalTransactionID = '''', cmd_CorrelationID = '''', cmd_CausationID = ''''\<rparr>"

lemma quiet_sample_lib: "quiet sample_lib"
  by (simp add: quiet_def sample_lib_def)

lemma sample_hex: "hex_EncodeToString ''h'' = ''68''"
  by code_simp

lemma sample_hash [simp]: "ComputePayloadHash (lib_sha256 sample_lib) u cmd = ''68''"
  by (simp add: ComputePayloadHash_def sample_lib_def sample_hex)

lemma Process_valid:
  "cmd_Validate cmd = Inr () \<Longrightarrow> Process L c cmd w =
     process_loop L c cmd (ComputePayloadHash (lib_sha256 L) (lib_uuid_String L) cmd) (attempts_of c) None w"
  by (simp add: Process_def bindM_def lift_def)

lemma sample_attempts: "attempts_of sample_config = 3"
  by (simp add: attempts_of_def sample_config_def)

definition unknown_wallet_cmd :: ProcessCommand where
  "unknown_wallet_cmd = sample_cmd\<lparr>cmd_WalletID := 77\<rparr>"

lemma unknown_wallet_valid: "cmd_Validate unknown_wallet_cmd = Inr ()"
  by (simp add: cmd_Validate_def unknown_wallet_cmd_def sample_cmd_def uuid_Nil_def money_defs
      IsExternal_def RequiresReference_def)

lemma unknown_wallet_loop:
  "fst (process_loop sample_lib sample_config unknown_wallet_cmd ''68'' 3 None sample_world) =
     Inl (WrapError ''postgres: insert wager transaction''
        (PgError ''23503'' ''wager_transactions_wallet_id_fkey''))"
  by code_simp

lemma unknown_wallet_run:
  "fst (Process sample_lib sample_config unknown_wallet_cmd sample_world) =
     Inl (WrapError ''postgres: insert wager transaction''
        (PgError ''23503'' ''wager_transactions_wallet_id_fkey''))"
  using unknown_wallet_loop by (simp add: Process_valid unknown_wallet_valid sample_attempts)

subsection \<open>Properties\<close>

text \<open>
  (C5) A failed operation leaves no trace: if \<open>Process\<close> returns an error, whatever faults the
  connection has, however many attempts were made and whatever other connections commit
  meanwhile, the database is exactly what those other connections have made of it, unless the
  error is that of a COMMIT whose outcome the client cannot know.
\<close>

theorem Process_error_leaves_no_trace:
  assumes "Process L c cmd w = (Inl e, w')" and "wd_saves w = []"
  shows "wd_db w' = fold (lib_others L) [wd_step w..<wd_step w'] (wd_db w) \<or>
     (\<exists>s. e = WrapError ''postgres: commit transaction'' (LibError s))"
  using Process_no_trace [OF assms] by (simp add: drift_def commit_unknown_def)

theorem Process_error_leaves_no_trace_witness:
  "wd_db (snd (Process sample_lib sample_config unknown_wallet_cmd sample_world)) = sample_db"
proof -
  obtain w' where run: "Process sample_lib sample_config unknown_wallet_cmd sample_world =
      (Inl (WrapError ''postgres: insert wager transaction''
        (PgError ''23503'' ''wager_transactions_wallet_id_fkey'')), w')"
    using unknown_wallet_run by (metis prod.collapse)
  have "fold (lib_others sample_lib) ns d = d" for ns and d :: db
    by (induction ns) (simp_all add: sample_lib_def)
  then show ?thesis
    using Process_error_leaves_no_trace [OF run] run by (simp add: sample_world_def)
qed

end
