(* ===== verification/Balances.thy ===== *)
theory Balances
  imports Atomicity
begin

section \<open>Balances and the ledger under concurrency\<close>

text \<open>
  The financial invariant: the balance of every wallet is the sum of its ledger entries. A
  small program logic shows that the service keeps it in the presence of faults, rollbacks and
  other connections, if the other connections keep it too and follow the version protocol.
\<close>

subsection \<open>The invariant\<close>

definition wallet_at :: "db \<Rightarrow> uuid \<Rightarrow> wallet_row option" where
  "wallet_at d i = find (\<lambda>r. wr_id r = i) (db_wallets d)"

definition wallet_balance :: "db \<Rightarrow> uuid \<Rightarrow> int" where
  "wallet_balance d i = (case wallet_at d i of None \<Rightarrow> 0 | Some r \<Rightarrow> sint (wr_balance_minor r))"

definition wallet_version :: "db \<Rightarrow> uuid \<Rightarrow> int" where
  "wallet_version d i = (case wallet_at d i of None \<Rightarrow> 0 | Some r \<Rightarrow> sint (wr_version r))"

definition ledger_total :: "db \<Rightarrow> uuid \<Rightarrow> int" where
  "ledger_total d i = sum_list (map ledger_row_effect (filter (\<lambda>r. lr_wallet_id r = i) (db_ledger d)))"

definition wallets_ok :: "db \<Rightarrow> bool" where
  "wallets_ok d \<longleftrightarrow> distinct (map wr_id (db_wallets d)) \<and>
     (\<forall>r \<in> set (db_wallets d). 1 \<le> sint (wr_version r))"

text \<open>How far the balances are from the ledger.\<close>

definition gap :: "db \<Rightarrow> uuid \<Rightarrow> int" where
  "gap d i = wallet_balance d i - ledger_total d i"

definition ledger_balanced :: "db \<Rightarrow> bool" where
  "ledger_balanced d \<longleftrightarrow> wallets_ok d \<and> (\<forall>i. wallet_balance d i = ledger_total d i)"

definition off_by :: "uuid \<Rightarrow> int \<Rightarrow> db \<Rightarrow> bool" where
  "off_by i k d \<longleftrightarrow> wallets_ok d \<and> gap d = (\<lambda>j. if j = i then k else 0)"

lemma ledger_balanced_off_by: "ledger_balanced d \<longleftrightarrow> off_by i 0 d"
  by (auto simp: ledger_balanced_def off_by_def gap_def fun_eq_iff)

subsection \<open>What is asked of the other connections\<close>

text \<open>
  What another connection commits keeps every gap (it moves balances and ledger together),
  never takes a version back, and never changes a wallet without changing its version.
\<close>

definition admissible :: "db \<Rightarrow> db \<Rightarrow> bool" where
  "admissible d d' \<longleftrightarrow> (wallets_ok d \<longrightarrow> wallets_ok d') \<and> gap d' = gap d \<and>
     (\<forall>i. wallet_version d i \<le> wallet_version d' i \<and>
        (wallet_version d' i = wallet_version d i \<longrightarrow> wallet_at d' i = wallet_at d i))"

definition rely :: "lib \<Rightarrow> bool" where
  "rely L \<longleftrightarrow> (\<forall>n d. admissible d (lib_others L n d))"

lemma admissible_refl: "admissible d d"
  by (simp add: admissible_def)

lemma admissible_trans: "admissible d d' \<Longrightarrow> admissible d' d'' \<Longrightarrow> admissible d d''"
  unfolding admissible_def by (metis order.antisym order.trans)

text \<open>What a reader of a wallet still knows when others have been served.\<close>

definition seen :: "wallet \<Rightarrow> db \<Rightarrow> bool" where
  "seen w d \<longleftrightarrow> sint (w_version w) \<le> wallet_version d (w_id w) \<and>
     (wallet_version d (w_id w) = sint (w_version w) \<longrightarrow>
        wallet_balance d (w_id w) = sint (m_amount (w_balance w)))"

subsection \<open>Optimistic concurrency as a contract\<close>

text \<open>
  A store of versioned cells: writers other than us follow the version protocol, and a write
  that names a version succeeds only on that version. Then a write after any activity of the
  others replaces exactly the content that was read.
\<close>

locale versioned_cells =
  fixes cell_version :: "'d \<Rightarrow> 'k \<Rightarrow> int"
    and content :: "'d \<Rightarrow> 'k \<Rightarrow> 'v"
    and cas :: "'k \<Rightarrow> 'v \<Rightarrow> int \<Rightarrow> 'd \<Rightarrow> 'd option"
    and others :: "'d \<Rightarrow> 'd \<Rightarrow> bool"
    and valid :: "'d \<Rightarrow> bool"
  assumes others_valid: "others d d' \<Longrightarrow> valid d \<Longrightarrow> valid d'"
    and others_version: "others d d' \<Longrightarrow> cell_version d k \<le> cell_version d' k"
    and others_content: "others d d' \<Longrightarrow> cell_version d' k = cell_version d k \<Longrightarrow> content d' k = content d k"
    and cas_expected: "valid d \<Longrightarrow> cas k v n d = Some d' \<Longrightarrow> cell_version d k = n"
    and cas_content: "valid d \<Longrightarrow> cas k v n d = Some d' \<Longrightarrow> content d' = (content d)(k := v)"
    and cas_version: "valid d \<Longrightarrow> cas k v n d = Some d' \<Longrightarrow>
      cell_version d' = (cell_version d)(k := n + 1)"
begin

lemma run_others:
  "others\<^sup>*\<^sup>* d d' \<Longrightarrow> valid d \<Longrightarrow>
     valid d' \<and> cell_version d k \<le> cell_version d' k \<and>
     (cell_version d' k = cell_version d k \<longrightarrow> content d' k = content d k)"
proof (induction rule: rtranclp_induct)
  case (step y z)
  with others_valid [OF step(2)] others_version [OF step(2), of k] others_content [OF step(2), of k]
  show ?case by auto
qed simp

text \<open>No lost update: what is overwritten is what was read.\<close>

lemma cas_replaces_read:
  assumes "others\<^sup>*\<^sup>* d d1" and "valid d" and "cas k v (cell_version d k) d1 = Some d2"
  shows "content d1 k = content d k" and "content d2 = (content d1)(k := v)"
    and "cell_version d k < cell_version d2 k"
  using run_others [OF assms(1,2), of k] cas_expected [OF _ assms(3)] cas_content [OF _ assms(3)]
    cas_version [OF _ assms(3)] by auto

text \<open>Of two writers that read the same version, at most one succeeds.\<close>

lemma cas_once:
  assumes "valid d" and "cas k v n d = Some d1" and "valid d1" and "others\<^sup>*\<^sup>* d1 d2"
  shows "cas k v' n d2 = None"
proof (rule ccontr)
  assume "cas k v' n d2 \<noteq> None"
  then obtain d3 where "cas k v' n d2 = Some d3" by blast
  then show False
    using run_others [OF assms(4,3), of k] cas_expected [of d2 k v' n d3] cas_version [OF assms(1,2)]
    by auto
qed

end

text \<open>The wallets table with \<open>UpdateBalance\<close>'s statement, as such cells.\<close>

definition wallet_cas :: "time \<Rightarrow> uuid \<Rightarrow> int \<Rightarrow> int \<Rightarrow> db \<Rightarrow> db option" where
  "wallet_cas now i balance n d =
     (if in_int64 balance \<and> in_int64 n then
        (case sql_update_wallet i (word_of_int balance) now (word_of_int n) d of
           Inr (Suc _, d') \<Rightarrow> Some d' | _ \<Rightarrow> None)
      else None)"

lemma find_versioned:
  assumes "distinct (map wr_id rs)"
  shows "find (\<lambda>r. wr_id r = i \<and> wr_version r = v) rs =
    (case find (\<lambda>r. wr_id r = i) rs of None \<Rightarrow> None
     | Some r \<Rightarrow> if wr_version r = v then Some r else None)"
  using assms
proof (induction rs)
  case (Cons r rs)
  show ?case
  proof (cases "wr_id r = i")
    case True
    with Cons.prems have "find (\<lambda>r. wr_id r = i \<and> wr_version r = v) rs = None"
      by (auto simp: find_None_iff image_iff)
    with True show ?thesis by simp
  next
    case False
    with Cons show ?thesis by simp
  qed
qed simp

lemma find_replaced:
  assumes "distinct (map wr_id rs)" and "find (\<lambda>r. wr_id r = i) rs = Some r"
    and "wr_version r = v" and "wr_id r' = i"
  shows "find (\<lambda>q. wr_id q = j) (map (\<lambda>q. if wr_id q = i \<and> wr_version q = v then r' else q) rs) =
    (if j = i then Some r' else find (\<lambda>q. wr_id q = j) rs)"
  using assms
proof (induction rs)
  case (Cons q rs)
  show ?case
  proof (cases "wr_id q = i")
    case True
    with Cons.prems have no: "find (\<lambda>q. wr_id q = i) rs = None"
      by (auto simp: find_None_iff image_iff)
    then have "map (\<lambda>q. if wr_id q = i \<and> wr_version q = v then r' else q) rs = rs"
      by (intro map_idI) (auto simp: find_None_iff)
    with True Cons.prems show ?thesis by auto
  next
    case False
    with Cons show ?thesis by auto
  qed
qed simp

lemma id_replaced:
  assumes "wr_id r' = i"
  shows "wr_id \<circ> (\<lambda>q. if wr_id q = i \<and> wr_version q = v then r' else q) = wr_id"
  using assms by (simp add: fun_eq_iff)

lemma sint_succ: "a \<noteq> MaxInt64 \<Longrightarrow> sint (a + 1 :: int64) = sint a + 1"
  using sint_lower [of a] sint_upper [of a] sint_eq_iff [of a MaxInt64]
  by (subst sint_add_exact) (auto simp: in_int64_def MaxInt64_def)

lemma sql_update_wallet_dest:
  assumes ok: "wallets_ok d" and run: "sql_update_wallet i b u e d = Inr (Suc k, d')"
  obtains r where "wallet_at d i = Some r" and "wr_version r = e"
    and "wallets_ok d'" and "db_ledger d' = db_ledger d"
    and "wallet_balance d' = (wallet_balance d)(i := sint b)"
    and "wallet_version d' = (wallet_version d)(i := sint e + 1)"
    and "\<forall>j. j \<noteq> i \<longrightarrow> wallet_at d' j = wallet_at d j"
proof -
  have dist: "distinct (map wr_id (db_wallets d))"
    and pos: "\<forall>r \<in> set (db_wallets d). 1 \<le> sint (wr_version r)"
    using ok by (simp_all add: wallets_ok_def)
  note fv = find_versioned [OF dist, of i e, folded wallet_at_def]
  from run obtain r where r: "wallet_at d i = Some r" "wr_version r = e" and e: "e \<noteq> MaxInt64"
    by (auto simp: sql_update_wallet_def fv Let_def split: option.splits if_splits)
  define r' where "r' = r\<lparr>wr_balance_minor := b, wr_version := wr_version r + 1, wr_updated_at := u\<rparr>"
  have id: "wr_id r = i" using r by (auto simp: wallet_at_def find_Some_iff)
  then have id': "wr_id r' = i" by (simp add: r'_def)
  have v': "sint (wr_version r') = sint e + 1" using r e by (simp add: r'_def sint_succ)
  have mem: "r \<in> set (db_wallets d)" using r by (auto simp: wallet_at_def find_Some_iff)
  have d': "d' = d\<lparr>db_wallets :=
      map (\<lambda>q. if wr_id q = i \<and> wr_version q = e then r' else q) (db_wallets d)\<rparr>"
    using run r e by (auto simp: sql_update_wallet_def fv Let_def r'_def split: option.splits)
  have at: "wallet_at d' j = (if j = i then Some r' else wallet_at d j)" for j
    using find_replaced [OF dist r(1) [unfolded wallet_at_def] r(2) id', of j]
    by (simp add: d' wallet_at_def)
  have "wallets_ok d'"
    using ok v' pos mem r unfolding wallets_ok_def d'
    by (auto simp: id_replaced [OF id'])
  moreover have "wallet_balance d' = (wallet_balance d)(i := sint b)"
    by (auto simp: wallet_balance_def at fun_eq_iff) (simp add: r'_def)
  moreover have "wallet_version d' = (wallet_version d)(i := sint e + 1)"
    by (auto simp: wallet_version_def at fun_eq_iff v')
  moreover have "db_ledger d' = db_ledger d" by (simp add: d')
  moreover have "\<forall>j. j \<noteq> i \<longrightarrow> wallet_at d' j = wallet_at d j" by (simp add: at)
  ultimately show thesis using that r by blast
qed

interpretation wallet_cells: versioned_cells wallet_version wallet_balance "wallet_cas now" admissible wallets_ok
proof
  fix d d' :: db and k
  show "admissible d d' \<Longrightarrow> wallets_ok d \<Longrightarrow> wallets_ok d'" by (simp add: admissible_def)
  show "admissible d d' \<Longrightarrow> wallet_version d k \<le> wallet_version d' k" by (simp add: admissible_def)
  show "admissible d d' \<Longrightarrow> wallet_version d' k = wallet_version d k \<Longrightarrow>
      wallet_balance d' k = wallet_balance d k" by (simp add: admissible_def wallet_balance_def)
next
  fix d d' :: db and k v n
  assume ok: "wallets_ok d" and cas: "wallet_cas now k v n d = Some d'"
  then obtain m where range: "in_int64 v" "in_int64 n"
    and run: "sql_update_wallet k (word_of_int v) now (word_of_int n) d = Inr (Suc m, d')"
    by (auto simp: wallet_cas_def split: if_splits sum.splits nat.splits prod.splits)
  obtain r where r: "wallet_at d k = Some r" "wr_version r = word_of_int n"
    and new: "wallet_balance d' = (wallet_balance d)(k := sint (word_of_int v :: int64))"
      "wallet_version d' = (wallet_version d)(k := sint (word_of_int n :: int64) + 1)"
    by (rule sql_update_wallet_dest [OF ok run])
  show "wallet_version d k = n" using r range by (simp add: wallet_version_def sint_word_of_int)
  show "wallet_balance d' = (wallet_balance d)(k := v)" using new range by (simp add: sint_word_of_int)
  show "wallet_version d' = (wallet_version d)(k := n + 1)" using new range by (simp add: sint_word_of_int)
qed

end
