(* ===== verification/Logic.thy ===== *)
theory Logic
  imports Balances
begin

section \<open>A program logic for the service\<close>

text \<open>
  Triples over the database that the connection sees, for an invariant \<open>I\<close> of what is committed.
  A world is live for an assertion when every snapshot it can fall back to satisfies the invariant
  and, unless the transaction is aborted (then nothing can be committed), the assertion holds. A
  triple says what a result and what an error leave.
\<close>

definition live_for :: "(db \<Rightarrow> bool) \<Rightarrow> (db \<Rightarrow> bool) \<Rightarrow> nat \<Rightarrow> world \<Rightarrow> bool" where
  "live_for I P n w \<longleftrightarrow> length (wd_saves w) = n \<and> (\<forall>d \<in> set (wd_saves w). I d) \<and>
     (wd_aborted w \<and> n \<noteq> 0 \<or> \<not> wd_aborted w \<and> P (wd_db w))"

definition triple_for ::
  "(db \<Rightarrow> bool) \<Rightarrow> nat \<Rightarrow> (db \<Rightarrow> bool) \<Rightarrow> 'a io \<Rightarrow> ('a \<Rightarrow> db \<Rightarrow> bool) \<Rightarrow> (db \<Rightarrow> bool) \<Rightarrow> bool" where
  "triple_for I n P m Q E \<longleftrightarrow> (\<forall>w. live_for I P n w \<longrightarrow>
     (case m w of (Inr v, w') \<Rightarrow> live_for I (Q v) n w' | (Inl e, w') \<Rightarrow> live_for I E n w'))"

text \<open>What the other connections cannot make false.\<close>

definition stable :: "lib \<Rightarrow> (db \<Rightarrow> bool) \<Rightarrow> bool" where
  "stable L P \<longleftrightarrow> (\<forall>n d. P d \<longrightarrow> P (lib_others L n d))"

text \<open>What a change of the database of the kind \<open>F\<close> cannot make false.\<close>

definition depends :: "(db \<Rightarrow> db \<Rightarrow> bool) \<Rightarrow> (db \<Rightarrow> bool) \<Rightarrow> bool" where
  "depends F P \<longleftrightarrow> (\<forall>d d'. F d d' \<longrightarrow> P d \<longrightarrow> P d')"

text \<open>An operation whose statements make only such changes keeps every such assertion.\<close>

definition keeps_in :: "(db \<Rightarrow> db \<Rightarrow> bool) \<Rightarrow> lib \<Rightarrow> 'a io \<Rightarrow> bool" where
  "keeps_in F L m \<longleftrightarrow> (\<forall>I n P. stable L P \<longrightarrow> depends F P \<longrightarrow> stable L I \<longrightarrow>
     triple_for I n P m (\<lambda>_. P) P)"

lemma tripleI:
  assumes "\<And>w v w'. live_for I P n w \<Longrightarrow> m w = (Inr v, w') \<Longrightarrow> live_for I (Q v) n w'"
    and "\<And>w e w'. live_for I P n w \<Longrightarrow> m w = (Inl e, w') \<Longrightarrow> live_for I E n w'"
  shows "triple_for I n P m Q E"
  using assms by (auto simp: triple_for_def split: prod.splits sum.splits)

lemma tripleD:
  "triple_for I n P m Q E \<Longrightarrow> live_for I P n w \<Longrightarrow> m w = (Inr v, w') \<Longrightarrow> live_for I (Q v) n w'"
  "triple_for I n P m Q E \<Longrightarrow> live_for I P n w \<Longrightarrow> m w = (Inl e, w') \<Longrightarrow> live_for I E n w'"
  by (fastforce simp: triple_for_def)+

lemma live_mono: "live_for I P n w \<Longrightarrow> (\<And>d. P d \<Longrightarrow> Q d) \<Longrightarrow> live_for I Q n w"
  by (auto simp: live_for_def)

lemma triple_conseq:
  assumes "triple_for I n P m Q E" and "\<And>d. P' d \<Longrightarrow> P d"
    and "\<And>v d. Q v d \<Longrightarrow> Q' v d" and "\<And>d. E d \<Longrightarrow> E' d"
  shows "triple_for I n P' m Q' E'"
proof (rule tripleI)
  fix w v w' assume "live_for I P' n w" and run: "m w = (Inr v, w')"
  then have "live_for I P n w" using assms(2) by (blast intro: live_mono)
  from tripleD(1) [OF assms(1) this run] show "live_for I (Q' v) n w'"
    by (rule live_mono) (rule assms(3))
next
  fix w e w' assume "live_for I P' n w" and run: "m w = (Inl e, w')"
  then have "live_for I P n w" using assms(2) by (blast intro: live_mono)
  from tripleD(2) [OF assms(1) this run] show "live_for I E' n w'"
    by (rule live_mono) (rule assms(4))
qed

lemma live_tick:
  assumes "live_for I P n w" and "stable L P" and "stable L I"
  shows "live_for I P n (tick L w)"
  using assms by (auto simp: live_for_def stable_def)

lemma triple_ret: "(\<And>d. P d \<Longrightarrow> Q v d) \<Longrightarrow> triple_for I n P (ret v) Q E"
  by (intro tripleI) (auto simp: ret_def live_for_def)

lemma triple_throw: "(\<And>d. P d \<Longrightarrow> E d) \<Longrightarrow> triple_for I n P (throw e) Q E"
  by (intro tripleI) (auto simp: throw_def live_for_def)

lemma triple_lift:
  assumes "\<And>v d. r = Inr v \<Longrightarrow> P d \<Longrightarrow> Q v d" and "\<And>d. P d \<Longrightarrow> E d"
  shows "triple_for I n P (lift r) Q E"
  using assms by (intro tripleI) (auto simp: lift_def live_for_def)

lemma triple_metric: "(\<And>d. P d \<Longrightarrow> Q () d) \<Longrightarrow> triple_for I n P (record_metric m) Q E"
  by (intro tripleI) (auto simp: record_metric_def live_for_def)

lemma triple_bind:
  assumes "triple_for I n P m R E" and "\<And>v. triple_for I n (R v) (k v) Q E"
  shows "triple_for I n P (bindM m k) Q E"
proof (rule tripleI)
  fix w v w' assume w: "live_for I P n w" and run: "bindM m k w = (Inr v, w')"
  from run show "live_for I (Q v) n w'"
    by (cases rule: bindM_cases) (auto dest: tripleD(1) [OF assms(1) w] tripleD [OF assms(2)])
next
  fix w e w' assume w: "live_for I P n w" and run: "bindM m k w = (Inl e, w')"
  from run show "live_for I E n w'"
    by (cases rule: bindM_cases) (auto dest: tripleD [OF assms(1) w] tripleD [OF assms(2)])
qed

text \<open>The same, with a fact about the value that does not depend on the database.\<close>

lemma triple_bind_fact:
  assumes "triple_for I n P m R E" and fact: "\<And>w v w'. m w = (Inr v, w') \<Longrightarrow> F v"
    and "\<And>v. F v \<Longrightarrow> triple_for I n (R v) (k v) Q E"
  shows "triple_for I n P (bindM m k) Q E"
proof (rule tripleI)
  fix w v w' assume w: "live_for I P n w" and run: "bindM m k w = (Inr v, w')"
  from run show "live_for I (Q v) n w'"
    by (cases rule: bindM_cases)
      (auto dest: tripleD(1) [OF assms(1) w] tripleD [OF assms(3) [OF fact]])
next
  fix w e w' assume w: "live_for I P n w" and run: "bindM m k w = (Inl e, w')"
  from run show "live_for I E n w'"
    by (cases rule: bindM_cases)
      (auto dest: tripleD [OF assms(1) w] tripleD [OF assms(3) [OF fact]])
qed

lemma triple_lift_bind:
  "(\<And>v. r = Inr v \<Longrightarrow> triple_for I n P (k v) Q (\<lambda>_. True)) \<Longrightarrow>
     triple_for I n P (bindM (lift r) k) Q (\<lambda>_. True)"
  by (rule triple_bind_fact [where F = "\<lambda>v. r = Inr v" and R = "\<lambda>_. P"]) (auto intro: triple_lift simp: lift_def)

lemma triple_if:
  "triple_for I n P a Q E \<Longrightarrow> triple_for I n P b Q E \<Longrightarrow> triple_for I n P (if c then a else b) Q E"
  by simp

lemma triple_attempt:
  assumes "triple_for I n P m R F"
  shows "triple_for I n P (attempt m) (\<lambda>r. case r of Inl _ \<Rightarrow> F | Inr v \<Rightarrow> R v) E"
  using tripleD [OF assms]
  by (intro tripleI) (auto simp: attempt_def split: prod.splits sum.splits)

lemma triple_on_error: "triple_for I n P m Q E \<Longrightarrow> triple_for I n P (on_error f m) Q E"
  using tripleD by (intro tripleI) (fastforce simp: on_error_def split: prod.splits sum.splits)+

lemma triple_clock:
  assumes "stable L P" and "stable L I" and "\<And>v d. P d \<Longrightarrow> Q v d"
  shows "triple_for I n P (read_clock L) Q E"
  using assms by (intro tripleI) (auto simp: read_clock_def intro: live_mono dest: live_tick)

lemma triple_NewV7:
  assumes "stable L P" and "stable L I" and "\<And>v d. P d \<Longrightarrow> Q v d"
  shows "triple_for I n P (uuid_NewV7 L) Q E"
  using assms by (intro tripleI) (auto simp: uuid_NewV7_def intro: live_mono dest: live_tick)

lemma triple_stmt:
  assumes "stable L P" and "stable L I"
    and step: "\<And>d v d'. P d \<Longrightarrow> f d = Inr (v, d') \<Longrightarrow> Q v d'" and err: "\<And>d. P d \<Longrightarrow> E d"
  shows "triple_for I n P (stmt L f) Q E"
proof -
  have t: "live_for I P n (tick L w)" if "live_for I P n w" for w
    using that live_tick assms(1,2) by blast
  have dbt: "P (lib_others L (wd_step w) (wd_db w))" if "live_for I P n w" "\<not> wd_aborted w" for w
    using t [OF that(1)] that(2) by (simp add: live_for_def)
  show ?thesis
  proof (rule tripleI)
    fix w v w' assume w: "live_for I P n w" and run: "stmt L f w = (Inr v, w')"
    then show "live_for I (Q v) n w'"
      using t [OF w] step [OF dbt [OF w]]
      by (auto simp: stmt_def Let_def live_for_def split: if_splits option.splits sum.splits)
  next
    fix w e w' assume w: "live_for I P n w" and run: "stmt L f w = (Inl e, w')"
    then show "live_for I E n w'"
      using t [OF w] err [OF dbt [OF w]]
      by (auto simp: stmt_def Let_def live_for_def fail_world_def split: if_splits option.splits sum.splits)
  qed
qed

lemma triple_stmt_locked:
  assumes "\<And>locked. triple_for I n P (stmt L (f locked)) Q E"
  shows "triple_for I n P (stmt_locked L f) Q E"
  using assms by (auto simp: triple_for_def stmt_locked_def)

subsection \<open>Transactions\<close>

lemma live_saves: "live_for I P n w \<Longrightarrow> d \<in> set (wd_saves w) \<Longrightarrow> I d"
  by (simp add: live_for_def)

lemma live_begin:
  assumes "live_for I P n w" and "stable L I" and "stable L P" and "\<And>d. P d \<Longrightarrow> I d" and "begin_tx L w = (r, w1)"
  shows "case r of Inl _ \<Rightarrow> live_for I I n w1 | Inr _ \<Rightarrow> live_for I P (Suc n) w1"
proof -
  have t: "triple_for I n P (stmt L (\<lambda>d. Inr ((), d))) (\<lambda>_. P) P"
    using assms(2,3) by (intro triple_stmt) auto
  obtain q w0 where s: "stmt L (\<lambda>d. Inr ((), d)) w = (q, w0)" by (cases "stmt L (\<lambda>d. Inr ((), d)) w")
  show ?thesis
  proof (cases q)
    case (Inl e)
    then show ?thesis
      using assms(5) s live_mono [OF tripleD(2) [OF t assms(1)] assms(4)] by (auto simp: begin_tx_def bindM_def)
  next
    case (Inr u)
    have "\<not> wd_aborted w0"
      using s Inr by (auto simp: stmt_def Let_def split: if_splits option.splits sum.splits)
    then show ?thesis
      using assms(4,5) s Inr tripleD(1) [OF t assms(1), of u w0]
      by (auto simp: begin_tx_def bindM_def live_for_def)
  qed
qed

lemma live_restore:
  assumes "live_for I P (Suc n) w"
  shows "live_for I I n (restore_save w)"
  using assms by (cases "wd_saves w") (auto simp: live_for_def restore_save_def)

lemma live_drop:
  assumes "live_for I I (Suc n) w" and "\<not> wd_aborted w \<or> n \<noteq> 0"
  shows "live_for I I n (drop_save w)"
  using assms by (cases "wd_saves w") (auto simp: live_for_def drop_save_def)

lemma live_drop_aborted:
  assumes "live_for I P (Suc n) w" and "n \<noteq> 0"
  shows "live_for I Q n ((drop_save w)\<lparr>wd_aborted := True\<rparr>)"
  using assms by (cases "wd_saves w") (auto simp: live_for_def drop_save_def)

lemma live_top: "live_for I P 0 w \<longleftrightarrow> wd_saves w = [] \<and> \<not> wd_aborted w \<and> P (wd_db w)"
  by (auto simp: live_for_def)

lemma live_anything:
  assumes "live_for I P n w" shows "live_for I (\<lambda>_. True) n w"
  using assms by (auto simp: live_for_def)

lemma live_tick_any: "live_for I P n w \<Longrightarrow> stable L I \<Longrightarrow> live_for I (\<lambda>_. True) n (tick L w)"
  by (rule live_tick [OF live_anything]) (simp_all add: stable_def)

lemma triple_WithinTransaction_from:
  assumes st: "stable L I" and P: "stable L P" "\<And>d. P d \<Longrightarrow> I d"
    and body: "triple_for I (Suc n) P fn (\<lambda>_. I) (\<lambda>_. True)"
  shows "triple_for I n P (WithinTransaction L fn) (\<lambda>_. I) I"
proof -
  have "live_for I I n w'"
    if w: "live_for I P n w" and run: "WithinTransaction L fn w = (r, w')" for w r w'
    using run
  proof (cases rule: WithinTransaction_cases)
    case (begin_failed e)
    then show ?thesis using live_begin [OF w st P begin_failed(1)] by simp
  next
    case (failed w1 w2 e)
    have "live_for I P (Suc n) w1" using live_begin [OF w st P failed(1)] by simp
    then have "live_for I (\<lambda>_. True) (Suc n) w2" by (rule tripleD(2) [OF body _ failed(2)])
    then have t: "live_for I (\<lambda>_. True) (Suc n) (tick L w2)" by (rule live_tick_any [OF _ st])
    show ?thesis unfolding failed(4) rollback_tx_def by (rule live_restore [OF t])
  next
    case (failed_nested w1 w2 e re)
    have n: "n \<noteq> 0" using w failed_nested(3) by (auto simp: live_for_def)
    have "live_for I P (Suc n) w1" using live_begin [OF w st P failed_nested(1)] by simp
    then have "live_for I (\<lambda>_. True) (Suc n) w2" by (rule tripleD(2) [OF body _ failed_nested(2)])
    then have t: "live_for I (\<lambda>_. True) (Suc n) (tick L w2)" by (rule live_tick_any [OF _ st])
    show ?thesis
      using failed_nested(4) live_restore [OF t] live_drop_aborted [OF t n]
      by (auto simp: rollback_savepoint_def Let_def split: option.splits)
  next
    case (finished w1 w2 v cr)
    have n: "n = 0" using w finished(3) by (auto simp: live_for_def)
    have "live_for I P (Suc n) w1" using live_begin [OF w st P finished(1)] by simp
    then have "live_for I I (Suc n) w2" by (rule tripleD(1) [OF body _ finished(2)])
    then have t: "live_for I I (Suc n) (tick L w2)" by (rule live_tick [OF _ st st])
    show ?thesis
      using finished(4) live_restore [OF t] live_drop [OF t]
      by (auto simp: commit_tx_def Let_def split: option.splits if_splits)
  next
    case (finished_nested w1 w2 v cr)
    have n: "n \<noteq> 0" using w finished_nested(3) by (auto simp: live_for_def)
    have "live_for I P (Suc n) w1" using live_begin [OF w st P finished_nested(1)] by simp
    then have w2: "live_for I I (Suc n) w2" by (rule tripleD(1) [OF body _ finished_nested(2)])
    have "triple_for I (Suc n) I (stmt L (\<lambda>d. Inr ((), d))) (\<lambda>_. I) I"
      using st by (intro triple_stmt) auto
    then have "live_for I I (Suc n) w3" if "stmt L (\<lambda>d. Inr ((), d)) w2 = (q, w3)" for q w3
      using that w2 by (cases q) (auto dest: tripleD)
    then show ?thesis
      using finished_nested(4) live_drop n
      by (auto simp: release_savepoint_def split: prod.splits)
  qed
  then show ?thesis by (intro tripleI) blast+
qed

lemma triple_WithinTransaction:
  assumes "stable L I" and "triple_for I (Suc n) I fn (\<lambda>_. I) (\<lambda>_. True)"
  shows "triple_for I n I (WithinTransaction L fn) (\<lambda>_. I) I"
  by (rule triple_WithinTransaction_from [OF assms(1,1) _ assms(2)])

lemma triple_top:
  assumes "triple_for I 0 I m (\<lambda>_. I) I" and "wd_saves w = []" and "\<not> wd_aborted w" and "I (wd_db w)"
  shows "I (wd_db (snd (m w)))"
proof -
  have "live_for I I 0 w" using assms(2-4) by (simp add: live_top)
  then show ?thesis
    using assms(1) by (cases "m w"; cases "fst (m w)") (auto simp: triple_for_def live_top)
qed

subsection \<open>Operations that leave wallets and ledger alone\<close>

named_theorems keeps_rules

lemma keepsI:
  assumes "\<And>I n P. stable L P \<Longrightarrow> depends F P \<Longrightarrow> stable L I \<Longrightarrow> triple_for I n P m (\<lambda>_. P) P"
  shows "keeps_in F L m"
  using assms by (simp add: keeps_in_def)

lemma keepsD:
  "keeps_in F L m \<Longrightarrow> stable L P \<Longrightarrow> depends F P \<Longrightarrow> stable L I \<Longrightarrow> triple_for I n P m (\<lambda>_. P) P"
  by (simp add: keeps_in_def)

lemma keeps_ret [keeps_rules]: "keeps_in F L (ret v)"
  by (intro keepsI triple_ret)

lemma keeps_throw [keeps_rules]: "keeps_in F L (throw e)"
  by (intro keepsI triple_throw)

lemma keeps_lift [keeps_rules]: "keeps_in F L (lift r)"
  by (intro keepsI triple_lift)

lemma keeps_metric [keeps_rules]: "keeps_in F L (record_metric m)"
  by (intro keepsI triple_metric)

lemma keeps_clock [keeps_rules]: "keeps_in F L (read_clock L)"
  by (intro keepsI triple_clock)

lemma keeps_NewV7 [keeps_rules]: "keeps_in F L (uuid_NewV7 L)"
  by (intro keepsI triple_NewV7)

lemma triple_broker_call:
  assumes "stable L P" and "stable L I" and "\<And>d. P d \<Longrightarrow> Q () d" and "\<And>d. P d \<Longrightarrow> E d"
  shows "triple_for I n P (broker_call L op) Q E"
proof (rule tripleI)
  fix w v w' assume w: "live_for I P n w" and run: "broker_call L op w = (Inr v, w')"
  then have "live_for I P n w'"
    using live_tick [OF w assms(1,2)]
    by (auto simp: broker_call_def Let_def live_for_def split: broker_outcome.splits)
  then show "live_for I (Q v) n w'" by (rule live_mono) (simp add: assms(3))
next
  fix w e w' assume w: "live_for I P n w" and run: "broker_call L op w = (Inl e, w')"
  then have "live_for I P n w'"
    using live_tick [OF w assms(1,2)]
    by (auto simp: broker_call_def Let_def live_for_def split: broker_outcome.splits)
  then show "live_for I E n w'" by (rule live_mono) (rule assms(4))
qed

lemma keeps_broker_call [keeps_rules]: "keeps_in F L (broker_call L op)"
  by (intro keepsI triple_broker_call)

lemma keeps_bindM [keeps_rules]: "keeps_in F L m \<Longrightarrow> (\<And>v. keeps_in F L (k v)) \<Longrightarrow> keeps_in F L (bindM m k)"
  by (intro keepsI triple_bind) (auto intro: keepsD)

lemma keeps_attempt [keeps_rules]: "keeps_in F L m \<Longrightarrow> keeps_in F L (attempt m)"
proof (rule keepsI)
  fix I n P
  assume m: "keeps_in F L m" and P: "stable L P" "depends F P" "stable L I"
  have "triple_for I n P (attempt m) (\<lambda>r. case r of Inl _ \<Rightarrow> P | Inr v \<Rightarrow> P) P"
    by (rule triple_attempt [OF keepsD [OF m P]])
  then show "triple_for I n P (attempt m) (\<lambda>_. P) P"
    by (rule triple_conseq) (simp_all split: sum.splits)
qed

lemma keeps_on_error [keeps_rules]: "keeps_in F L m \<Longrightarrow> keeps_in F L (on_error f m)"
  by (rule keepsI, rule triple_on_error, erule keepsD)

definition only_in :: "(db \<Rightarrow> db \<Rightarrow> bool) \<Rightarrow> (db \<Rightarrow> ('a \<times> db) result) \<Rightarrow> bool" where
  "only_in F f \<longleftrightarrow> (\<forall>d v d'. f d = Inr (v, d') \<longrightarrow> F d d')"

lemma keeps_stmt: "only_in F f \<Longrightarrow> keeps_in F L (stmt L f)"
  by (intro keepsI triple_stmt) (unfold only_in_def depends_def, blast+)

lemma keeps_stmt_locked: "(\<And>locked. only_in F (f locked)) \<Longrightarrow> keeps_in F L (stmt_locked L f)"
  by (rule keepsI, rule triple_stmt_locked, rule keepsD [OF keeps_stmt])

lemma keeps_option [keeps_rules]:
  "(\<And>x. v = Some x \<Longrightarrow> keeps_in F L (f x)) \<Longrightarrow> keeps_in F L n \<Longrightarrow> keeps_in F L (case v of None \<Rightarrow> n | Some x \<Rightarrow> f x)"
  by (cases v) auto

lemma keeps_sum [keeps_rules]:
  "(\<And>x. keeps_in F L (f x)) \<Longrightarrow> (\<And>x. keeps_in F L (g x)) \<Longrightarrow> keeps_in F L (case v of Inl x \<Rightarrow> f x | Inr x \<Rightarrow> g x)"
  by (cases v) auto

lemma keeps_if [keeps_rules]: "keeps_in F L a \<Longrightarrow> keeps_in F L b \<Longrightarrow> keeps_in F L (if c then a else b)"
  by simp

lemma keeps_let [keeps_rules]: "keeps_in F L (f x) \<Longrightarrow> keeps_in F L (let y = x in f y)"
  by simp

subsection \<open>Statements that leave wallets, transactions and ledger alone\<close>

definition records_same :: "db \<Rightarrow> db \<Rightarrow> bool" where
  "records_same d d' \<longleftrightarrow>
     db_wallets d' = db_wallets d \<and> db_transactions d' = db_transactions d \<and> db_ledger d' = db_ledger d"

text \<open>A kind of change that includes these.\<close>

definition wide :: "(db \<Rightarrow> db \<Rightarrow> bool) \<Rightarrow> bool" where
  "wide F \<longleftrightarrow> (\<forall>d d'. records_same d d' \<longrightarrow> F d d')"

lemma only_in_wide: "only_in records_same f \<Longrightarrow> wide F \<Longrightarrow> only_in F f"
  by (auto simp: only_in_def wide_def)

lemma records_same_sql:
  "only_in records_same (sql_wallet_by_id i)" "only_in records_same (sql_wallet_by_player_currency pl cu)"
  "only_in records_same (sql_tx_by_id i)" "only_in records_same sql_count_pending_tx"
  "only_in records_same (sql_tx_by_external p x)" "only_in records_same (sql_tx_by_key p x)"
  "only_in records_same (sql_claim_tx lk now)" "only_in records_same (sql_find_reversal i k)"
  "only_in records_same (sql_insert_outbox o')"
  by (auto simp: only_in_def records_same_def sql_wallet_by_id_def sql_wallet_by_player_currency_def
      sql_tx_by_id_def sql_count_pending_tx_def sql_tx_by_external_def sql_tx_by_key_def sql_claim_tx_def
      sql_find_reversal_def sql_insert_outbox_def split: option.splits if_splits)

lemma keeps_looking:
  assumes "wide F"
  shows "keeps_in F L (stmt L (sql_wallet_by_id i))" "keeps_in F L (stmt L (sql_wallet_by_player_currency pl cu))"
    "keeps_in F L (stmt L (sql_tx_by_id i))" "keeps_in F L (stmt L sql_count_pending_tx)"
    "keeps_in F L (stmt L (sql_tx_by_external p x))" "keeps_in F L (stmt L (sql_tx_by_key p x))"
    "keeps_in F L (stmt_locked L (\<lambda>lk. sql_claim_tx lk now))" "keeps_in F L (stmt L (sql_find_reversal j k))"
    "keeps_in F L (stmt L (sql_insert_outbox o'))"
  by (intro keeps_stmt keeps_stmt_locked only_in_wide [OF _ assms] records_same_sql)+

lemma keeps_scan [keeps_rules]: "keeps_in F L (scan_wallet_row row)" "keeps_in F L (scan_tx_row r)"
  unfolding io_defs by (intro keeps_rules)+

lemma keeps_look_ups:
  assumes "wide F"
  shows "keeps_in F L (wallets_GetByID L i)" "keeps_in F L (wallets_GetByPlayerAndCurrency L pl cu)"
    "keeps_in F L (transactions_GetByID L i)" "keeps_in F L (transactions_GetByProviderExternal L p x)"
    "keeps_in F L (transactions_GetByProviderIdempotencyKey L p x)" "keeps_in F L (transactions_ClaimOne L now)"
    "keeps_in F L (transactions_FindReversal L i k)" "keeps_in F L (transactions_CountPending L)"
    "keeps_in F L (outbox_Insert L oe)"
  unfolding io_defs by (intro keeps_rules keeps_looking assms)+

lemma keeps_enqueue_in: "wide F \<Longrightarrow> keeps_in F L (enqueue L a e)"
  unfolding enqueue_def by (intro keeps_rules keeps_look_ups)

lemma keeps_resolveReference_in: "wide F \<Longrightarrow> keeps_in F L (resolveReference L t)"
  unfolding resolveReference_def Let_def by (intro keeps_rules keeps_look_ups)

lemma keeps_replay [keeps_rules]: "keeps_in F L (replay t h)"
  unfolding replay_def by (intro keeps_rules)

lemma keeps_note_conflict [keeps_rules]: "keeps_in F L (note_conflict e)"
  unfolding note_conflict_def by (intro keeps_rules)

subsection \<open>The balances\<close>

abbreviation live :: "(db \<Rightarrow> bool) \<Rightarrow> nat \<Rightarrow> world \<Rightarrow> bool" where
  "live \<equiv> live_for ledger_balanced"

abbreviation triple ::
  "nat \<Rightarrow> (db \<Rightarrow> bool) \<Rightarrow> 'a io \<Rightarrow> ('a \<Rightarrow> db \<Rightarrow> bool) \<Rightarrow> (db \<Rightarrow> bool) \<Rightarrow> bool" where
  "triple \<equiv> triple_for ledger_balanced"

text \<open>A change of neither wallets nor ledger.\<close>

definition money_untouched :: "db \<Rightarrow> db \<Rightarrow> bool" where
  "money_untouched d d' \<longleftrightarrow> db_wallets d' = db_wallets d \<and> db_ledger d' = db_ledger d"

abbreviation on_balances :: "(db \<Rightarrow> bool) \<Rightarrow> bool" where
  "on_balances \<equiv> depends money_untouched"

abbreviation keeps :: "lib \<Rightarrow> 'a io \<Rightarrow> bool" where
  "keeps \<equiv> keeps_in money_untouched"

abbreviation only_elsewhere :: "(db \<Rightarrow> ('a \<times> db) result) \<Rightarrow> bool" where
  "only_elsewhere \<equiv> only_in money_untouched"

lemmas only_elsewhere_def = only_in_def [of money_untouched] money_untouched_def

lemma wide_money [keeps_rules]: "wide money_untouched"
  by (simp add: wide_def records_same_def money_untouched_def)

lemma elsewhere_sql:
  "only_elsewhere (sql_insert_tx r)" "only_elsewhere (sql_update_tx i ch)"
  "only_elsewhere (sql_wake_dependents p x now)"
  by (auto simp: only_elsewhere_def sql_insert_tx_def sql_update_tx_def sql_wake_dependents_def Let_def
      split: option.splits if_splits)

lemma keeps_statements [keeps_rules]:
  "keeps L (stmt L (sql_insert_tx r))" "keeps L (stmt L (sql_update_tx i ch))"
  "keeps L (stmt L (sql_wake_dependents p x now))"
  by (intro keeps_stmt elsewhere_sql)+

lemma keeps_repos [keeps_rules]:
  "keeps L (wallets_GetByID L i)" "keeps L (transactions_Insert L t)" "keeps L (transactions_Update L t)"
  "keeps L (transactions_GetByID L i)" "keeps L (transactions_GetByProviderExternal L p x)"
  "keeps L (transactions_GetByProviderIdempotencyKey L p x)" "keeps L (transactions_ClaimOne L now)"
  "keeps L (transactions_FindReversal L i k)" "keeps L (transactions_WakeDependents L p x now)"
  "keeps L (outbox_Insert L oe)" "keeps L (wallets_GetByPlayerAndCurrency L pl cu)"
  "keeps L (transactions_CountPending L)"
  using keeps_look_ups [OF wide_money]
  by (simp_all add: transactions_Insert_def transactions_Update_def transactions_WakeDependents_def keeps_rules)

lemma keeps_enqueue [keeps_rules]: "keeps L (enqueue L a e)"
  by (intro keeps_enqueue_in wide_money)

lemma keeps_reject [keeps_rules]: "keeps L (reject L t w code now corr)"
  unfolding reject_def by (intro keeps_rules)

lemma keeps_markProcessed [keeps_rules]: "keeps L (markProcessed L t b now corr)"
  unfolding markProcessed_def by (intro keeps_rules)

lemma keeps_announce_movement [keeps_rules]: "keeps L (announce_movement L t w d ch now corr)"
  unfolding announce_movement_def by (intro keeps_rules)

lemma keeps_resolveReference [keeps_rules]: "keeps L (resolveReference L t)"
  by (intro keeps_resolveReference_in wide_money)

lemma keeps_handleReferenceError [keeps_rules]: "keeps L (handleReferenceError L c t w e now corr)"
  unfolding handleReferenceError_def scheduleReferenceRetry_def by (intro keeps_rules)

end
