(* ===== verification/Consistency.thy ===== *)
theory Consistency
  imports Logic
begin

section \<open>The service keeps every balance equal to its ledger\<close>

subsection \<open>Assertions that survive the other connections\<close>

lemma stable_off_by: "rely L \<Longrightarrow> stable L (off_by i k)"
  by (auto simp: stable_def rely_def admissible_def off_by_def)

lemma stable_balanced: "rely L \<Longrightarrow> stable L ledger_balanced"
  using stable_off_by [of L i 0] by (simp add: stable_def ledger_balanced_off_by [of _ i])

lemma stable_seen: "rely L \<Longrightarrow> stable L (seen w)"
  unfolding stable_def rely_def admissible_def seen_def wallet_balance_def
  by (metis order.antisym order.trans)

lemma stable_conj: "stable L P \<Longrightarrow> stable L Q \<Longrightarrow> stable L (\<lambda>d. P d \<and> Q d)"
  by (auto simp: stable_def)

lemma same_balances:
  assumes "db_wallets d' = db_wallets d" and "db_ledger d' = db_ledger d"
  shows "wallets_ok d' = wallets_ok d" "wallet_balance d' = wallet_balance d"
    "wallet_version d' = wallet_version d" "ledger_total d' = ledger_total d"
  using assms
  by (simp_all add: wallets_ok_def wallet_balance_def wallet_version_def wallet_at_def ledger_total_def
      fun_eq_iff)

lemma dependsI: "(\<And>d d'. F d d' \<Longrightarrow> P d \<Longrightarrow> P d') \<Longrightarrow> depends F P"
  by (simp add: depends_def)

lemma on_balances_off_by: "on_balances (off_by i k)"
proof (rule dependsI)
  fix d d' :: db assume "money_untouched d d'" and "off_by i k d"
  then show "off_by i k d'"
    using same_balances [of d' d] by (simp add: money_untouched_def off_by_def gap_def fun_eq_iff)
qed

lemma on_balances_balanced: "on_balances ledger_balanced"
  using on_balances_off_by [of i 0] by (simp add: depends_def ledger_balanced_off_by [of _ i])

lemma on_balances_seen: "on_balances (\<lambda>d. ledger_balanced d \<and> seen w d)"
proof (rule dependsI)
  fix d d' :: db assume "money_untouched d d'" and "ledger_balanced d \<and> seen w d"
  then show "ledger_balanced d' \<and> seen w d'"
    using same_balances [of d' d] by (auto simp: money_untouched_def ledger_balanced_def seen_def)
qed

lemma keeps_balanced:
  "keeps L m \<Longrightarrow> rely L \<Longrightarrow> triple n ledger_balanced m (\<lambda>_. ledger_balanced) ledger_balanced"
  by (rule keepsD) (auto intro: stable_balanced on_balances_balanced)

lemma keeps_seen:
  "keeps L m \<Longrightarrow> rely L \<Longrightarrow>
   triple n (\<lambda>d. ledger_balanced d \<and> seen w d) m (\<lambda>_ d. ledger_balanced d \<and> seen w d)
     (\<lambda>d. ledger_balanced d \<and> seen w d)"
  by (rule keepsD) (auto intro: stable_conj stable_balanced stable_seen on_balances_seen)

lemma keeps_off_by:
  "keeps L m \<Longrightarrow> rely L \<Longrightarrow> triple n (off_by i k) m (\<lambda>_. off_by i k) (off_by i k)"
  by (rule keepsD) (auto intro: stable_off_by stable_balanced on_balances_off_by)

text \<open>After which only the snapshots matter.\<close>

abbreviation anything :: "db \<Rightarrow> bool" where
  "anything \<equiv> \<lambda>_. True"

lemma keeps_to_anything:
  "keeps L m \<Longrightarrow> rely L \<Longrightarrow> triple n ledger_balanced m (\<lambda>_. ledger_balanced) anything"
  by (rule triple_conseq [OF keeps_balanced]) auto

subsection \<open>Reading a wallet\<close>

lemma scanWallet_ok_iff:
  "scanWallet r = Inr w \<longleftrightarrow> wallet_inv w \<and> wallet_to_row w = r"
  by (auto simp: scanWallet_def and_then_Inr_iff NewCurrency_ok_iff wallet_Rehydrate_ok_iff
      wallet_to_row_def wallet_inv_def)

lemma triple_GetByID:
  assumes "rely L"
  shows "triple n ledger_balanced (wallets_GetByID L i)
    (\<lambda>w d. ledger_balanced d \<and> wallet_inv w \<and> w_id w = i \<and> seen w d) ledger_balanced"
  unfolding wallets_GetByID_def
proof (rule triple_bind)
  show "triple n ledger_balanced
      (on_error (WrapError ''postgres: scan wallet'') (stmt L (sql_wallet_by_id i)))
      (\<lambda>row d. ledger_balanced d \<and> row = wallet_at d i) ledger_balanced"
    by (intro triple_on_error triple_stmt stable_balanced assms)
      (auto simp: sql_wallet_by_id_def wallet_at_def)
  fix row
  show "triple n (\<lambda>d. ledger_balanced d \<and> row = wallet_at d i) (scan_wallet_row row)
      (\<lambda>w d. ledger_balanced d \<and> wallet_inv w \<and> w_id w = i \<and> seen w d) ledger_balanced"
  proof (cases row)
    case None
    then show ?thesis by (auto simp: scan_wallet_row_def intro: triple_throw)
  next
    case (Some r)
    have at: "wallet_at d i = Some r \<Longrightarrow> wr_id r = i" for d
      by (auto simp: wallet_at_def find_Some_iff)
    show ?thesis
      unfolding Some scan_wallet_row_def option.case
    proof (rule triple_lift)
      fix w d
      assume "scanWallet r = Inr w" and "ledger_balanced d \<and> Some r = wallet_at d i"
      then have "wallet_inv w" "wallet_to_row w = r" "ledger_balanced d" and d: "wallet_at d i = Some r"
        by (simp_all add: scanWallet_ok_iff)
      moreover have "w_id w = wr_id r" "w_version w = wr_version r"
        "m_amount (w_balance w) = wr_balance_minor r"
        using \<open>wallet_to_row w = r\<close> by (auto simp: wallet_to_row_def)
      ultimately show "ledger_balanced d \<and> wallet_inv w \<and> w_id w = i \<and> seen w d"
        using at [OF d] by (simp add: seen_def wallet_version_def wallet_balance_def)
    qed simp
  qed
qed

subsection \<open>The two writes of a movement\<close>

lemma triple_UpdateBalance:
  assumes rely: "rely L" and ids: "w_id w = w_id w0"
  shows "triple n (\<lambda>d. ledger_balanced d \<and> seen w0 d) (wallets_UpdateBalance L w (w_version w0))
    (\<lambda>_. off_by (w_id w0) (sint (m_amount (w_balance w)) - sint (m_amount (w_balance w0)))) anything"
proof -
  let ?k = "sint (m_amount (w_balance w)) - sint (m_amount (w_balance w0))"
  have st: "stable L (\<lambda>d. ledger_balanced d \<and> seen w0 d)"
    by (intro stable_conj stable_balanced stable_seen rely)
  have upd: "off_by (w_id w0) ?k d'"
    if pre: "ledger_balanced d \<and> seen w0 d"
      and run: "sql_update_wallet (w_id w) (m_amount (w_balance w)) (w_updatedAt w) (w_version w0) d =
        Inr (Suc m, d')" for d d' m
  proof -
    have ok: "wallets_ok d" using pre by (simp add: ledger_balanced_def)
    obtain r where r: "wallet_at d (w_id w) = Some r" "wr_version r = w_version w0"
      and d': "wallets_ok d'" "db_ledger d' = db_ledger d"
        "wallet_balance d' = (wallet_balance d)(w_id w := sint (m_amount (w_balance w)))"
      by (rule sql_update_wallet_dest [OF ok run])
    have "wallet_balance d (w_id w0) = sint (m_amount (w_balance w0))"
      using pre r ids by (auto simp: seen_def wallet_version_def)
    moreover have "ledger_total d' = ledger_total d" using d' by (simp add: ledger_total_def fun_eq_iff)
    ultimately show ?thesis
      using pre d' ids by (auto simp: off_by_def gap_def ledger_balanced_def fun_eq_iff)
  qed
  show ?thesis
    unfolding wallets_UpdateBalance_def
  proof (rule triple_bind)
    show "triple n (\<lambda>d. ledger_balanced d \<and> seen w0 d)
        (on_error (\<lambda>err. if isCheckViolation err
             then apperr_Wrap KindRejected wallet_CodeInsufficientFunds
                    (Text ''database rejected a negative balance'') err
             else WrapError ''postgres: update wallet balance'' err)
          (stmt L (sql_update_wallet (w_id w) (m_amount (w_balance w)) (w_updatedAt w) (w_version w0))))
        (\<lambda>k d. k = 0 \<or> off_by (w_id w0) ?k d) anything"
    proof (intro triple_on_error triple_stmt st stable_balanced rely)
      fix d v d'
      assume "ledger_balanced d \<and> seen w0 d"
        and "sql_update_wallet (w_id w) (m_amount (w_balance w)) (w_updatedAt w) (w_version w0) d = Inr (v, d')"
      then show "v = 0 \<or> off_by (w_id w0) ?k d'" using upd by (cases v) auto
    qed simp
    fix k :: nat
    show "triple n (\<lambda>d. k = 0 \<or> off_by (w_id w0) ?k d)
        (if k = 0 then throw version_conflict else ret ()) (\<lambda>_. off_by (w_id w0) ?k) anything"
      by (auto intro: triple_throw triple_ret)
  qed
qed

lemma entry_row_effect:
  "e_direction e = DirectionDebit \<or> e_direction e = DirectionCredit \<Longrightarrow>
     ledger_row_effect (entry_to_row e) = entry_effect e"
  by (auto simp: ledger_row_effect_def entry_to_row_def entry_effect_def signed_amount_def)

lemma sql_insert_ledger_gap:
  assumes "sql_insert_ledger r d = Inr (u, d')"
  shows "db_wallets d' = db_wallets d"
    and "gap d' = (\<lambda>j. gap d j - (if j = lr_wallet_id r then ledger_row_effect r else 0))"
proof -
  have d': "d' = d\<lparr>db_ledger := db_ledger d @ [r]\<rparr>"
    using assms by (auto simp: sql_insert_ledger_def split: option.splits)
  then show "db_wallets d' = db_wallets d" by simp
  show "gap d' = (\<lambda>j. gap d j - (if j = lr_wallet_id r then ledger_row_effect r else 0))"
    by (auto simp: d' gap_def ledger_total_def wallet_balance_def wallet_at_def fun_eq_iff)
qed

lemma triple_ledgers_Insert:
  assumes rely: "rely L" and e: "entry_ok e" "e_walletID e = i" "entry_effect e = k"
  shows "triple n (off_by i k) (ledgers_Insert L e) (\<lambda>_. ledger_balanced) anything"
  unfolding ledgers_Insert_def
proof (intro triple_on_error triple_stmt stable_off_by stable_balanced rely)
  fix d v d' assume pre: "off_by i k d" and run: "sql_insert_ledger (entry_to_row e) d = Inr (v, d')"
  have "ledger_row_effect (entry_to_row e) = k" "lr_wallet_id (entry_to_row e) = i"
    using e by (auto simp: entry_row_effect entry_ok_def) (simp_all add: entry_to_row_def)
  with sql_insert_ledger_gap [OF run] pre show "ledger_balanced d'"
    by (auto simp: ledger_balanced_off_by [of _ i] off_by_def wallets_ok_def fun_eq_iff)
qed simp

subsection \<open>The service\<close>

lemma triple_record_movement:
  assumes rely: "rely L"
    and effect: "\<And>i e. ledger_New i (w_id w) (t_id t) d (t_amount t) (bc_Before ch) (bc_After ch) now = Inr e \<Longrightarrow>
      entry_effect e = k"
  shows "triple n (off_by (w_id w) k) (record_movement L t w d ch now corr) (\<lambda>_. ledger_balanced) anything"
  unfolding record_movement_def
proof (rule triple_bind)
  show "triple n (off_by (w_id w) k) (uuid_NewV7 L) (\<lambda>_. off_by (w_id w) k) anything"
    by (rule triple_conseq [OF keeps_off_by [OF keeps_NewV7 rely]]) auto
  fix i
  let ?new = "ledger_New i (w_id w) (t_id t) d (t_amount t) (bc_Before ch) (bc_After ch) now"
  show "triple n (off_by (w_id w) k) (bindM (lift ?new) (\<lambda>entry. bindM (ledgers_Insert L entry)
      (\<lambda>_. announce_movement L t w d ch now corr))) (\<lambda>_. ledger_balanced) anything"
  proof (rule triple_bind_fact [where F = "\<lambda>e. ?new = Inr e"])
    show "triple n (off_by (w_id w) k) (lift ?new) (\<lambda>_. off_by (w_id w) k) anything"
      by (intro triple_lift) auto
    fix e assume "?new = Inr e"
    then have "entry_ok e" "e_walletID e = w_id w" "entry_effect e = k"
      using effect by (auto simp: ledger_New_ok_iff)
    from triple_bind [OF triple_ledgers_Insert [OF rely this] keeps_to_anything [OF keeps_announce_movement rely]]
    show "triple n (off_by (w_id w) k) (bindM (ledgers_Insert L e)
        (\<lambda>_. announce_movement L t w d ch now corr)) (\<lambda>_. ledger_balanced) anything" .
  qed (simp add: lift_def)
qed

lemma triple_move:
  assumes rely: "rely L" and inv: "wallet_inv w"
    and dir: "d = DirectionDebit \<or> d = DirectionCredit"
  shows "triple n (\<lambda>db. ledger_balanced db \<and> seen w db) (move L t w d ref now corr)
    (\<lambda>_. ledger_balanced) anything"
proof (cases "wallet_Move d w (t_amount t) now")
  case (Inl err)
  have "triple n ledger_balanced (move L t w d ref now corr) (\<lambda>_. ledger_balanced) anything"
    unfolding move_def Inl sum.case by (intro keeps_to_anything [where L = L] rely keeps_rules)
  then show ?thesis by (rule triple_conseq) auto
next
  case (Inr p)
  obtain ch w' where p: "p = (ch, w')" by (cases p)
  note mv = wallet_Move_ok [OF Inr [unfolded p] inv dir]
  have ids: "w_id w' = w_id w" using mv(4) by (simp add: wallet_apply_def)
  let ?k = "sint (m_amount (w_balance w')) - sint (m_amount (w_balance w))"
  let ?t = "case ref of Some r \<Rightarrow> SetReferenceResolution t (t_id r) now | None \<Rightarrow> t"
  have amount: "t_amount ?t = t_amount t" by (simp add: SetReferenceResolution_def split: option.split)
  have "triple n (off_by (w_id w') ?k) (record_movement L ?t w' d ch now corr) (\<lambda>_. ledger_balanced) anything"
    using mv(2,3,7) by (intro triple_record_movement rely) (auto simp: ledger_New_ok_iff entry_effect_def amount)
  then show ?thesis
    unfolding move_def Inr p sum.case prod.case
    using triple_bind [OF triple_UpdateBalance [OF rely ids]] by (simp add: ids)
qed

lemma triple_to_move:
  assumes "rely L" and "wallet_inv w"
  shows "triple n (\<lambda>db. ledger_balanced db \<and> seen w db) (applyReversal L t w ref now corr)
    (\<lambda>_. ledger_balanced) anything"
proof -
  have "triple n (\<lambda>db. ledger_balanced db \<and> seen w db) (reject L t (Some w) c now corr)
      (\<lambda>_. ledger_balanced) anything" for c
    by (rule triple_conseq [OF keeps_to_anything [OF keeps_reject assms(1)]]) auto
  then show ?thesis
    using assms by (auto simp: applyReversal_def intro: triple_move)
qed

lemma GetByID_inv:
  assumes "on_error f (wallets_GetByID L i) x = (Inr w, x')"
  shows "wallet_inv w"
proof -
  from assms have "wallets_GetByID L i x = (Inr w, x')"
    by (auto simp: on_error_def split: prod.splits sum.splits)
  then show ?thesis
    unfolding wallets_GetByID_def
    by (cases rule: bindM_cases)
      (auto simp: scan_wallet_row_def throw_def lift_def scanWallet_ok_iff split: option.splits)
qed

lemma triple_applyOperation:
  assumes rely: "rely L"
  shows "triple n ledger_balanced (applyOperation L c t now corr) (\<lambda>_. ledger_balanced) anything"
  unfolding applyOperation_def
proof (rule triple_bind_fact [where F = wallet_inv])
  show "triple n ledger_balanced
      (on_error (\<lambda>err. if KindOf err = KindNotFound
          then apperr_Wrap KindRejected FailureWalletNotFound (Text ''wallet does not exist'') err
          else err) (wallets_GetByID L (t_walletID t))) (\<lambda>w d. ledger_balanced d \<and> seen w d) anything"
    by (rule triple_on_error, rule triple_conseq [OF triple_GetByID [OF rely]]) auto
  fix w assume inv: "wallet_inv w"
  let ?S = "\<lambda>d. ledger_balanced d \<and> seen w d"
  have k: "triple n ?S m (\<lambda>_. ledger_balanced) anything" if "keeps L m" for m :: "Result io"
    by (rule triple_conseq [OF keeps_to_anything [OF that rely]]) auto
  have r: "triple n ?S (attempt (resolveReference L t)) (\<lambda>_. ?S) anything"
    by (rule triple_conseq [OF keeps_seen [OF keeps_attempt [OF keeps_resolveReference] rely]]) auto
  show "triple n ?S
     (if w_playerID w \<noteq> t_playerID t then reject L t (Some w) FailureWalletPlayerMismatch now corr
      else if w_currency w \<noteq> m_currency (t_amount t)
      then reject L t (Some w) FailureCurrencyMismatch now corr
      else if t_kind t = KindLoss then markProcessed L t (w_balance w) now corr
      else if t_kind t = KindBet then move L t w DirectionDebit None now corr
      else if t_kind t = KindWin \<and> t_referenceExternalTransactionID t = ''''
      then move L t w DirectionCredit None now corr
      else if t_kind t = KindWin \<or> t_kind t = KindRefund \<or> t_kind t = KindRollback
      then bindM (attempt (resolveReference L t)) (\<lambda>r. case r of
          Inl err \<Rightarrow> handleReferenceError L c t w err now corr
        | Inr ref \<Rightarrow> if t_kind t = KindWin then move L t w DirectionCredit (Some ref) now corr
            else applyReversal L t w ref now corr)
      else throw (apperr_New KindInvalid FailureUnsupportedKind
             (Sprintf ''kind %s cannot be processed'' [SArg (kind_string (t_kind t))])))
     (\<lambda>_. ledger_balanced) anything"
    using inv rely
    by (auto intro!: k [OF keeps_reject] k [OF keeps_markProcessed] k [OF keeps_handleReferenceError]
        k [OF keeps_throw] triple_move triple_bind [OF r] triple_to_move split: sum.split)
qed (rule GetByID_inv)

lemma triple_process_new:
  assumes rely: "rely L"
  shows "triple n ledger_balanced (process_new L c cmd h now) (\<lambda>_. ledger_balanced) anything"
  unfolding process_new_def
  by (intro triple_bind [OF keeps_to_anything [OF _ rely]] keeps_rules triple_applyOperation rely)

subsection \<open>A sample environment with a concurrent writer\<close>

text \<open>Another connection that credits wallet 1 with 5 minor units, whenever it can.\<close>

definition deposit_row :: ledger_row where
  "deposit_row = \<lparr>lr_id = 900, lr_wallet_id = 1, lr_transaction_id = 901, lr_direction = ''CREDIT'',
     lr_amount_minor = 5, lr_currency = ''BRL'', lr_balance_before_minor = 10000,
     lr_balance_after_minor = 10005, lr_created_at = 50\<rparr>"

definition deposit :: "db \<Rightarrow> db" where
  "deposit d =
     (case wallet_at d 1 of None \<Rightarrow> d
      | Some r \<Rightarrow>
          if wallets_ok d \<and> sint (wr_balance_minor r) < 1000000 \<and> 0 \<le> sint (wr_balance_minor r) then
            (case sql_update_wallet 1 (wr_balance_minor r + 5) 50 (wr_version r) d of
               Inr (Suc _, d') \<Rightarrow> d'\<lparr>db_ledger := db_ledger d' @ [deposit_row]\<rparr>
             | _ \<Rightarrow> d)
          else d)"

lemma gap_append_ledger:
  "gap (d\<lparr>db_ledger := db_ledger d @ [r]\<rparr>) =
     (\<lambda>j. gap d j - (if j = lr_wallet_id r then ledger_row_effect r else 0))"
  by (auto simp: gap_def ledger_total_def wallet_balance_def wallet_at_def fun_eq_iff)

lemma admissible_deposit: "admissible d (deposit d)"
proof (cases "deposit d = d")
  case True
  then show ?thesis by (simp add: admissible_refl)
next
  case False
  then obtain r k d' where r: "wallet_at d 1 = Some r" and ok: "wallets_ok d"
    and range: "sint (wr_balance_minor r) < 1000000" "0 \<le> sint (wr_balance_minor r)"
    and run: "sql_update_wallet 1 (wr_balance_minor r + 5) 50 (wr_version r) d = Inr (Suc k, d')"
    and d: "deposit d = d'\<lparr>db_ledger := db_ledger d' @ [deposit_row]\<rparr>"
    by (auto simp: deposit_def split: option.splits if_splits sum.splits prod.splits nat.splits)
  obtain q where q: "wallet_at d 1 = Some q" "wr_version q = wr_version r" and d': "wallets_ok d'"
      "db_ledger d' = db_ledger d"
      "wallet_balance d' = (wallet_balance d)(1 := sint (wr_balance_minor r + 5))"
      "wallet_version d' = (wallet_version d)(1 := sint (wr_version r) + 1)"
      "\<forall>j. j \<noteq> 1 \<longrightarrow> wallet_at d' j = wallet_at d j"
    by (rule sql_update_wallet_dest [OF ok run])
  have five: "sint (wr_balance_minor r + 5) = sint (wr_balance_minor r) + 5"
    using range by (subst sint_add_exact) (simp_all add: in_int64_def)
  have bal: "wallet_balance d 1 = sint (wr_balance_minor r)" using r by (simp add: wallet_balance_def)
  have ver: "wallet_version d 1 = sint (wr_version r)" using r by (simp add: wallet_version_def)
  have same: "wallet_at (deposit d) i = wallet_at d i" if "i \<noteq> 1" for i
    using d'(5) that by (simp add: d wallet_at_def)
  have gap': "gap d' = (\<lambda>j. gap d j + (if j = 1 then 5 else 0))"
    by (auto simp: gap_def d' five bal ledger_total_def fun_eq_iff)
  have "ledger_row_effect deposit_row = 5" "lr_wallet_id deposit_row = 1"
    by (simp_all add: ledger_row_effect_def deposit_row_def)
  then have "gap (deposit d) = gap d" by (auto simp: d gap_append_ledger gap' fun_eq_iff)
  moreover have "wallets_ok (deposit d)" using d' by (simp add: d wallets_ok_def)
  moreover have "wallet_version (deposit d) = (wallet_version d)(1 := sint (wr_version r) + 1)"
    using d' by (simp add: d wallet_version_def wallet_at_def fun_eq_iff)
  ultimately show ?thesis using same ver by (auto simp: admissible_def)
qed

definition busy_lib :: lib where
  "busy_lib = sample_lib\<lparr>lib_others := (\<lambda>n d. if n = 7 then deposit d else d),
     lib_fault := (\<lambda>n. if n = 30 then Some ''connection reset'' else None)\<rparr>"

lemma rely_busy_lib: "rely busy_lib"
  by (simp add: rely_def busy_lib_def admissible_refl admissible_deposit)

definition opening_row :: ledger_row where
  "opening_row = \<lparr>lr_id = 51, lr_wallet_id = 1, lr_transaction_id = 50, lr_direction = ''CREDIT'',
     lr_amount_minor = 10000, lr_currency = ''BRL'', lr_balance_before_minor = 0,
     lr_balance_after_minor = 10000, lr_created_at = 5\<rparr>"

definition balanced_world :: world where
  "balanced_world = sample_world\<lparr>wd_db := sample_db\<lparr>db_ledger := [opening_row]\<rparr>\<rparr>"

lemma balanced_world:
  "ledger_balanced (wd_db balanced_world)" "wd_saves balanced_world = []" "\<not> wd_aborted balanced_world"
  by (auto simp: balanced_world_def sample_world_def sample_db_def ledger_balanced_def wallets_ok_def
      wallet_balance_def wallet_at_def ledger_total_def opening_row_def ledger_row_effect_def
      wallet_to_row_def sample_wallet_def)

end
