(* ===== verification/Quiet.thy ===== *)
theory Quiet
  imports Consistency
begin

section \<open>Runs that succeed, and runs without faults\<close>

text \<open>
  Rules that turn a successful run into the runs of its parts, and what the effects do when
  nothing disturbs them: no fault, no other writer. The functional properties of the services
  are stated over such runs.
\<close>

subsection \<open>Successful runs\<close>

lemma on_error_Inr: "on_error f m w = (Inr v, w') \<longleftrightarrow> m w = (Inr v, w')"
  by (simp add: on_error_def split: prod.split sum.split)

lemma bindM_Inr:
  "bindM m k w = (Inr v, w') \<longleftrightarrow> (\<exists>x w1. m w = (Inr x, w1) \<and> k x w1 = (Inr v, w'))"
  by (auto simp: bindM_def split: prod.splits sum.splits)

lemma lift_Inr: "lift r w = (Inr v, w') \<longleftrightarrow> r = Inr v \<and> w' = w"
  by (auto simp: lift_def)

lemma ret_Inr: "ret x w = (Inr v, w') \<longleftrightarrow> v = x \<and> w' = w"
  by (auto simp: ret_def)

lemma throw_Inr: "throw e w \<noteq> (Inr v, w')"
  by (simp add: throw_def)

lemma attempt_Inr: "attempt m w = (Inr r, w') \<longleftrightarrow> m w = (r, w')"
  by (auto simp: attempt_def split: prod.splits)

lemma metric_Inr:
  "record_metric m w = (Inr v, w') \<longleftrightarrow> w' = w\<lparr>wd_metrics := wd_metrics w @ [m]\<rparr>"
  by (auto simp: record_metric_def)

lemmas io_Inr = on_error_Inr bindM_Inr lift_Inr ret_Inr throw_Inr attempt_Inr metric_Inr

text \<open>What a read-only statement that succeeded has seen.\<close>

lemma stmt_read_ok:
  assumes "stmt L f w = (Inr v, w')" and "\<And>d. f d = Inr (g d, d)"
  shows "v = g (wd_db w')" and "wd_db w' = lib_others L (wd_step w) (wd_db w)"
    and "wd_step w' = Suc (wd_step w)"
  using assms by (auto simp: stmt_def Let_def split: if_splits option.splits)

subsection \<open>Operations that write nothing\<close>

text \<open>
  A read-only operation leaves the database as the other connections have made it meanwhile,
  whether it succeeds or fails.
\<close>

definition reads :: "lib \<Rightarrow> 'a io \<Rightarrow> bool" where
  "reads L m \<longleftrightarrow> (\<forall>w. wd_step w \<le> wd_step (snd (m w)) \<and>
     wd_db (snd (m w)) = drift L (wd_step w) (wd_step (snd (m w))) (wd_db w))"

named_theorems reads_rules

lemma reads_db: "reads L m \<Longrightarrow> m w = (r, w') \<Longrightarrow> wd_db w' = drift L (wd_step w) (wd_step w') (wd_db w)"
  by (metis reads_def snd_conv)

lemma reads_step: "reads L m \<Longrightarrow> m w = (r, w') \<Longrightarrow> wd_step w \<le> wd_step w'"
  by (metis reads_def snd_conv)

lemma reads_quiet: "quiet L \<Longrightarrow> reads L m \<Longrightarrow> m w = (r, w') \<Longrightarrow> wd_db w' = wd_db w"
  using reads_db quiet_drift by metis

lemma reads_simple [reads_rules]:
  "reads L (ret v)" "reads L (throw e)" "reads L (lift r)" "reads L (record_metric m)"
  "reads L (read_clock L)" "reads L (uuid_NewV7 L)" "reads L (broker_call L op)"
  by (simp_all add: reads_def ret_def throw_def lift_def record_metric_def read_clock_def uuid_NewV7_def
      broker_call_def Let_def drift_Suc split: broker_outcome.split)

lemma reads_stmt:
  assumes "\<And>d v d'. f d = Inr (v, d') \<Longrightarrow> d' = d"
  shows "reads L (stmt L f)"
  using assms
  by (fastforce simp: reads_def stmt_def Let_def fail_world_def drift_Suc split: option.splits sum.splits)

lemma reads_stmt_locked:
  assumes "\<And>locked d v d'. f locked d = Inr (v, d') \<Longrightarrow> d' = d"
  shows "reads L (stmt_locked L f)"
  using reads_stmt [of "f locked" L for locked] assms by (fastforce simp: reads_def stmt_locked_def)

lemma reads_bindM [reads_rules]:
  assumes "reads L m" and "\<And>v. reads L (k v)"
  shows "reads L (bindM m k)"
proof -
  have "wd_step w \<le> wd_step w' \<and> wd_db w' = drift L (wd_step w) (wd_step w') (wd_db w)"
    if "bindM m k w = (r, w')" for w r w'
    using that
  proof (cases rule: bindM_cases)
    case (first e)
    then show ?thesis using reads_db [OF assms(1)] reads_step [OF assms(1)] by blast
  next
    case (second v w1)
    then show ?thesis
      using reads_db [OF assms(1) second(1)] reads_step [OF assms(1) second(1)]
        reads_db [OF assms(2) second(2)] reads_step [OF assms(2) second(2)]
      by (simp add: drift_trans)
  qed
  then show ?thesis by (simp add: reads_def) (metis prod.collapse)
qed

lemma reads_attempt [reads_rules]: "reads L m \<Longrightarrow> reads L (attempt m)"
  by (simp add: reads_def attempt_def split: prod.splits) (metis snd_conv)

lemma reads_on_error [reads_rules]: "reads L m \<Longrightarrow> reads L (on_error f m)"
  by (simp add: reads_def on_error_def split: prod.splits sum.splits) (metis snd_conv)

lemma reads_cases [reads_rules]:
  "(\<And>x. reads L (f x)) \<Longrightarrow> reads L n \<Longrightarrow> reads L (case v of None \<Rightarrow> n | Some x \<Rightarrow> f x)"
  "(\<And>x. reads L (g x)) \<Longrightarrow> (\<And>x. reads L (h x)) \<Longrightarrow> reads L (case s of Inl x \<Rightarrow> g x | Inr x \<Rightarrow> h x)"
  "reads L a \<Longrightarrow> reads L b \<Longrightarrow> reads L (if c then a else b)"
  "(\<And>x y. reads L (k x y)) \<Longrightarrow> reads L (case p of (x, y) \<Rightarrow> k x y)"
  by (auto split: option.split sum.split prod.split)

lemma reads_statements [reads_rules]:
  "reads L (stmt L (sql_wallet_by_id i))" "reads L (stmt L (sql_wallet_by_player_currency pl cu))"
  "reads L (stmt L (sql_tx_by_id i))" "reads L (stmt L (sql_tx_by_external p x))"
  "reads L (stmt L (sql_tx_by_key p x))" "reads L (stmt L (sql_find_reversal i k))"
  "reads L (stmt L sql_count_pending_tx)" "reads L (stmt_locked L (\<lambda>lk. sql_claim_tx lk now))"
  by (rule reads_stmt reads_stmt_locked; simp add: sql_wallet_by_id_def sql_wallet_by_player_currency_def
      sql_tx_by_id_def sql_tx_by_external_def sql_tx_by_key_def sql_find_reversal_def
      sql_count_pending_tx_def sql_claim_tx_def)+

lemma reads_repos [reads_rules]:
  "reads L (scan_wallet_row row)" "reads L (scan_tx_row r)"
  "reads L (wallets_GetByID L i)" "reads L (wallets_GetByPlayerAndCurrency L pl cu)"
  "reads L (transactions_GetByID L i)" "reads L (transactions_GetByProviderExternal L p x)"
  "reads L (transactions_GetByProviderIdempotencyKey L p x)" "reads L (transactions_ClaimOne L now)"
  "reads L (transactions_FindReversal L i k)" "reads L (transactions_CountPending L)"
  unfolding io_defs by (intro reads_rules)+

lemma reads_resolveReference [reads_rules]: "reads L (resolveReference L t)"
  unfolding resolveReference_def Let_def by (intro reads_rules)

lemma reads_replay [reads_rules]: "reads L (replay t h)"
  unfolding replay_def by (intro reads_rules)

subsection \<open>Runs without faults and other writers\<close>

lemma quiet_tick: "quiet L \<Longrightarrow> tick L w = w\<lparr>wd_step := Suc (wd_step w)\<rparr>"
proof -
  assume "quiet L"
  then have "lib_others L n = (\<lambda>d. d)" for n by (simp add: quiet_def fun_eq_iff)
  then show ?thesis by (simp add: tick_def)
qed

lemma quiet_stmt:
  assumes "quiet L" and "\<not> wd_aborted w"
  shows "stmt L f w =
    (case f (wd_db w) of
       Inl e \<Rightarrow> (Inl e, fail_world (tick L w))
     | Inr (v, d) \<Rightarrow> (Inr v, (tick L w)\<lparr>wd_db := d\<rparr>))"
  using assms by (auto simp: stmt_def Let_def quiet_def split: sum.split)

lemma quiet_stmt_Inr:
  assumes "quiet L" and "stmt L f w = (Inr v, w')"
  obtains d where "f (wd_db w) = Inr (v, d)" and "wd_db w' = d" and "wd_saves w' = wd_saves w"
    and "\<not> wd_aborted w" and "\<not> wd_aborted w'" and "wd_step w' = Suc (wd_step w)"
    and "wd_broker w' = wd_broker w"
proof -
  have "\<not> wd_aborted w" using assms(2) by (auto simp: stmt_def Let_def split: if_splits)
  with assms show thesis
    by (intro that) (auto simp: quiet_stmt quiet_tick split: sum.splits)
qed

lemma quiet_WithinTransaction_Inr:
  assumes q: "quiet L" and run: "WithinTransaction L fn w = (Inr v, w')" and top: "wd_saves w = []"
  obtains w1 w2 where "fn w1 = (Inr v, w2)" and "wd_db w1 = wd_db w" and "\<not> wd_aborted w1"
    and "wd_saves w1 = [wd_db w]" and "wd_db w' = wd_db w2" and "wd_step w < wd_step w1"
    and "wd_broker w1 = wd_broker w" and "wd_broker w' = wd_broker w2"
  using run
proof (cases rule: WithinTransaction_cases)
  case (finished w1 w2 u cr)
  then have cr: "commit_tx L w2 = (Inr (), w')" and u: "u = v" by (auto split: sum.splits)
  from q cr have "wd_db w' = wd_db w2" "wd_broker w' = wd_broker w2"
    by (auto simp: commit_tx_def Let_def quiet_def drop_save_def quiet_tick [OF q] split: if_splits)
  moreover have "wd_broker w1 = wd_broker w" "wd_step w < wd_step w1"
    using finished(1) begin_tx_world [OF finished(1)]
    by (auto simp: begin_tx_def bindM_Inr elim: quiet_stmt_Inr [OF q])
  moreover have "wd_db w1 = wd_db w" "\<not> wd_aborted w1" "wd_saves w1 = [wd_db w]"
    using begin_tx_world [OF finished(1)] top q by (simp_all add: quiet_def)
  ultimately show thesis using finished(2) u by (intro that [of w1 w2]) auto
qed (use top in simp_all)

subsection \<open>What the repositories write in such a run\<close>

lemma quiet_clock_Inr:
  "quiet L \<Longrightarrow> read_clock L w = (Inr t, w') \<Longrightarrow> t = lib_clock L (wd_step w) \<and> w' = w\<lparr>wd_step := Suc (wd_step w)\<rparr>"
  by (simp add: read_clock_def quiet_tick)

lemma quiet_NewV7_Inr:
  "quiet L \<Longrightarrow> uuid_NewV7 L w = (Inr i, w') \<Longrightarrow> i = lib_NewV7 L (wd_step w) \<and> w' = w\<lparr>wd_step := Suc (wd_step w)\<rparr>"
  by (simp add: uuid_NewV7_def quiet_tick)

lemma violation_None:
  "violation cs us fs = None \<longleftrightarrow> (\<forall>c \<in> set cs. snd c) \<and> (\<forall>u \<in> set us. \<not> snd u) \<and> (\<forall>f \<in> set fs. snd f)"
  by (auto simp: violation_def find_None_iff split: option.splits)
    (metis find_None_iff option.distinct(1))+

lemma quiet_Create_Inr:
  assumes "quiet L" and "wallets_Create L x w = (Inr u, w')"
  shows "wd_db w' = (wd_db w)\<lparr>db_wallets := db_wallets (wd_db w) @ [wallet_to_row x]\<rparr>"
    and "\<forall>r \<in> set (db_wallets (wd_db w)). \<not> (wr_player_id r = w_playerID x \<and> wr_currency r = w_currency x)"
    and "\<forall>r \<in> set (db_wallets (wd_db w)). wr_id r \<noteq> w_id x"
proof -
  from assms(2) have "stmt L (sql_insert_wallet (wallet_to_row x)) w = (Inr u, w')"
    by (simp add: wallets_Create_def on_error_Inr)
  then obtain d where sql: "sql_insert_wallet (wallet_to_row x) (wd_db w) = Inr (u, d)" and d: "wd_db w' = d"
    by (rule quiet_stmt_Inr [OF assms(1)])
  then show "wd_db w' = (wd_db w)\<lparr>db_wallets := db_wallets (wd_db w) @ [wallet_to_row x]\<rparr>"
    "\<forall>r \<in> set (db_wallets (wd_db w)). \<not> (wr_player_id r = w_playerID x \<and> wr_currency r = w_currency x)"
    "\<forall>r \<in> set (db_wallets (wd_db w)). wr_id r \<noteq> w_id x"
    by (auto simp: sql_insert_wallet_def violation_None wallet_uniques_def wallet_to_row_def
        split: option.splits)
qed

lemma quiet_tx_Insert_Inr:
  assumes "quiet L" and "transactions_Insert L t w = (Inr u, w')"
  shows "wd_db w' = (wd_db w)\<lparr>db_transactions := db_transactions (wd_db w) @ [tx_to_row t]\<rparr>"
    and "violation (tx_checks (tx_to_row t)) (tx_uniques (db_transactions (wd_db w)) (tx_to_row t))
      (tx_fks (wd_db w) (tx_to_row t)) = None"
proof -
  from assms(2) have "stmt L (sql_insert_tx (tx_to_row t)) w = (Inr u, w')"
    by (simp add: transactions_Insert_def on_error_Inr)
  then obtain d where "sql_insert_tx (tx_to_row t) (wd_db w) = Inr (u, d)" and d: "wd_db w' = d"
    by (rule quiet_stmt_Inr [OF assms(1)])
  then show "wd_db w' = (wd_db w)\<lparr>db_transactions := db_transactions (wd_db w) @ [tx_to_row t]\<rparr>"
    "violation (tx_checks (tx_to_row t)) (tx_uniques (db_transactions (wd_db w)) (tx_to_row t))
      (tx_fks (wd_db w) (tx_to_row t)) = None"
    by (auto simp: sql_insert_tx_def split: option.splits if_splits)
qed

lemma quiet_ledgers_Insert_Inr:
  assumes "quiet L" and "ledgers_Insert L e w = (Inr u, w')"
  shows "wd_db w' = (wd_db w)\<lparr>db_ledger := db_ledger (wd_db w) @ [entry_to_row e]\<rparr>"
proof -
  from assms(2) have "stmt L (sql_insert_ledger (entry_to_row e)) w = (Inr u, w')"
    by (simp add: ledgers_Insert_def on_error_Inr)
  then obtain d where "sql_insert_ledger (entry_to_row e) (wd_db w) = Inr (u, d)" and d: "wd_db w' = d"
    by (rule quiet_stmt_Inr [OF assms(1)])
  then show ?thesis by (auto simp: sql_insert_ledger_def split: option.splits)
qed

lemma quiet_outbox_Insert_Inr:
  assumes "quiet L" and "outbox_Insert L ev w = (Inr u, w')"
  shows "wd_db w' = (wd_db w)\<lparr>db_outbox := db_outbox (wd_db w) @ [event_to_row ev]\<rparr>"
proof -
  from assms(2) have "stmt L (sql_insert_outbox (event_to_row ev)) w = (Inr u, w')"
    by (simp add: outbox_Insert_def on_error_Inr)
  then obtain d where "sql_insert_outbox (event_to_row ev) (wd_db w) = Inr (u, d)" and d: "wd_db w' = d"
    by (rule quiet_stmt_Inr [OF assms(1)])
  then show ?thesis by (auto simp: sql_insert_outbox_def split: option.splits if_splits)
qed

text \<open>A transaction whose function succeeds, computed forwards.\<close>

lemma quiet_WithinTransaction:
  assumes "quiet L" and "wd_saves w = []" and "\<not> wd_aborted w"
    and "fn (w\<lparr>wd_step := Suc (wd_step w), wd_saves := [wd_db w]\<rparr>) = (Inr v, w2)"
    and "\<not> wd_aborted w2" and "wd_saves w2 = [s]"
  shows "WithinTransaction L fn w = (Inr v, w2\<lparr>wd_step := Suc (wd_step w2), wd_saves := []\<rparr>)"
proof -
  have b: "begin_tx L w = (Inr (), w\<lparr>wd_step := Suc (wd_step w), wd_saves := [wd_db w]\<rparr>)"
    using assms(1-3) by (simp add: begin_tx_def bindM_def quiet_stmt quiet_tick)
  have "lib_fault L (wd_step w2) = None" using assms(1) by (simp add: quiet_def)
  then have "commit_tx L w2 = (Inr (), w2\<lparr>wd_step := Suc (wd_step w2), wd_saves := []\<rparr>)"
    using assms(1,5,6) by (simp add: commit_tx_def Let_def quiet_tick drop_save_def)
  then show ?thesis using b assms(2,4) by (simp add: WithinTransaction_def on_error_def)
qed

end
