(* ===== verification/Outbox.thy ===== *)
theory Outbox
  imports Quiet "HOL-Library.Product_Lexorder"
begin

section \<open>The outbox (internal/adapters/postgres/outbox_repo.go)\<close>

text \<open>
  The statements and operations on \<open>outbox_events\<close> besides the insertion: a publisher claims a
  batch, then marks each event published or failed. \<open>RETURNING\<close> has no order; the model
  returns the rows in table order, and nothing proved depends on it.
\<close>

subsection \<open>The statements\<close>

definition event_key :: "outbox_row \<Rightarrow> time \<times> uuid" where
  "event_key r = (or_occurred_at r, or_event_id r)"

definition unpublished :: "outbox_row \<Rightarrow> bool" where
  "unpublished r \<longleftrightarrow> or_published_at r = None"

text \<open>The WHERE clause of the candidates.\<close>

definition claimable :: "time \<Rightarrow> time \<Rightarrow> outbox_row list \<Rightarrow> outbox_row \<Rightarrow> bool" where
  "claimable now cutoff rs r \<longleftrightarrow>
     unpublished r \<and> or_next_attempt_at r \<le> now \<and>
     (case or_locked_at r of None \<Rightarrow> True | Some t \<Rightarrow> t < cutoff) \<and>
     \<not> (\<exists>q \<in> set rs. or_aggregate_id q = or_aggregate_id r \<and> unpublished q \<and> event_key q < event_key r)"

text \<open>\<open>ORDER BY occurred_at, event_id FOR UPDATE SKIP LOCKED LIMIT\<close>.\<close>

definition candidates ::
  "(uuid \<Rightarrow> bool) \<Rightarrow> time \<Rightarrow> time \<Rightarrow> nat \<Rightarrow> outbox_row list \<Rightarrow> uuid list" where
  "candidates locked now cutoff limit rs =
     map or_event_id (take limit (sort_key event_key
       (filter (\<lambda>r. claimable now cutoff rs r \<and> \<not> locked (or_event_id r)) rs)))"

definition row_to_event :: "outbox_row \<Rightarrow> OutboxEvent" where
  "row_to_event r =
     \<lparr>oe_EventID = or_event_id r, oe_AggregateID = or_aggregate_id r, oe_EventType = or_event_type r,
      oe_Payload = or_payload r, oe_OccurredAt = or_occurred_at r, oe_Attempts = or_attempts r,
      oe_NextAttemptAt = or_next_attempt_at r\<rparr>"

definition lock_row :: "string \<Rightarrow> time \<Rightarrow> outbox_row \<Rightarrow> outbox_row" where
  "lock_row publisher now r = r\<lparr>or_locked_by := Some publisher, or_locked_at := Some now\<rparr>"

definition sql_claim_outbox ::
  "(uuid \<Rightarrow> bool) \<Rightarrow> string \<Rightarrow> time \<Rightarrow> time \<Rightarrow> nat \<Rightarrow> db \<Rightarrow> (OutboxEvent list \<times> db) result" where
  "sql_claim_outbox locked publisher now cutoff limit d =
     (let ids = set (candidates locked now cutoff limit (db_outbox d));
          claim = (\<lambda>r. if or_event_id r \<in> ids then lock_row publisher now r else r)
      in Inr (map row_to_event (filter (\<lambda>r. or_event_id r \<in> ids) (map claim (db_outbox d))),
           d\<lparr>db_outbox := map claim (db_outbox d)\<rparr>))"

definition publish_row :: "time \<Rightarrow> outbox_row \<Rightarrow> outbox_row" where
  "publish_row now r =
     r\<lparr>or_published_at := Some now, or_locked_by := None, or_locked_at := None, or_last_error := None\<rparr>"

definition sql_mark_published :: "uuid \<Rightarrow> time \<Rightarrow> db \<Rightarrow> (nat \<times> db) result" where
  "sql_mark_published i now d =
     (let hit = (\<lambda>r. or_event_id r = i \<and> unpublished r)
      in Inr (length (filter hit (db_outbox d)),
           d\<lparr>db_outbox := map (\<lambda>r. if hit r then publish_row now r else r) (db_outbox d)\<rparr>))"

definition fail_row :: "time \<Rightarrow> goerror \<Rightarrow> outbox_row \<Rightarrow> outbox_row" where
  "fail_row nxt err r =
     r\<lparr>or_attempts := or_attempts r + 1, or_next_attempt_at := nxt, or_locked_by := None,
       or_locked_at := None, or_last_error := Some err\<rparr>"

text \<open>\<open>attempts + 1\<close> in an INTEGER column is an error when it overflows.\<close>

definition sql_mark_failed :: "uuid \<Rightarrow> time \<Rightarrow> goerror \<Rightarrow> db \<Rightarrow> (nat \<times> db) result" where
  "sql_mark_failed i nxt err d =
     (let hit = (\<lambda>r. or_event_id r = i \<and> unpublished r)
      in if \<exists>r \<in> set (db_outbox d). hit r \<and> sint (or_attempts r) = 2147483647
         then Inl (PgError ''22003'' '''')
         else Inr (length (filter hit (db_outbox d)),
           d\<lparr>db_outbox := map (\<lambda>r. if hit r then fail_row nxt err r else r) (db_outbox d)\<rparr>))"

definition sql_count_outbox :: "db \<Rightarrow> (nat \<times> db) result" where
  "sql_count_outbox d = Inr (length (filter unpublished (db_outbox d)), d)"

subsection \<open>The repository\<close>

definition outbox_Claim ::
  "lib \<Rightarrow> string \<Rightarrow> time \<Rightarrow> int \<Rightarrow> duration \<Rightarrow> OutboxEvent list io" where
  "outbox_Claim L publisherID now limit0 lockTTL =
     (let limit = nat (if limit0 \<le> 0 then 10 else limit0);
          lockCutoff = time_Add now (- lockTTL)
      in on_error (WrapError ''postgres: claim outbox events'')
           (stmt_locked L (\<lambda>locked. sql_claim_outbox locked publisherID now lockCutoff limit)))"

definition outbox_MarkPublished :: "lib \<Rightarrow> uuid \<Rightarrow> time \<Rightarrow> unit io" where
  "outbox_MarkPublished L eventID now =
     bindM (on_error (WrapError ''postgres: mark outbox published'')
       (stmt L (sql_mark_published eventID now))) (\<lambda>affected.
     if affected = 0
     then throw (PlainError ''postgres: outbox event is already published or missing'')
     else ret ())"

definition outbox_MarkFailed :: "lib \<Rightarrow> uuid \<Rightarrow> time \<Rightarrow> goerror \<Rightarrow> unit io" where
  "outbox_MarkFailed L eventID nextAttempt lastError =
     bindM (on_error (WrapError ''postgres: mark outbox failed'')
       (stmt L (sql_mark_failed eventID nextAttempt lastError))) (\<lambda>_. ret ())"

definition outbox_PendingCount :: "lib \<Rightarrow> nat io" where
  "outbox_PendingCount L =
     on_error (WrapError ''postgres: count outbox events'') (stmt L sql_count_outbox)"

subsection \<open>What a claim takes\<close>

lemma candidates_claimable:
  assumes "i \<in> set (candidates locked now cutoff limit rs)"
  obtains r where "r \<in> set rs" and "or_event_id r = i" and "claimable now cutoff rs r" and "\<not> locked i"
  using assms by (auto simp: candidates_def dest!: in_set_takeD)

text \<open>Two claimable rows of one aggregate are the same event.\<close>

lemma claimable_unique:
  assumes "claimable now cutoff rs r" "claimable now cutoff rs q" and "r \<in> set rs" "q \<in> set rs"
    and "or_aggregate_id q = or_aggregate_id r"
  shows "or_event_id q = or_event_id r"
proof -
  have "\<not> event_key q < event_key r" "\<not> event_key r < event_key q"
    using assms by (auto simp: claimable_def)
  then have "event_key q = event_key r" by simp
  then show ?thesis by (simp add: event_key_def)
qed

lemma length_candidates: "length (candidates locked now cutoff limit rs) \<le> limit"
  by (simp add: candidates_def)

end
