(* ===== verification/Invariants.thy ===== *)
theory Invariants
  imports Quiet
begin

section \<open>Invariants of the database and the broker's log\<close>

text \<open>
  An assertion \<open>J\<close> relates what the broker has accepted to a database. A world satisfies it when
  the current database and every snapshot it can fall back to do; then rollbacks keep it, and an
  operation keeps it as soon as its statements do.
\<close>

definition holds :: "(broker_op list \<Rightarrow> db \<Rightarrow> bool) \<Rightarrow> world \<Rightarrow> bool" where
  "holds J w \<longleftrightarrow> (\<forall>d \<in> set (wd_db w # wd_saves w). J (wd_broker w) d)"

definition preserves :: "(broker_op list \<Rightarrow> db \<Rightarrow> bool) \<Rightarrow> 'a io \<Rightarrow> bool" where
  "preserves J m \<longleftrightarrow> (\<forall>w. holds J w \<longrightarrow> holds J (snd (m w)))"

text \<open>What the other connections and a growing log must leave true.\<close>

definition undisturbed :: "lib \<Rightarrow> (broker_op list \<Rightarrow> db \<Rightarrow> bool) \<Rightarrow> bool" where
  "undisturbed L J \<longleftrightarrow> (\<forall>n b d. J b d \<longrightarrow> J b (lib_others L n d)) \<and> (\<forall>b op d. J b d \<longrightarrow> J (b @ [op]) d)"

definition kept_by :: "(broker_op list \<Rightarrow> db \<Rightarrow> bool) \<Rightarrow> (db \<Rightarrow> ('a \<times> db) result) \<Rightarrow> bool" where
  "kept_by J f \<longleftrightarrow> (\<forall>b d v d'. J b d \<longrightarrow> f d = Inr (v, d') \<longrightarrow> J b d')"

named_theorems preserves_rules

lemma preservesI:
  assumes "\<And>w r w'. holds J w \<Longrightarrow> m w = (r, w') \<Longrightarrow> holds J w'"
  shows "preserves J m"
  unfolding preserves_def using assms by (metis prod.collapse)

lemma preservesD: "preserves J m \<Longrightarrow> holds J w \<Longrightarrow> m w = (r, w') \<Longrightarrow> holds J w'"
  by (metis preserves_def snd_conv)

lemma holds_tick: "undisturbed L J \<Longrightarrow> holds J w \<Longrightarrow> holds J (tick L w)"
  by (auto simp: holds_def undisturbed_def)

lemma preserves_pure [preserves_rules]:
  "preserves J (ret v)" "preserves J (throw e)" "preserves J (lift r)" "preserves J (record_metric m)"
  by (simp_all add: preserves_def holds_def ret_def throw_def lift_def record_metric_def)

lemma preserves_clock: "undisturbed L J \<Longrightarrow> preserves J (read_clock L)"
  by (simp add: preserves_def read_clock_def holds_tick)

lemma preserves_NewV7: "undisturbed L J \<Longrightarrow> preserves J (uuid_NewV7 L)"
  by (simp add: preserves_def uuid_NewV7_def holds_tick)

lemma preserves_broker_call:
  assumes "undisturbed L J"
  shows "preserves J (broker_call L op)"
  unfolding preserves_def
proof (intro allI impI)
  fix w assume "holds J w"
  then have t: "holds J (tick L w)" by (rule holds_tick [OF assms])
  then have "holds J ((tick L w)\<lparr>wd_broker := wd_broker w @ [op]\<rparr>)"
    using assms by (auto simp: holds_def undisturbed_def)
  with t show "holds J (snd (broker_call L op w))"
    by (simp add: broker_call_def Let_def split: broker_outcome.split)
qed

lemma preserves_stmt:
  assumes "undisturbed L J" and "kept_by J f"
  shows "preserves J (stmt L f)"
proof (rule preservesI)
  fix w r w' assume w: "holds J w" and run: "stmt L f w = (r, w')"
  have t: "holds J (tick L w)" by (rule holds_tick [OF assms(1) w])
  then have d: "J (wd_broker w) (lib_others L (wd_step w) (wd_db w))" by (simp add: holds_def)
  show "holds J w'"
    using run t assms(2) d
    by (auto simp: stmt_def Let_def fail_world_def holds_def kept_by_def
        split: if_splits option.splits sum.splits prod.splits)
qed

lemma preserves_stmt_locked:
  assumes "undisturbed L J" and "\<And>locked. kept_by J (f locked)"
  shows "preserves J (stmt_locked L f)"
  using preserves_stmt [OF assms(1) assms(2)] by (simp add: preserves_def stmt_locked_def)

lemma preserves_bindM [preserves_rules]:
  assumes "preserves J m" and "\<And>v. preserves J (k v)"
  shows "preserves J (bindM m k)"
proof (rule preservesI)
  fix w r w' assume w: "holds J w" and "bindM m k w = (r, w')"
  from this(2) show "holds J w'"
  proof (cases rule: bindM_cases)
    case (first e)
    show ?thesis by (rule preservesD [OF assms(1) w first(1)])
  next
    case (second v w1)
    show ?thesis by (rule preservesD [OF assms(2) preservesD [OF assms(1) w second(1)] second(2)])
  qed
qed

lemma preserves_attempt [preserves_rules]: "preserves J m \<Longrightarrow> preserves J (attempt m)"
  by (simp add: preserves_def attempt_def split: prod.splits) (metis snd_conv)

lemma preserves_on_error [preserves_rules]: "preserves J m \<Longrightarrow> preserves J (on_error f m)"
  by (simp add: preserves_def on_error_def split: prod.splits sum.splits) (metis snd_conv)

lemma preserves_cases [preserves_rules]:
  "(\<And>x. preserves J (f x)) \<Longrightarrow> preserves J n \<Longrightarrow> preserves J (case v of None \<Rightarrow> n | Some x \<Rightarrow> f x)"
  "(\<And>x. preserves J (g x)) \<Longrightarrow> (\<And>x. preserves J (h x)) \<Longrightarrow>
     preserves J (case s of Inl x \<Rightarrow> g x | Inr x \<Rightarrow> h x)"
  "preserves J a \<Longrightarrow> preserves J b \<Longrightarrow> preserves J (if c then a else b)"
  "(\<And>x y. preserves J (k x y)) \<Longrightarrow> preserves J (case p of (x, y) \<Rightarrow> k x y)"
  "preserves J (l x) \<Longrightarrow> preserves J (let y = x in l y)"
  by (auto split: option.split sum.split prod.split)

subsection \<open>Transactions\<close>

lemma holds_begin:
  assumes "undisturbed L J" and "holds J w" and "begin_tx L w = (r, w1)"
  shows "holds J w1"
proof -
  have "preserves J (stmt L (\<lambda>d. Inr ((), d)))"
    using assms(1) by (intro preserves_stmt) (auto simp: kept_by_def)
  then have "holds J (snd (stmt L (\<lambda>d. Inr ((), d)) w))" using assms(2) by (simp add: preserves_def)
  then show ?thesis
    using assms(3) by (auto simp: begin_tx_def bindM_def holds_def split: prod.splits sum.splits)
qed

lemma holds_end:
  assumes "undisturbed L J" and "holds J w" and "wd_saves w \<noteq> []"
  shows "holds J (snd (commit_tx L w))" and "holds J (rollback_tx L w)"
    and "holds J (snd (release_savepoint L w))" and "holds J (snd (rollback_savepoint L w))"
proof -
  have t: "holds J (tick L w)" by (rule holds_tick [OF assms(1,2)])
  have saves: "wd_saves (tick L w) \<noteq> []" using assms(3) by simp
  have drop: "holds J (drop_save x)" "holds J ((drop_save x)\<lparr>wd_aborted := a\<rparr>)" "holds J (restore_save x)"
    if "holds J x" "wd_saves x \<noteq> []" for x a
    using that by (cases "wd_saves x"; auto simp: holds_def drop_save_def restore_save_def)+
  show "holds J (snd (commit_tx L w))"
    using drop [OF t saves] by (simp add: commit_tx_def Let_def split: option.split)
  show "holds J (rollback_tx L w)" using drop [OF t saves] by (simp add: rollback_tx_def)
  show "holds J (snd (rollback_savepoint L w))"
    using drop [OF t saves] by (simp add: rollback_savepoint_def Let_def split: option.split)
  have "preserves J (stmt L (\<lambda>d. Inr ((), d)))"
    using assms(1) by (intro preserves_stmt) (auto simp: kept_by_def)
  then have "holds J (snd (stmt L (\<lambda>d. Inr ((), d)) w))" using assms(2) by (simp add: preserves_def)
  moreover have "wd_saves (snd (stmt L (\<lambda>d. Inr ((), d)) w)) \<noteq> []"
    using stmt_world [of L "\<lambda>d. Inr ((), d)" w] assms(3) by simp
  ultimately show "holds J (snd (release_savepoint L w))"
    using drop(1) by (cases "stmt L (\<lambda>d. Inr ((), d)) w") (simp add: release_savepoint_def)
qed

lemma preserves_WithinTransaction:
  assumes un: "undisturbed L J" and fr: "framed L fn" and fn: "preserves J fn"
  shows "preserves J (WithinTransaction L fn)"
proof (rule preservesI)
  fix w r w' assume w: "holds J w" and run: "WithinTransaction L fn w = (r, w')"
  have body: "holds J w2 \<and> wd_saves w2 \<noteq> []"
    if "begin_tx L w = (Inr (), w1)" "fn w1 = (q, w2)" for w1 q w2
    using holds_begin [OF un w that(1)] preservesD [OF fn _ that(2)] framed_saves [OF fr that(2)]
      begin_tx_world [OF that(1)] by simp
  from run show "holds J w'"
  proof (cases rule: WithinTransaction_cases)
    case (begin_failed e)
    then show ?thesis using holds_begin [OF un w] by blast
  next
    case (failed w1 w2 e)
    then show ?thesis using body holds_end(2) [OF un] by blast
  next
    case (failed_nested w1 w2 e re)
    then show ?thesis using body holds_end(4) [OF un, of w2] by fastforce
  next
    case (finished w1 w2 v cr)
    then show ?thesis using body holds_end(1) [OF un, of w2] by fastforce
  next
    case (finished_nested w1 w2 v cr)
    then show ?thesis using body holds_end(3) [OF un, of w2] by fastforce
  qed
qed

text \<open>A read-only statement keeps every assertion.\<close>

lemma kept_by_read: "(\<And>d v d'. f d = Inr (v, d') \<Longrightarrow> d' = d) \<Longrightarrow> kept_by J f"
  by (auto simp: kept_by_def)

subsection \<open>Operations that do not talk to the broker\<close>

definition silent :: "'a io \<Rightarrow> bool" where
  "silent m \<longleftrightarrow> (\<forall>w. wd_broker (snd (m w)) = wd_broker w)"

named_theorems silent_rules

lemma silent_broker: "silent m \<Longrightarrow> m w = (r, w') \<Longrightarrow> wd_broker w' = wd_broker w"
  by (metis silent_def snd_conv)

lemma silent_simple [silent_rules]:
  "silent (ret v)" "silent (throw e)" "silent (lift r)" "silent (record_metric m)"
  "silent (read_clock L)" "silent (uuid_NewV7 L)" "silent (stmt L f)"
  by (auto simp: silent_def ret_def throw_def lift_def record_metric_def read_clock_def uuid_NewV7_def
      stmt_def Let_def fail_world_def split: option.split sum.split)

lemma silent_stmt_locked [silent_rules]: "silent (stmt_locked L f)"
  by (simp add: silent_def stmt_locked_def silent_simple(7) [unfolded silent_def])

lemma silent_bindM [silent_rules]:
  assumes "silent m" and "\<And>v. silent (k v)"
  shows "silent (bindM m k)"
proof -
  have "wd_broker w' = wd_broker w" if "bindM m k w = (r, w')" for w r w'
    using that by (cases rule: bindM_cases) (metis assms silent_broker)+
  then show ?thesis by (simp add: silent_def) (metis prod.collapse)
qed

lemma silent_attempt [silent_rules]: "silent m \<Longrightarrow> silent (attempt m)"
  by (simp add: silent_def attempt_def split: prod.splits) (metis snd_conv)

lemma silent_on_error [silent_rules]: "silent m \<Longrightarrow> silent (on_error f m)"
  by (simp add: silent_def on_error_def split: prod.splits sum.splits) (metis snd_conv)

lemma silent_cases [silent_rules]:
  "(\<And>x. silent (f x)) \<Longrightarrow> silent n \<Longrightarrow> silent (case v of None \<Rightarrow> n | Some x \<Rightarrow> f x)"
  "(\<And>x. silent (g x)) \<Longrightarrow> (\<And>x. silent (h x)) \<Longrightarrow> silent (case s of Inl x \<Rightarrow> g x | Inr x \<Rightarrow> h x)"
  "silent a \<Longrightarrow> silent b \<Longrightarrow> silent (if c then a else b)"
  "(\<And>x y. silent (k x y)) \<Longrightarrow> silent (case p of (x, y) \<Rightarrow> k x y)"
  "silent (l x) \<Longrightarrow> silent (let y = x in l y)"
  by (auto split: option.split sum.split prod.split)

lemma silent_begin [silent_rules]: "silent (begin_tx L)"
  using silent_bindM [OF silent_simple(7) [of L "\<lambda>d. Inr ((), d)"], of "\<lambda>_ w. (Inr (), w\<lparr>wd_saves := wd_db w # wd_saves w\<rparr>)"]
  by (simp add: begin_tx_def silent_def)

lemma silent_ends:
  "wd_broker (snd (commit_tx L w)) = wd_broker w" "wd_broker (rollback_tx L w) = wd_broker w"
  "wd_broker (snd (release_savepoint L w)) = wd_broker w"
  "wd_broker (snd (rollback_savepoint L w)) = wd_broker w"
  using silent_simple(7) [of L "\<lambda>d. Inr ((), d)"]
  by (auto simp: commit_tx_def rollback_tx_def release_savepoint_def rollback_savepoint_def Let_def
      drop_save_def restore_save_def silent_def split: option.split prod.split) (metis snd_conv)

lemma silent_WithinTransaction [silent_rules]:
  assumes "silent fn"
  shows "silent (WithinTransaction L fn)"
proof -
  have "wd_broker w' = wd_broker w" if "WithinTransaction L fn w = (r, w')" for w r w'
    using that
  proof (cases rule: WithinTransaction_cases)
    case (begin_failed e)
    then show ?thesis using silent_broker [OF silent_begin] by blast
  next
    case (failed w1 w2 e)
    then show ?thesis using silent_broker [OF silent_begin] silent_broker [OF assms] silent_ends by metis
  next
    case (failed_nested w1 w2 e re)
    then show ?thesis
      using silent_broker [OF silent_begin] silent_broker [OF assms] silent_ends by (metis snd_conv)
  next
    case (finished w1 w2 v cr)
    then show ?thesis
      using silent_broker [OF silent_begin] silent_broker [OF assms] silent_ends by (metis snd_conv)
  next
    case (finished_nested w1 w2 v cr)
    then show ?thesis
      using silent_broker [OF silent_begin] silent_broker [OF assms] silent_ends by (metis snd_conv)
  qed
  then show ?thesis by (simp add: silent_def) (metis prod.collapse)
qed

end
