(* ===== verification/Sqs_Client.thy ===== *)
theory Sqs_Client
  imports Invariants
begin

section \<open>The SQS client (internal/adapters/sqs/client.go)\<close>

text \<open>
  The requests the client makes to send and delete messages. The SDK is the broker of the
  theory of transactions; a client knows the URLs of its four queues.
\<close>

record sqs_client =
  cl_transactionsQueueURL :: string
  cl_transactionsDLQURL :: string
  cl_eventsQueueURL :: string
  cl_eventsDLQURL :: string
  cl_DLQName :: string

text \<open>The message of an event: its aggregate is the group, its identifier the deduplication key.\<close>

definition event_message :: "(uuid \<Rightarrow> string) \<Rightarrow> string \<Rightarrow> OutboxEvent \<Rightarrow> broker_op" where
  "event_message ustr url ev =
     SendMessage url (oe_Payload ev) (ustr (oe_AggregateID ev)) (ustr (oe_EventID ev))"

definition sqs_Publish :: "lib \<Rightarrow> sqs_client \<Rightarrow> OutboxEvent \<Rightarrow> unit io" where
  "sqs_Publish L c ev =
     on_error (WrapError ''sqs: publish event'')
       (broker_call L (event_message (lib_uuid_String L) (cl_eventsQueueURL c) ev))"

text \<open>\<open>time.Now().UnixNano()\<close>: nanoseconds since 1970, modulo 2^64.\<close>

definition unix_epoch :: time where
  "unix_epoch = 62135596800 * 1000000000"

definition UnixNano :: "time \<Rightarrow> int64" where
  "UnixNano t = word_of_int (t - unix_epoch)"

definition sendToDLQ :: "lib \<Rightarrow> sqs_client \<Rightarrow> string \<Rightarrow> string \<Rightarrow> unit io" where
  "sendToDLQ L c body messageID =
     bindM (read_clock L) (\<lambda>now.
     on_error (WrapError ''sqs: send message to dlq'')
       (broker_call L (SendMessage (cl_transactionsDLQURL c) body ''dlq''
         (''dlq-'' @ messageID @ ''-'' @ int_str (sint (UnixNano now))))))"

definition deleteMessage :: "lib \<Rightarrow> string \<Rightarrow> string \<Rightarrow> unit io" where
  "deleteMessage L queueURL receiptHandle = broker_call L (DeleteMessage queueURL receiptHandle)"

lemma framed_sqs [framed_rules]:
  "framed L (sqs_Publish L c ev)" "framed L (sendToDLQ L c b m)" "framed L (deleteMessage L q r)"
  unfolding sqs_Publish_def sendToDLQ_def deleteMessage_def by (intro framed_rules)+

lemma preserves_sqs:
  assumes "undisturbed L J"
  shows "preserves J (sqs_Publish L c ev)" "preserves J (sendToDLQ L c b m)"
    "preserves J (deleteMessage L q r)"
  unfolding sqs_Publish_def sendToDLQ_def deleteMessage_def
  by (intro preserves_rules preserves_broker_call preserves_clock assms)+

lemma keeps_sqs [keeps_rules]:
  "keeps_in F L (sqs_Publish L c ev)" "keeps_in F L (sendToDLQ L c b m)" "keeps_in F L (deleteMessage L q r)"
  unfolding sqs_Publish_def sendToDLQ_def deleteMessage_def by (intro keeps_rules)+

end
