(* ===== verification/Publisher.thy ===== *)
theory Publisher
  imports Outbox Sqs_Client "HOL-Library.Sublist"
begin

section \<open>Publishing the outbox (internal/app/outbox/publisher.go)\<close>

text \<open>
  A worker claims a batch in one transaction, sends each event to the broker, and only then, in
  a transaction of its own, marks it as published; a refused event is rescheduled with an
  exponential backoff. The latency of a publication is not modelled.
\<close>

record publisher_config =
  pc_BatchSize :: int64
  pc_BaseBackoff :: duration
  pc_MaxBackoff :: duration
  pc_LockTTL :: duration
  pc_PublisherID :: string

text \<open>The defaults of \<open>NewPublisher\<close>: 20 events, 30 s, 2 s, 5 min.\<close>

definition NewPublisher_config :: "publisher_config \<Rightarrow> publisher_config" where
  "NewPublisher_config c =
     c\<lparr>pc_BatchSize := (if sint (pc_BatchSize c) < 1 then 20 else pc_BatchSize c),
       pc_LockTTL := (if sint (pc_LockTTL c) \<le> 0 then 30000000000 else pc_LockTTL c),
       pc_BaseBackoff := (if sint (pc_BaseBackoff c) \<le> 0 then 2000000000 else pc_BaseBackoff c),
       pc_MaxBackoff := (if sint (pc_MaxBackoff c) \<le> 0 then 300000000000 else pc_MaxBackoff c)\<rparr>"

fun publisher_backoff_loop :: "nat \<Rightarrow> duration \<Rightarrow> duration \<Rightarrow> duration" where
  "publisher_backoff_loop 0 b mx = (if sint b > sint mx then mx else b)"
| "publisher_backoff_loop (Suc n) b mx =
     (let b2 = b * 2 in if sint b2 \<ge> sint mx then mx else publisher_backoff_loop n b2 mx)"

definition publisher_backoff :: "publisher_config \<Rightarrow> int64 \<Rightarrow> duration" where
  "publisher_backoff c n0 =
     (let n = (if sint n0 < 1 then 1 else n0)
      in publisher_backoff_loop (nat (sint n - 1)) (pc_BaseBackoff c) (pc_MaxBackoff c))"

definition markFailed :: "lib \<Rightarrow> OutboxEvent \<Rightarrow> time \<Rightarrow> goerror \<Rightarrow> unit io" where
  "markFailed L ev nxt publishErr =
     WithinTransaction L (bindM (read_clock L) (\<lambda>_. outbox_MarkFailed L (oe_EventID ev) nxt publishErr))"

text \<open>One event of the batch; the result is whether it counts as published.\<close>

definition publish_one :: "lib \<Rightarrow> sqs_client \<Rightarrow> publisher_config \<Rightarrow> OutboxEvent \<Rightarrow> bool io" where
  "publish_one L q c ev =
     bindM (attempt (sqs_Publish L q ev)) (\<lambda>r. case r of
       Inl err \<Rightarrow>
         bindM (read_clock L) (\<lambda>now.
         let nextAttempt = time_Add now (publisher_backoff c (oe_Attempts ev + 1)) in
         bindM (record_metric (RecordWorkerRetry ''outbox'')) (\<lambda>_.
         bindM (attempt (markFailed L ev nextAttempt err)) (\<lambda>_. ret False)))
     | Inr _ \<Rightarrow>
         bindM (attempt (WithinTransaction L
             (bindM (read_clock L) (\<lambda>now. outbox_MarkPublished L (oe_EventID ev) now)))) (\<lambda>r. case r of
           Inl err \<Rightarrow> ret False
         | Inr _ \<Rightarrow> bindM (record_metric (RecordOutboxPublished (sint (oe_Attempts ev + 1)))) (\<lambda>_. ret True)))"

fun publish_batch :: "lib \<Rightarrow> sqs_client \<Rightarrow> publisher_config \<Rightarrow> OutboxEvent list \<Rightarrow> nat \<Rightarrow> nat io" where
  "publish_batch L q c [] published = ret published"
| "publish_batch L q c (ev # evs) published =
     bindM (publish_one L q c ev) (\<lambda>ok. publish_batch L q c evs (if ok then published + 1 else published))"

definition claim_batch :: "lib \<Rightarrow> publisher_config \<Rightarrow> OutboxEvent list io" where
  "claim_batch L c =
     WithinTransaction L (bindM (read_clock L) (\<lambda>now.
       outbox_Claim L (pc_PublisherID c) now (sint (pc_BatchSize c)) (pc_LockTTL c)))"

definition PublishDue :: "lib \<Rightarrow> sqs_client \<Rightarrow> publisher_config \<Rightarrow> nat io" where
  "PublishDue L q c =
     bindM (claim_batch L c) (\<lambda>batch.
     bindM (publish_batch L q c batch 0) (\<lambda>published.
     bindM (attempt (outbox_PendingCount L)) (\<lambda>pending.
     bindM (case pending of Inr n \<Rightarrow> record_metric (SetOutboxPending n) | Inl _ \<Rightarrow> ret ()) (\<lambda>_.
     ret published))))"

subsection \<open>Framing\<close>

lemma framed_outbox [framed_rules]:
  "framed L (outbox_Claim L p now l ttl)" "framed L (outbox_MarkPublished L i now)"
  "framed L (outbox_MarkFailed L i nxt err)" "framed L (outbox_PendingCount L)"
  unfolding outbox_Claim_def outbox_MarkPublished_def outbox_MarkFailed_def outbox_PendingCount_def
  by (intro framed_rules)+

lemma framed_publisher [framed_rules]:
  "framed L (markFailed L ev nxt err)" "framed L (publish_one L q c ev)" "framed L (claim_batch L c)"
  unfolding markFailed_def publish_one_def claim_batch_def by (intro framed_rules)+

lemma framed_publish_batch [framed_rules]: "framed L (publish_batch L q c evs n)"
  by (induction evs arbitrary: n) (auto intro!: framed_rules)

subsection \<open>What a claim takes\<close>

lemma outbox_Claim_ok:
  assumes "outbox_Claim L p now limit ttl w = (Inr evs, w')"
  defines "d \<equiv> lib_others L (wd_step w) (wd_db w)"
    and "lk \<equiv> lib_locked L (wd_step w)"
    and "n \<equiv> nat (if limit \<le> 0 then 10 else limit)"
  defines "ids \<equiv> candidates lk now (time_Add now (- ttl)) n (db_outbox d)"
  shows "evs = map row_to_event (filter (\<lambda>r. or_event_id r \<in> set ids)
      (map (\<lambda>r. if or_event_id r \<in> set ids then lock_row p now r else r) (db_outbox d)))"
    and "wd_db w' = d\<lparr>db_outbox := map (\<lambda>r. if or_event_id r \<in> set ids then lock_row p now r else r)
      (db_outbox d)\<rparr>"
    and "wd_step w' = Suc (wd_step w)" and "wd_broker w' = wd_broker w"
proof -
  from assms(1) have "stmt L (sql_claim_outbox lk p now (time_Add now (- ttl)) n) w = (Inr evs, w')"
    by (simp add: outbox_Claim_def Let_def on_error_Inr stmt_locked_def lk_def n_def)
  then show "evs = map row_to_event (filter (\<lambda>r. or_event_id r \<in> set ids)
      (map (\<lambda>r. if or_event_id r \<in> set ids then lock_row p now r else r) (db_outbox d)))"
    "wd_db w' = d\<lparr>db_outbox := map (\<lambda>r. if or_event_id r \<in> set ids then lock_row p now r else r)
      (db_outbox d)\<rparr>"
    "wd_step w' = Suc (wd_step w)" "wd_broker w' = wd_broker w"
    by (auto simp: stmt_def sql_claim_outbox_def Let_def d_def ids_def split: if_splits option.splits)
qed

lemma lock_row_simps [simp]:
  "or_event_id (lock_row p now r) = or_event_id r" "or_aggregate_id (lock_row p now r) = or_aggregate_id r"
  "or_payload (lock_row p now r) = or_payload r" "or_attempts (lock_row p now r) = or_attempts r"
  "or_published_at (lock_row p now r) = or_published_at r" "or_occurred_at (lock_row p now r) = or_occurred_at r"
  "or_locked_by (lock_row p now r) = Some p" "or_locked_at (lock_row p now r) = Some now"
  by (simp_all add: lock_row_def)

text \<open>A claimed event, as a row of the database it was claimed from.\<close>

definition claimed_row ::
  "(uuid \<Rightarrow> bool) \<Rightarrow> time \<Rightarrow> time \<Rightarrow> outbox_row list \<Rightarrow> OutboxEvent \<Rightarrow> outbox_row \<Rightarrow> bool" where
  "claimed_row lk now cutoff rs ev r \<longleftrightarrow>
     r \<in> set rs \<and> claimable now cutoff rs r \<and> \<not> lk (or_event_id r) \<and>
     oe_EventID ev = or_event_id r \<and> oe_AggregateID ev = or_aggregate_id r \<and>
     oe_Payload ev = or_payload r \<and> oe_Attempts ev = or_attempts r"

lemma row_unique: "distinct (map f rs) \<Longrightarrow> r \<in> set rs \<Longrightarrow> q \<in> set rs \<Longrightarrow> f r = f q \<Longrightarrow> r = q"
  by (meson distinct_map inj_onD)

lemma outbox_Claim_rows:
  assumes run: "outbox_Claim L p now limit ttl w = (Inr evs, w')"
    and dist: "distinct (map or_event_id (db_outbox (lib_others L (wd_step w) (wd_db w))))"
    and ev: "ev \<in> set evs"
  obtains r where "claimed_row (lib_locked L (wd_step w)) now (time_Add now (- ttl))
    (db_outbox (lib_others L (wd_step w) (wd_db w))) ev r"
proof -
  let ?rs = "db_outbox (lib_others L (wd_step w) (wd_db w))"
  let ?ids = "candidates (lib_locked L (wd_step w)) now (time_Add now (- ttl))
    (nat (if limit \<le> 0 then 10 else limit)) ?rs"
  from ev outbox_Claim_ok(1) [OF run] obtain q where q: "q \<in> set ?rs" "or_event_id q \<in> set ?ids"
    and e: "ev = row_to_event (lock_row p now q)"
    by (auto split: if_splits)
  obtain r where r: "r \<in> set ?rs" "or_event_id r = or_event_id q"
      "claimable now (time_Add now (- ttl)) ?rs r" "\<not> lib_locked L (wd_step w) (or_event_id q)"
    by (rule candidates_claimable [OF q(2)])
  have "r = q" by (rule row_unique [OF dist r(1) q(1) r(2)])
  with r e show thesis
    by (intro that [of q]) (simp add: claimed_row_def row_to_event_def)
qed

lemma outbox_Claim_length:
  assumes run: "outbox_Claim L p now limit ttl w = (Inr evs, w')"
    and dist: "distinct (map or_event_id (db_outbox (lib_others L (wd_step w) (wd_db w))))"
  shows "length evs \<le> nat (if limit \<le> 0 then 10 else limit)" and "distinct (map oe_EventID evs)"
proof -
  let ?rs = "db_outbox (lib_others L (wd_step w) (wd_db w))"
  let ?n = "nat (if limit \<le> 0 then 10 else limit)"
  let ?ids = "candidates (lib_locked L (wd_step w)) now (time_Add now (- ttl)) ?n ?rs"
  have ids: "map oe_EventID evs = filter (\<lambda>i. i \<in> set ?ids) (map or_event_id ?rs)"
    unfolding outbox_Claim_ok(1) [OF run]
    by (induction ?rs) (auto simp: row_to_event_def filter_map comp_def)
  then show d: "distinct (map oe_EventID evs)" using dist by simp
  have "length evs = card (set (map oe_EventID evs))" using distinct_card [OF d] by simp
  also have "\<dots> \<le> card (set ?ids)" by (rule card_mono) (auto simp: ids)
  also have "\<dots> \<le> length ?ids" by (rule card_length)
  also have "\<dots> \<le> ?n" by (rule length_candidates)
  finally show "length evs \<le> ?n" .
qed

subsection \<open>Published means accepted by the broker\<close>

definition accepted :: "broker_op list \<Rightarrow> string \<Rightarrow> bool" where
  "accepted b dedup \<longleftrightarrow> (\<exists>url body grp. SendMessage url body grp dedup \<in> set b)"

definition published_accepted :: "lib \<Rightarrow> broker_op list \<Rightarrow> db \<Rightarrow> bool" where
  "published_accepted L b d \<longleftrightarrow> (\<forall>r \<in> set (db_outbox d). or_published_at r \<noteq> None \<longrightarrow>
     accepted b (lib_uuid_String L (or_event_id r)))"

text \<open>The other connections do not publish: what they leave published was published before.\<close>

definition sole_publisher :: "lib \<Rightarrow> bool" where
  "sole_publisher L \<longleftrightarrow> (\<forall>n d. \<forall>r \<in> set (db_outbox (lib_others L n d)). or_published_at r \<noteq> None \<longrightarrow>
     (\<exists>q \<in> set (db_outbox d). or_event_id q = or_event_id r \<and> or_published_at q \<noteq> None))"

lemma undisturbed_published:
  assumes "sole_publisher L"
  shows "undisturbed L (published_accepted L)"
proof -
  have "published_accepted L b (lib_others L n d)" if "published_accepted L b d" for n b d
    using assms that by (fastforce simp: sole_publisher_def published_accepted_def)
  moreover have "published_accepted L (b @ [op]) d" if "published_accepted L b d" for b op d
    using that by (fastforce simp: published_accepted_def accepted_def)
  ultimately show ?thesis by (simp add: undisturbed_def)
qed

lemma undisturbed_accepted:
  assumes "undisturbed L J"
  shows "undisturbed L (\<lambda>b d. J b d \<and> accepted b i)"
  using assms unfolding undisturbed_def accepted_def by auto

lemma holds_conj_log: "holds (\<lambda>b d. J b d \<and> P b) w \<longleftrightarrow> holds J w \<and> P (wd_broker w)"
  by (auto simp: holds_def)

lemma kept_published:
  "kept_by (published_accepted L) (sql_claim_outbox lk p now cutoff n)"
  "kept_by (published_accepted L) (sql_mark_failed i nxt err)"
  "kept_by (published_accepted L) sql_count_outbox"
  "kept_by (\<lambda>b d. published_accepted L b d \<and> accepted b (lib_uuid_String L i)) (sql_mark_published i now)"
  by (auto simp: kept_by_def sql_claim_outbox_def sql_mark_failed_def sql_count_outbox_def
      sql_mark_published_def Let_def published_accepted_def fail_row_def publish_row_def split: if_splits)

lemma preserves_claim_batch:
  assumes "sole_publisher L"
  shows "preserves (published_accepted L) (claim_batch L c)"
  unfolding claim_batch_def outbox_Claim_def Let_def
  by (intro preserves_WithinTransaction undisturbed_published assms framed_rules preserves_rules
      preserves_clock preserves_stmt_locked kept_published)

lemma preserves_markFailed:
  assumes "sole_publisher L"
  shows "preserves (published_accepted L) (markFailed L ev nxt err)"
  unfolding markFailed_def outbox_MarkFailed_def
  by (intro preserves_WithinTransaction undisturbed_published assms framed_rules preserves_rules
      preserves_clock preserves_stmt kept_published)

lemma preserves_confirm:
  assumes "sole_publisher L"
  shows "preserves (\<lambda>b d. published_accepted L b d \<and> accepted b (lib_uuid_String L i))
    (WithinTransaction L (bindM (read_clock L) (outbox_MarkPublished L i)))"
  unfolding outbox_MarkPublished_def
  by (intro preserves_WithinTransaction undisturbed_accepted undisturbed_published assms framed_rules
      preserves_rules preserves_clock preserves_stmt kept_published)

text \<open>A call that reports success was accepted.\<close>

lemma sqs_Publish_accepted:
  assumes "sqs_Publish L q ev w = (Inr u, w')"
  shows "wd_broker w' = wd_broker w @ [event_message (lib_uuid_String L) (cl_eventsQueueURL q) ev]"
  using assms
  by (auto simp: sqs_Publish_def on_error_Inr broker_call_def Let_def split: broker_outcome.splits)

lemma preserves_publish_one:
  assumes sole: "sole_publisher L"
  shows "preserves (published_accepted L) (publish_one L q c ev)"
proof (rule preservesI)
  fix w r w' assume w: "holds (published_accepted L) w" and run: "publish_one L q c ev w = (r, w')"
  let ?J = "published_accepted L" and ?i = "lib_uuid_String L (oe_EventID ev)"
  note un = undisturbed_published [OF sole]
  obtain x w1 where pub: "sqs_Publish L q ev w = (x, w1)" by (cases "sqs_Publish L q ev w")
  have w1: "holds ?J w1" by (rule preservesD [OF preserves_sqs(1) [OF un] w pub])
  show "holds ?J w'"
  proof (cases x)
    case (Inl err)
    have "preserves ?J (bindM (read_clock L) (\<lambda>now.
         let nextAttempt = time_Add now (publisher_backoff c (oe_Attempts ev + 1)) in
         bindM (record_metric (RecordWorkerRetry ''outbox'')) (\<lambda>_.
         bindM (attempt (markFailed L ev nextAttempt err)) (\<lambda>_. ret False))))"
      by (intro preserves_rules preserves_clock un preserves_markFailed sole)
    then show ?thesis
      using run pub Inl w1 by (auto simp: publish_one_def bindM_def attempt_def dest: preservesD)
  next
    case (Inr u)
    let ?K = "\<lambda>b d. ?J b d \<and> accepted b ?i"
    have "accepted (wd_broker w1) ?i"
      using sqs_Publish_accepted [OF pub [unfolded Inr]] by (auto simp: accepted_def event_message_def)
    then have K: "holds ?K w1" using w1 by (auto simp: holds_def)
    have "preserves ?K (bindM (attempt (WithinTransaction L
             (bindM (read_clock L) (\<lambda>now. outbox_MarkPublished L (oe_EventID ev) now)))) (\<lambda>r. case r of
           Inl err \<Rightarrow> ret False
         | Inr _ \<Rightarrow> bindM (record_metric (RecordOutboxPublished (sint (oe_Attempts ev + 1)))) (\<lambda>_. ret True)))"
      by (intro preserves_rules preserves_confirm sole)
    then have "holds ?K w'"
      using run pub Inr K by (auto simp: publish_one_def bindM_def attempt_def dest: preservesD)
    then show ?thesis by (auto simp: holds_def)
  qed
qed

lemma preserves_publish_batch:
  assumes "sole_publisher L"
  shows "preserves (published_accepted L) (publish_batch L q c evs n)"
  using preserves_publish_one [OF assms]
  by (induction evs arbitrary: n) (auto intro!: preserves_rules)

lemma preserves_PublishDue:
  assumes "sole_publisher L"
  shows "preserves (published_accepted L) (PublishDue L q c)"
  unfolding PublishDue_def outbox_PendingCount_def
  by (intro preserves_rules preserves_claim_batch preserves_publish_batch assms preserves_stmt
      undisturbed_published kept_published)

subsection \<open>What a run sends\<close>

lemma silent_outbox [silent_rules]:
  "silent (outbox_Claim L p now l ttl)" "silent (outbox_MarkPublished L i now)"
  "silent (outbox_MarkFailed L i nxt err)" "silent (outbox_PendingCount L)"
  "silent (markFailed L ev nxt err)" "silent (claim_batch L c)"
  unfolding outbox_Claim_def outbox_MarkPublished_def outbox_MarkFailed_def outbox_PendingCount_def
    markFailed_def claim_batch_def Let_def
  by (intro silent_rules)+

abbreviation message_of :: "lib \<Rightarrow> sqs_client \<Rightarrow> OutboxEvent \<Rightarrow> broker_op" where
  "message_of L q \<equiv> event_message (lib_uuid_String L) (cl_eventsQueueURL q)"

lemma sqs_Publish_log:
  assumes "sqs_Publish L q ev w = (r, w')"
  shows "wd_broker w' = wd_broker w \<or> wd_broker w' = wd_broker w @ [message_of L q ev]"
  using assms
  by (auto simp: sqs_Publish_def on_error_def broker_call_def Let_def split: broker_outcome.splits)

lemma publish_one_log:
  assumes "publish_one L q c ev w = (r, w')"
  shows "wd_broker w' = wd_broker w \<or> wd_broker w' = wd_broker w @ [message_of L q ev]"
proof -
  obtain x w1 where pub: "sqs_Publish L q ev w = (x, w1)" by (cases "sqs_Publish L q ev w")
  have "silent (case x of
       Inl err \<Rightarrow>
         bindM (read_clock L) (\<lambda>now.
         let nextAttempt = time_Add now (publisher_backoff c (oe_Attempts ev + 1)) in
         bindM (record_metric (RecordWorkerRetry ''outbox'')) (\<lambda>_.
         bindM (attempt (markFailed L ev nextAttempt err)) (\<lambda>_. ret False)))
     | Inr _ \<Rightarrow>
         bindM (attempt (WithinTransaction L
             (bindM (read_clock L) (\<lambda>now. outbox_MarkPublished L (oe_EventID ev) now)))) (\<lambda>r. case r of
           Inl err \<Rightarrow> ret False
         | Inr _ \<Rightarrow> bindM (record_metric (RecordOutboxPublished (sint (oe_Attempts ev + 1)))) (\<lambda>_. ret True)))"
    by (intro silent_rules)
  then have "wd_broker w' = wd_broker w1"
    using assms pub by (auto simp: publish_one_def bindM_def attempt_def dest: silent_broker)
  then show ?thesis using sqs_Publish_log [OF pub] by simp
qed

lemma publish_batch_log:
  assumes "publish_batch L q c evs n w = (r, w')"
  shows "\<exists>sent. subseq sent evs \<and> wd_broker w' = wd_broker w @ map (message_of L q) sent"
  using assms
proof (induction evs arbitrary: n w)
  case Nil
  then show ?case by (simp add: ret_def)
next
  case (Cons ev evs)
  from Cons.prems have "bindM (publish_one L q c ev)
      (\<lambda>ok. publish_batch L q c evs (if ok then n + 1 else n)) w = (r, w')" by simp
  then show ?case
  proof (cases rule: bindM_cases)
    case (first e)
    have "subseq [] (ev # evs)" "subseq [ev] (ev # evs)" by simp_all
    then show ?thesis using publish_one_log [OF first(1)] by (metis append_Nil2 list.map(1,2))
  next
    case (second ok w1)
    obtain sent where sent: "subseq sent evs" "wd_broker w' = wd_broker w1 @ map (message_of L q) sent"
      using Cons.IH [OF second(2)] by blast
    have "subseq sent (ev # evs)" "subseq (ev # sent) (ev # evs)" using sent(1) by auto
    then show ?thesis using publish_one_log [OF second(1)] sent(2) by fastforce
  qed
qed

lemma claim_batch_ok:
  assumes run: "claim_batch L c w = (Inr evs, w')"
  obtains n now lk where "wd_broker w' = wd_broker w" and
    "distinct (map or_event_id (db_outbox (drift L (wd_step w) n (wd_db w)))) \<Longrightarrow>
      (\<forall>ev \<in> set evs. \<exists>r. claimed_row lk now (time_Add now (- pc_LockTTL c))
        (db_outbox (drift L (wd_step w) n (wd_db w))) ev r) \<and>
      length evs \<le> nat (if sint (pc_BatchSize c) \<le> 0 then 10 else sint (pc_BatchSize c)) \<and>
      distinct (map oe_EventID evs)"
proof -
  note result = that
  let ?claim = "\<lambda>now. outbox_Claim L (pc_PublisherID c) now (sint (pc_BatchSize c)) (pc_LockTTL c)"
  have log: "wd_broker w' = wd_broker w" by (rule silent_broker [OF silent_outbox(6) run])
  have found: thesis if b: "begin_tx L w = (Inr (), w1)" and f: "bindM (read_clock L) ?claim w1 = (Inr evs, w2)"
    for w1 w2
  proof -
    from f obtain now w3 where w3: "read_clock L w1 = (Inr now, w3)" and cl: "?claim now w3 = (Inr evs, w2)"
      by (auto simp: bindM_Inr)
    have "begin_tx L w = (Inr (), w1) \<Longrightarrow> wd_db w1 = lib_others L (wd_step w) (wd_db w)"
      using begin_tx_world [OF b] by simp
    then have "lib_others L (wd_step w3) (wd_db w3) = drift L (wd_step w) (Suc (wd_step w3)) (wd_db w)"
      using b w3 begin_tx_world(1) [OF b]
        drift_trans [of "wd_step w" "Suc (wd_step w)" "Suc (Suc (wd_step w))" L]
        drift_trans [of "wd_step w" "Suc (Suc (wd_step w))" "Suc (Suc (Suc (wd_step w)))" L]
      by (auto simp: read_clock_def drift_Suc)
    with outbox_Claim_rows [OF cl] outbox_Claim_length [OF cl] show thesis
      by (intro result [of "Suc (wd_step w3)" "lib_locked L (wd_step w3)" now] log) auto
  qed
  from run show thesis
    unfolding claim_batch_def
  proof (cases rule: WithinTransaction_cases)
    case (finished w1 w2 v cr)
    then show ?thesis using found by (auto split: sum.splits)
  next
    case (finished_nested w1 w2 v cr)
    then show ?thesis using found by (auto split: sum.splits)
  qed simp_all
qed

lemma subseq_sub: "subseq xs ys \<Longrightarrow> set xs \<subseteq> set ys"
  by (induction rule: list_emb.induct) auto

lemma subseq_distinct: "subseq xs ys \<Longrightarrow> distinct ys \<Longrightarrow> distinct xs"
  by (induction rule: list_emb.induct) (auto dest: subseq_sub)

lemma holds_drift:
  assumes "undisturbed L J" and "J b d"
  shows "J b (drift L m n d)"
proof -
  have "J b (fold (lib_others L) ns d)" if "J b d" for ns d
    using that assms(1) by (induction ns arbitrary: d) (auto simp: undisturbed_def)
  then show ?thesis using assms(2) by (simp add: drift_def)
qed

lemma claimed_once_per_aggregate:
  assumes "\<forall>ev \<in> set evs. \<exists>r. claimed_row lk now cutoff rs ev r" and "distinct (map oe_EventID evs)"
  shows "distinct (map oe_AggregateID evs)"
proof -
  have "inj_on oe_AggregateID (set evs)"
  proof (rule inj_onI)
    fix x y assume x: "x \<in> set evs" and y: "y \<in> set evs" and eq: "oe_AggregateID x = oe_AggregateID y"
    obtain r s where "claimed_row lk now cutoff rs x r" "claimed_row lk now cutoff rs y s"
      using assms(1) x y by blast
    then have "oe_EventID x = oe_EventID y"
      using claimable_unique [of now cutoff rs r s] eq by (simp add: claimed_row_def)
    then show "x = y" using row_unique [OF assms(2) x y] by simp
  qed
  then show ?thesis using assms(2) by (simp add: distinct_map)
qed

lemma PublishDue_split:
  assumes "PublishDue L q c w = (r, w')"
  obtains (claim_failed) e where "claim_batch L c w = (Inl e, w')"
  | (claimed) evs w1 w2 n where "claim_batch L c w = (Inr evs, w1)"
      and "publish_batch L q c evs 0 w1 = (n, w2)" and "wd_broker w' = wd_broker w2"
proof -
  have sil: "silent (bindM (attempt (outbox_PendingCount L)) (\<lambda>pending.
     bindM (case pending of Inr n \<Rightarrow> record_metric (SetOutboxPending n) | Inl _ \<Rightarrow> ret ()) (\<lambda>_. ret n)))"
    for n :: nat
    by (intro silent_rules)
  from assms have "bindM (claim_batch L c) (\<lambda>batch. bindM (publish_batch L q c batch 0) (\<lambda>published.
     bindM (attempt (outbox_PendingCount L)) (\<lambda>pending.
     bindM (case pending of Inr n \<Rightarrow> record_metric (SetOutboxPending n) | Inl _ \<Rightarrow> ret ()) (\<lambda>_.
     ret published)))) w = (r, w')" by (simp add: PublishDue_def)
  then show thesis
  proof (cases rule: bindM_cases)
    case (first e)
    then show thesis using claim_failed by blast
  next
    case (second evs w1)
    obtain n w2 where p: "publish_batch L q c evs 0 w1 = (n, w2)" by (cases "publish_batch L q c evs 0 w1")
    with second(2) have "wd_broker w' = wd_broker w2"
      using silent_broker [OF sil] by (auto simp: bindM_def split: sum.splits)
    then show thesis using claimed [OF second(1) p] by blast
  qed
qed

subsection \<open>A sample outbox for the witnesses\<close>

text \<open>Two events of wallet 5 in the wrong table order, and one of wallet 6.\<close>

definition sample_event :: "uuid \<Rightarrow> uuid \<Rightarrow> time \<Rightarrow> outbox_row" where
  "sample_event i a t =
     \<lparr>or_event_id = i, or_aggregate_id = a, or_event_type = data_type sample_data,
      or_payload = ''{}'',
      or_occurred_at = t, or_attempts = 0, or_next_attempt_at = t, or_published_at = None,
      or_locked_by = None, or_locked_at = None, or_last_error = None, or_created_at = t\<rparr>"

definition outbox_world :: world where
  "outbox_world = sample_world\<lparr>wd_db := sample_db\<lparr>db_outbox :=
     [sample_event 12 5 20, sample_event 11 5 10, sample_event 13 6 30]\<rparr>\<rparr>"

definition sample_client :: sqs_client where
  "sample_client = \<lparr>cl_transactionsQueueURL = ''t'', cl_transactionsDLQURL = ''td'',
     cl_eventsQueueURL = ''e'', cl_eventsDLQURL = ''ed'', cl_DLQName = ''dlq''\<rparr>"

definition sample_publisher :: publisher_config where
  "sample_publisher = \<lparr>pc_BatchSize = 20, pc_BaseBackoff = 2, pc_MaxBackoff = 300, pc_LockTTL = 30,
     pc_PublisherID = ''p''\<rparr>"

lemma sole_sample_lib: "sole_publisher sample_lib"
  by (auto simp: sole_publisher_def sample_lib_def)

lemma drift_sample_lib: "drift sample_lib m n d = d"
  by (rule quiet_drift [OF quiet_sample_lib])

lemma outbox_world_saves: "wd_saves outbox_world = []" "wd_step outbox_world = 0"
    "wd_broker outbox_world = []" "\<not> wd_aborted outbox_world"
  by (simp_all add: outbox_world_def sample_world_def)

lemma outbox_world_rows:
  "db_outbox (wd_db outbox_world) = [sample_event 12 5 20, sample_event 11 5 10, sample_event 13 6 30]"
  by (simp add: outbox_world_def)

lemma outbox_world_holds: "holds (published_accepted L) outbox_world"
  by (simp add: holds_def outbox_world_saves published_accepted_def outbox_world_rows sample_event_def)

lemma sample_publish_run:
  "list_ex (\<lambda>r. or_published_at r \<noteq> None)
     (db_outbox (wd_db (snd (PublishDue sample_lib sample_client sample_publisher outbox_world))))"
  by code_simp

lemma sample_publish_log:
  "length (wd_broker (snd (PublishDue sample_lib sample_client sample_publisher outbox_world))) = 2"
  by code_simp

subsection \<open>Properties\<close>

text \<open>
  (C13) No event is lost between the database and the broker: an event is marked as published
  only when the broker has accepted a message with its identifier as deduplication key. If this
  holds before \<open>PublishDue\<close>, it holds after, whatever faults the database and the broker have,
  as long as no other process publishes.
\<close>

theorem published_only_if_accepted:
  assumes "sole_publisher L" and "holds (published_accepted L) w"
    and "r \<in> set (db_outbox (wd_db (snd (PublishDue L q c w))))" and "or_published_at r \<noteq> None"
  shows "\<exists>url body grp. SendMessage url body grp (lib_uuid_String L (or_event_id r)) \<in>
    set (wd_broker (snd (PublishDue L q c w)))"
proof -
  have "holds (published_accepted L) (snd (PublishDue L q c w))"
    using preserves_PublishDue [OF assms(1), of q c] assms(2) by (simp add: preserves_def)
  then show ?thesis using assms(3,4) by (simp add: holds_def published_accepted_def accepted_def)
qed

theorem published_only_if_accepted_witness:
  "\<exists>r \<in> set (db_outbox (wd_db (snd (PublishDue sample_lib sample_client sample_publisher outbox_world)))).
     \<exists>url body grp. SendMessage url body grp (decimal_uuid (or_event_id r)) \<in>
       set (wd_broker (snd (PublishDue sample_lib sample_client sample_publisher outbox_world)))"
proof -
  obtain r where r: "r \<in> set (db_outbox (wd_db (snd (PublishDue sample_lib sample_client sample_publisher
      outbox_world))))" "or_published_at r \<noteq> None"
    using sample_publish_run by (auto simp: list_ex_iff)
  have "lib_uuid_String sample_lib = decimal_uuid" by (simp add: sample_lib_def)
  then show ?thesis
    using published_only_if_accepted [OF sole_sample_lib outbox_world_holds r] r(1) by auto
qed

lemma claimed_next_in_line:
  assumes "claimed_row lk now stale (db_outbox d) ev e" and "published_accepted L log d"
  shows "\<exists>e \<in> set (db_outbox d). or_event_id e = oe_EventID ev \<and> or_aggregate_id e = oe_AggregateID ev \<and>
    or_payload e = oe_Payload ev \<and> or_published_at e = None \<and>
    (\<forall>f \<in> set (db_outbox d). or_aggregate_id f = or_aggregate_id e \<and>
       (or_occurred_at f, or_event_id f) < (or_occurred_at e, or_event_id e) \<longrightarrow>
       accepted log (lib_uuid_String L (or_event_id f)))"
proof -
  have "accepted log (lib_uuid_String L (or_event_id f))"
    if "f \<in> set (db_outbox d)" "or_aggregate_id f = or_aggregate_id e" "event_key f < event_key e" for f
    using that assms by (auto simp: claimed_row_def claimable_def unpublished_def published_accepted_def)
  with assms(1) show ?thesis
    by (intro bexI [of _ e]) (auto simp: claimed_row_def claimable_def unpublished_def event_key_def)
qed

text \<open>
  (C14) Events of one aggregate leave in order: everything a run of \<open>PublishDue\<close> adds to the
  broker is the message of an event it claimed, at most one per aggregate and at most the batch
  size, each with the payload stored with it; and every earlier event of the same aggregate, by
  instant and identifier, that the database had when the batch was claimed had already been
  accepted by the broker before the run.
\<close>

theorem PublishDue_sends_in_order:
  assumes sole: "sole_publisher L" and inv: "holds (published_accepted L) w"
    and ids: "\<forall>n. distinct (map or_event_id (db_outbox (drift L (wd_step w) n (wd_db w))))"
    and run: "PublishDue L q c w = (r, w')"
  shows "\<exists>sent n. wd_broker w' = wd_broker w @
      map (event_message (lib_uuid_String L) (cl_eventsQueueURL q)) sent \<and>
    distinct (map oe_AggregateID sent) \<and>
    length sent \<le> nat (if sint (pc_BatchSize c) \<le> 0 then 10 else sint (pc_BatchSize c)) \<and>
    (\<forall>ev \<in> set sent. \<exists>e \<in> set (db_outbox (drift L (wd_step w) n (wd_db w))).
       or_event_id e = oe_EventID ev \<and> or_aggregate_id e = oe_AggregateID ev \<and>
       or_payload e = oe_Payload ev \<and> or_published_at e = None \<and>
       (\<forall>f \<in> set (db_outbox (drift L (wd_step w) n (wd_db w))).
          or_aggregate_id f = or_aggregate_id e \<and>
          (or_occurred_at f, or_event_id f) < (or_occurred_at e, or_event_id e) \<longrightarrow>
          accepted (wd_broker w) (lib_uuid_String L (or_event_id f))))"
  using run
proof (cases rule: PublishDue_split)
  case (claim_failed e)
  then show ?thesis using silent_broker [OF silent_outbox(6) claim_failed] by (intro exI [of _ "[]"]) auto
next
  case (claimed evs w1 w2 m)
  obtain n now lk where log: "wd_broker w1 = wd_broker w" and
    cl: "\<forall>ev \<in> set evs. \<exists>r. claimed_row lk now (time_Add now (- pc_LockTTL c))
        (db_outbox (drift L (wd_step w) n (wd_db w))) ev r"
      "length evs \<le> nat (if sint (pc_BatchSize c) \<le> 0 then 10 else sint (pc_BatchSize c))"
      "distinct (map oe_EventID evs)"
    using claim_batch_ok [OF claimed(1)] ids by metis
  let ?d = "drift L (wd_step w) n (wd_db w)"
  have pub: "published_accepted L (wd_broker w) ?d"
    by (rule holds_drift [OF undisturbed_published [OF sole]]) (use inv in \<open>simp add: holds_def\<close>)
  obtain sent where sent: "subseq sent evs" "wd_broker w' = wd_broker w @ map (message_of L q) sent"
    using publish_batch_log [OF claimed(2)] claimed(3) log by auto
  have sub: "set sent \<subseteq> set evs" using sent(1) by (rule subseq_sub)
  have agg: "distinct (map oe_AggregateID sent)"
    using claimed_once_per_aggregate [OF cl(1,3)] subseq_map [OF sent(1)] by (rule subseq_distinct [rotated])
  have len: "length sent \<le> length evs" using sent(1) by (rule list_emb_length)
  have each: "\<exists>e. claimed_row lk now (time_Add now (- pc_LockTTL c)) (db_outbox ?d) ev e" if "ev \<in> set sent" for ev
    using bspec [OF cl(1) subsetD [OF sub that]] .
  show ?thesis
    by (rule exI [of _ sent], rule exI [of _ n], intro conjI ballI)
      (rule sent(2), rule agg, rule order.trans [OF len cl(2)],
        use each claimed_next_in_line [OF _ pub] in blast)
qed

theorem PublishDue_sends_in_order_witness:
  "\<exists>x y. wd_broker (snd (PublishDue sample_lib sample_client sample_publisher outbox_world)) =
       map (event_message decimal_uuid ''e'') [x, y] \<and> oe_AggregateID x \<noteq> oe_AggregateID y"
proof -
  let ?w' = "snd (PublishDue sample_lib sample_client sample_publisher outbox_world)"
  obtain r where run: "PublishDue sample_lib sample_client sample_publisher outbox_world = (r, ?w')"
    by (metis prod.collapse)
  have ids: "\<forall>n. distinct (map or_event_id (db_outbox (drift sample_lib (wd_step outbox_world) n
      (wd_db outbox_world))))"
    by (simp add: drift_sample_lib outbox_world_rows sample_event_def)
  obtain sent where sent: "wd_broker ?w' = map (event_message decimal_uuid ''e'') sent"
    and d: "distinct (map oe_AggregateID sent)"
    using PublishDue_sends_in_order [OF sole_sample_lib outbox_world_holds ids run]
    by (auto simp: outbox_world_saves sample_lib_def sample_client_def)
  have "length sent = 2" using sample_publish_log sent by simp
  then obtain x y where "sent = [x, y]" by (auto simp: numeral_2_eq_2 length_Suc_conv)
  with sent d show ?thesis by (intro exI [of _ x] exI [of _ y]) simp
qed

subsection \<open>Backoff\<close>

lemma sint_double:
  fixes b :: int64
  assumes "0 < sint b" and "sint b < 4611686018427387904"
  shows "sint (b * 2) = 2 * sint b"
proof -
  have "b * 2 = b + b" by simp
  moreover have "sint (b + b) = sint b + sint b"
    using assms by (subst sint_add_exact) (simp_all add: in_int64_def)
  ultimately show ?thesis by (simp only: mult_2 [symmetric])
qed

lemma backoff_loop_exact:
  assumes "0 < sint b" "sint b < 4611686018427387904" and "0 < sint mx" "sint mx < 4611686018427387904"
  shows "sint (backoff_loop n b mx) = min (sint b * 2 ^ n) (sint mx)"
  using assms(1,2)
proof (induction n arbitrary: b)
  case 0
  then show ?case by simp
next
  case (Suc n)
  note d = sint_double [OF Suc.prems]
  show ?case
  proof (cases "sint (b * 2) \<ge> sint mx")
    case True
    have "sint mx \<le> 2 * sint b" using True d by simp
    also have "\<dots> \<le> 2 * sint b * 2 ^ n"
      using Suc.prems(1) by (simp add: mult_le_cancel_left1)
    finally have "sint mx \<le> sint b * 2 ^ Suc n" by simp
    then show ?thesis using True by (simp add: Let_def min_def)
  next
    case False
    then have "sint (backoff_loop n (b * 2) mx) = min (sint (b * 2) * 2 ^ n) (sint mx)"
      using d Suc.prems(1) assms(4) by (intro Suc.IH) auto
    then show ?thesis using False d by (simp add: Let_def)
  qed
qed

lemma publisher_backoff_loop_eq: "publisher_backoff_loop n b mx = backoff_loop n b mx"
  by (induction n arbitrary: b) (simp_all add: Let_def)

text \<open>
  (C30) Both workers back off exactly: the wait before attempt \<open>n\<close> is the base doubled \<open>n - 1\<close>
  times, capped at the maximum, for every attempt number (counting from 1 those below it), as
  long as base and maximum are positive and below 2^62 nanoseconds; no doubling overflows.
\<close>

theorem backoff_exact:
  assumes "0 < sint base" "sint base < 2 ^ 62" and "0 < sint mx" "sint mx < 2 ^ 62"
  shows "sint (referenceBackoff \<lparr>cf_MaxWalletRetries = a, cf_ReferenceMaxAttempts = m,
      cf_ReferenceBaseBackoff = base, cf_ReferenceMaxBackoff = mx\<rparr> n) =
      min (sint base * 2 ^ nat (max 1 (sint n) - 1)) (sint mx) \<and>
    sint (publisher_backoff \<lparr>pc_BatchSize = bs, pc_BaseBackoff = base, pc_MaxBackoff = mx,
      pc_LockTTL = ttl, pc_PublisherID = i\<rparr> n) =
      min (sint base * 2 ^ nat (max 1 (sint n) - 1)) (sint mx)"
proof -
  have "sint (if sint n < 1 then 1 else n) = max 1 (sint n)" by simp
  then show ?thesis
    using backoff_loop_exact [of base mx] assms
    by (simp add: referenceBackoff_def publisher_backoff_def Let_def publisher_backoff_loop_eq)
qed

theorem backoff_exact_witness:
  "sint (publisher_backoff \<lparr>pc_BatchSize = 20, pc_BaseBackoff = 2000000000, pc_MaxBackoff = 300000000000,
     pc_LockTTL = 30000000000, pc_PublisherID = ''p''\<rparr> 4) = 16000000000"
  using backoff_exact [of 2000000000 300000000000 5 10 4 20 30000000000 "''p''"] by simp

subsection \<open>What happens to one event\<close>

lemma quiet_MarkPublished:
  assumes "quiet L" and "\<not> wd_aborted w"
    and "r \<in> set (db_outbox (wd_db w))" "or_event_id r = i" "or_published_at r = None"
  shows "outbox_MarkPublished L i now w = (Inr (), w\<lparr>wd_step := Suc (wd_step w),
    wd_db := (wd_db w)\<lparr>db_outbox := map (\<lambda>r. if or_event_id r = i \<and> unpublished r then publish_row now r else r)
      (db_outbox (wd_db w))\<rparr>\<rparr>)"
proof -
  have "filter (\<lambda>r. or_event_id r = i \<and> unpublished r) (db_outbox (wd_db w)) \<noteq> []"
    using assms(3-5) by (auto simp: filter_empty_conv unpublished_def)
  then show ?thesis
    using assms(1,2)
    by (simp add: outbox_MarkPublished_def bindM_def on_error_def quiet_stmt quiet_tick
        sql_mark_published_def Let_def ret_def)
qed

lemma quiet_MarkFailed:
  assumes "quiet L" and "\<not> wd_aborted w"
    and "\<forall>r \<in> set (db_outbox (wd_db w)). sint (or_attempts r) < 2147483647"
  shows "outbox_MarkFailed L i nxt err w = (Inr (), w\<lparr>wd_step := Suc (wd_step w),
    wd_db := (wd_db w)\<lparr>db_outbox := map (\<lambda>r. if or_event_id r = i \<and> unpublished r then fail_row nxt err r else r)
      (db_outbox (wd_db w))\<rparr>\<rparr>)"
  using assms
  by (auto simp: outbox_MarkFailed_def bindM_def on_error_def quiet_stmt quiet_tick sql_mark_failed_def
      Let_def ret_def)

text \<open>The database with the event's row changed while it is not published.\<close>

definition change_event :: "OutboxEvent \<Rightarrow> (outbox_row \<Rightarrow> outbox_row) \<Rightarrow> db \<Rightarrow> db" where
  "change_event ev f d = d\<lparr>db_outbox := map (\<lambda>r. if or_event_id r = oe_EventID ev \<and> unpublished r
     then f r else r) (db_outbox d)\<rparr>"

lemma publish_one_accepted:
  assumes "quiet L" and pub: "sqs_Publish L q ev w = (Inr u, w1)" and "wd_saves w1 = []" and "\<not> wd_aborted w1"
    and "r \<in> set (db_outbox (wd_db w1))" "or_event_id r = oe_EventID ev" "or_published_at r = None"
  shows "\<exists>w'. publish_one L q c ev w = (Inr True, w') \<and> wd_broker w' = wd_broker w1 \<and>
    wd_db w' = change_event ev (publish_row (lib_clock L (Suc (wd_step w1)))) (wd_db w1)"
proof -
  let ?d = "change_event ev (publish_row (lib_clock L (Suc (wd_step w1)))) (wd_db w1)"
  let ?mark = "bindM (read_clock L) (\<lambda>now. outbox_MarkPublished L (oe_EventID ev) now)"
  have "?mark (w1\<lparr>wd_step := Suc (wd_step w1), wd_saves := [wd_db w1]\<rparr>) =
      (Inr (), w1\<lparr>wd_step := Suc (Suc (Suc (wd_step w1))), wd_db := ?d, wd_saves := [wd_db w1]\<rparr>)"
    using assms by (simp add: bindM_def read_clock_def quiet_tick quiet_MarkPublished change_event_def)
  from quiet_WithinTransaction [where fn = ?mark, OF assms(1,3,4) this] assms(3,4)
  have "WithinTransaction L ?mark w1 = (Inr (), w1\<lparr>wd_step := Suc (Suc (Suc (Suc (wd_step w1)))), wd_db := ?d, wd_saves := []\<rparr>)"
    by simp
  then have "publish_one L q c ev w = (Inr True, (w1\<lparr>wd_step := Suc (Suc (Suc (Suc (wd_step w1)))),
      wd_db := ?d, wd_saves := []\<rparr>)\<lparr>wd_metrics := wd_metrics w1 @ [RecordOutboxPublished (sint (oe_Attempts ev + 1))]\<rparr>)"
    using pub assms(3) by (simp add: publish_one_def bindM_def attempt_def record_metric_def ret_def)
  then show ?thesis by simp
qed

lemma publish_one_refused:
  assumes "quiet L" and pub: "sqs_Publish L q ev w = (Inl err, w1)" and "wd_saves w1 = []" and "\<not> wd_aborted w1"
    and "r \<in> set (db_outbox (wd_db w1))" "or_event_id r = oe_EventID ev" "or_published_at r = None"
    and "\<forall>r \<in> set (db_outbox (wd_db w1)). sint (or_attempts r) < 2147483647"
  shows "\<exists>w'. publish_one L q c ev w = (Inr False, w') \<and> wd_broker w' = wd_broker w1 \<and> wd_db w' =
    change_event ev (fail_row (time_Add (lib_clock L (wd_step w1)) (publisher_backoff c (oe_Attempts ev + 1))) err) (wd_db w1)"
proof -
  let ?nxt = "time_Add (lib_clock L (wd_step w1)) (publisher_backoff c (oe_Attempts ev + 1))"
  let ?d = "change_event ev (fail_row ?nxt err) (wd_db w1)"
  let ?w2 = "w1\<lparr>wd_step := Suc (wd_step w1), wd_metrics := wd_metrics w1 @ [RecordWorkerRetry ''outbox'']\<rparr>"
  let ?mark = "bindM (read_clock L) (\<lambda>_. outbox_MarkFailed L (oe_EventID ev) ?nxt err)"
  have "?mark (?w2\<lparr>wd_step := Suc (wd_step ?w2), wd_saves := [wd_db ?w2]\<rparr>) =
      (Inr (), ?w2\<lparr>wd_step := Suc (Suc (Suc (wd_step ?w2))), wd_db := ?d, wd_saves := [wd_db ?w2]\<rparr>)"
    using assms by (simp add: bindM_def read_clock_def quiet_tick quiet_MarkFailed change_event_def)
  from quiet_WithinTransaction [where fn = ?mark, OF assms(1) _ _ this]
  have "markFailed L ev ?nxt err ?w2 = (Inr (), ?w2\<lparr>wd_step := Suc (Suc (Suc (Suc (wd_step ?w2)))), wd_db := ?d, wd_saves := []\<rparr>)"
    using assms(3,4) by (simp add: markFailed_def)
  then have "publish_one L q c ev w = (Inr False, ?w2\<lparr>wd_step := Suc (Suc (Suc (Suc (wd_step ?w2)))),
      wd_db := ?d, wd_saves := []\<rparr>)"
    using pub assms(1) by (simp add: publish_one_def bindM_def attempt_def record_metric_def read_clock_def quiet_tick
        Let_def ret_def)
  then show ?thesis by simp
qed

text \<open>The outcome of the send, which takes one step.\<close>

definition sent :: "lib \<Rightarrow> sqs_client \<Rightarrow> OutboxEvent \<Rightarrow> world \<Rightarrow> world" where
  "sent L q ev w = w\<lparr>wd_step := Suc (wd_step w),
     wd_broker := wd_broker w @ [event_message (lib_uuid_String L) (cl_eventsQueueURL q) ev]\<rparr>"

lemma quiet_sqs_Publish:
  assumes "quiet L"
  shows "sqs_Publish L q ev w =
    (case lib_broker L (wd_step w) of
       Accepted \<Rightarrow> (Inr (), sent L q ev w)
     | Refused s \<Rightarrow> (Inl (WrapError ''sqs: publish event'' (LibError s)), w\<lparr>wd_step := Suc (wd_step w)\<rparr>)
     | AnswerLost s \<Rightarrow> (Inl (WrapError ''sqs: publish event'' (LibError s)), sent L q ev w))"
  using assms
  by (simp add: sqs_Publish_def on_error_def broker_call_def Let_def quiet_tick sent_def split: broker_outcome.split)

text \<open>
  (C15) The fate of one claimed event. When the broker accepts it, the message is sent, the event
  counts, and exactly its row becomes published, at the instant read after the send, and unlocked.
  When the broker refuses it or its answer is lost, it does not count and exactly its row gets one
  more attempt, the broker's error, the lock released, and the next attempt the backoff of the
  attempt count after the instant read when the send failed; the message is sent only in the second
  case. Nothing else in the database changes.
\<close>

theorem publish_one_outcome:
  assumes "quiet L" and "wd_saves w = []" and "\<not> wd_aborted w"
    and "r \<in> set (db_outbox (wd_db w))" "or_event_id r = oe_EventID ev" "or_published_at r = None"
    and "\<forall>r \<in> set (db_outbox (wd_db w)). sint (or_attempts r) < 2147483647"
  shows "\<exists>w' row'. publish_one L q c ev w = (Inr (lib_broker L (wd_step w) = Accepted), w') \<and>
    wd_db w' = (wd_db w)\<lparr>db_outbox := map (\<lambda>r.
      if or_event_id r = oe_EventID ev \<and> or_published_at r = None then row' r else r) (db_outbox (wd_db w))\<rparr> \<and>
    row' = (\<lambda>r. case lib_broker L (wd_step w) of
        Accepted \<Rightarrow> r\<lparr>or_published_at := Some (lib_clock L (wd_step w + 2)),
          or_locked_by := None, or_locked_at := None, or_last_error := None\<rparr>
      | Refused s \<Rightarrow> r\<lparr>or_attempts := or_attempts r + 1,
          or_next_attempt_at := time_Add (lib_clock L (wd_step w + 1)) (publisher_backoff c (oe_Attempts ev + 1)),
          or_locked_by := None, or_locked_at := None,
          or_last_error := Some (WrapError ''sqs: publish event'' (LibError s))\<rparr>
      | AnswerLost s \<Rightarrow> r\<lparr>or_attempts := or_attempts r + 1,
          or_next_attempt_at := time_Add (lib_clock L (wd_step w + 1)) (publisher_backoff c (oe_Attempts ev + 1)),
          or_locked_by := None, or_locked_at := None,
          or_last_error := Some (WrapError ''sqs: publish event'' (LibError s))\<rparr>) \<and>
    wd_broker w' = wd_broker w @ (case lib_broker L (wd_step w) of
        Refused s \<Rightarrow> []
      | _ \<Rightarrow> [SendMessage (cl_eventsQueueURL q) (oe_Payload ev) (lib_uuid_String L (oe_AggregateID ev))
          (lib_uuid_String L (oe_EventID ev))])"
proof -
  note pub = quiet_sqs_Publish [OF assms(1), of q ev w]
  show ?thesis
  proof (cases "lib_broker L (wd_step w)")
    case Accepted
    then have "sqs_Publish L q ev w = (Inr (), sent L q ev w)" using pub by simp
    from publish_one_accepted [OF assms(1) this, of r c] assms Accepted show ?thesis
      by (auto simp: sent_def change_event_def unpublished_def publish_row_def event_message_def cong: if_cong)
  next
    case (Refused s)
    then have "sqs_Publish L q ev w =
        (Inl (WrapError ''sqs: publish event'' (LibError s)), w\<lparr>wd_step := Suc (wd_step w)\<rparr>)"
      using pub by simp
    from publish_one_refused [OF assms(1) this, of r c] assms Refused show ?thesis
      by (auto simp: change_event_def unpublished_def fail_row_def cong: if_cong)
  next
    case (AnswerLost s)
    then have "sqs_Publish L q ev w = (Inl (WrapError ''sqs: publish event'' (LibError s)), sent L q ev w)"
      using pub by simp
    from publish_one_refused [OF assms(1) this, of r c] assms AnswerLost show ?thesis
      by (auto simp: sent_def change_event_def unpublished_def fail_row_def event_message_def cong: if_cong)
  qed
qed

definition refusing_lib :: lib where
  "refusing_lib = sample_lib\<lparr>lib_broker := (\<lambda>n. Refused ''down'')\<rparr>"

theorem publish_one_outcome_witness:
  "\<exists>w'. publish_one refusing_lib sample_client sample_publisher (row_to_event (sample_event 11 5 10))
       outbox_world = (Inr False, w') \<and> map or_attempts (db_outbox (wd_db w')) = [0, 1, 0]"
proof -
  let ?ev = "row_to_event (sample_event 11 5 10)"
  have q: "quiet refusing_lib" by (simp add: quiet_def refusing_lib_def sample_lib_def)
  have r: "sample_event 11 5 10 \<in> set (db_outbox (wd_db outbox_world))"
      "or_event_id (sample_event 11 5 10) = oe_EventID ?ev" "or_published_at (sample_event 11 5 10) = None"
    by (simp_all add: outbox_world_rows sample_event_def row_to_event_def)
  have small: "\<forall>r \<in> set (db_outbox (wd_db outbox_world)). sint (or_attempts r) < 2147483647"
    by (simp add: outbox_world_rows sample_event_def)
  have refused: "lib_broker refusing_lib n = Refused ''down''" for n by (simp add: refusing_lib_def)
  show ?thesis
    using publish_one_outcome [OF q outbox_world_saves(1,4) r small, of sample_client sample_publisher]
    by (auto simp: refused outbox_world_rows sample_event_def row_to_event_def)
qed

end
