(* ===== verification/Workers.thy ===== *)
theory Workers
  imports Wager_Service Publisher
begin

section \<open>Background workers (app/references/resolver.go, platform/worker/worker.go)\<close>

text \<open>
  The loop every worker runs, and what the reference resolver and the outbox publisher do at
  each of its ticks. The ticker and the cancellation of the context decide how often the loop
  runs: a run is given its number of ticks (how ticks, cancellation and the hooks interleave is in
  \<open>Lifecycle\<close>). Logging is not modelled.
\<close>

text \<open>\<open>run := func() { ... }\<close>: the error of an iteration is only logged.\<close>

definition worker_step :: "'a io \<Rightarrow> unit io" where
  "worker_step fn = bindM (attempt fn) (\<lambda>_. ret ())"

fun worker_ticks :: "'a io \<Rightarrow> nat \<Rightarrow> unit io" where
  "worker_ticks fn 0 = ret ()"
| "worker_ticks fn (Suc n) = bindM (worker_step fn) (\<lambda>_. worker_ticks fn n)"

text \<open>Once immediately and then on every tick.\<close>

definition worker_Run :: "'a io \<Rightarrow> nat \<Rightarrow> unit io" where
  "worker_Run fn ticks = bindM (worker_step fn) (\<lambda>_. worker_ticks fn ticks)"

definition worker_interval :: "duration \<Rightarrow> duration" where
  "worker_interval interval = (if sint interval \<le> 0 then 1000000000 else interval)"

definition NewResolver_batch :: "int64 \<Rightarrow> int64" where
  "NewResolver_batch batch = (if sint batch < 1 then 20 else batch)"

text \<open>An iteration of the resolver.\<close>

definition Resolver_iteration :: "lib \<Rightarrow> Config \<Rightarrow> int64 \<Rightarrow> unit io" where
  "Resolver_iteration L c batch =
     bindM (ResumeDue L c (sint batch)) (\<lambda>(resumed, err). case err of
         Some e \<Rightarrow> throw e
       | None \<Rightarrow>
           bindM (attempt (CountPending L)) (\<lambda>r. case r of
               Inr pending \<Rightarrow> record_metric (SetPendingReferences pending)
             | Inl _ \<Rightarrow> ret ()))"

text \<open>An iteration of the publisher (\<open>startOutboxPublisher\<close>).\<close>

definition Publisher_iteration :: "lib \<Rightarrow> sqs_client \<Rightarrow> publisher_config \<Rightarrow> unit io" where
  "Publisher_iteration L q pc = bindM (PublishDue L q pc) (\<lambda>_. ret ())"

end
