(* ===== verification/Go_Text.thy ===== *)
theory Go_Text
  imports Strconv
begin

section \<open>More text functions of Go's standard library\<close>

text \<open>
  What the adapters use of \<open>strings\<close>, \<open>strconv\<close>, \<open>fmt\<close> and \<open>encoding/base64\<close>, on byte
  strings: \<open>TrimSpace\<close>, \<open>Cut\<close>, \<open>Split\<close>, \<open>HasSuffix\<close>, \<open>EqualFold\<close>, \<open>Atoi\<close>, \<open>ParseBool\<close>, the
  verb \<open>%d\<close> of \<open>Sscanf\<close>, and the unpadded URL encoding of base64. \<open>None\<close> stands for an error.
\<close>

subsection \<open>White space\<close>

text \<open>The UTF-8 encodings of the runes for which \<open>unicode.IsSpace\<close> holds.\<close>

definition inline_spaces :: "string list" where
  "inline_spaces =
     [[CHR 0x09], [CHR 0x0B], [CHR 0x0C], [CHR 0x0D], [CHR 0x20],
      [CHR 0xC2, CHR 0x85], [CHR 0xC2, CHR 0xA0], [CHR 0xE1, CHR 0x9A, CHR 0x80],
      [CHR 0xE2, CHR 0x80, CHR 0x80], [CHR 0xE2, CHR 0x80, CHR 0x81], [CHR 0xE2, CHR 0x80, CHR 0x82],
      [CHR 0xE2, CHR 0x80, CHR 0x83], [CHR 0xE2, CHR 0x80, CHR 0x84], [CHR 0xE2, CHR 0x80, CHR 0x85],
      [CHR 0xE2, CHR 0x80, CHR 0x86], [CHR 0xE2, CHR 0x80, CHR 0x87], [CHR 0xE2, CHR 0x80, CHR 0x88],
      [CHR 0xE2, CHR 0x80, CHR 0x89], [CHR 0xE2, CHR 0x80, CHR 0x8A], [CHR 0xE2, CHR 0x80, CHR 0xA8],
      [CHR 0xE2, CHR 0x80, CHR 0xA9], [CHR 0xE2, CHR 0x80, CHR 0xAF], [CHR 0xE2, CHR 0x81, CHR 0x9F],
      [CHR 0xE3, CHR 0x80, CHR 0x80]]"

definition spaces :: "string list" where
  "spaces = [CHR 0x0A] # inline_spaces"

text \<open>Leading occurrences of the given words.\<close>

function trim_with :: "string list \<Rightarrow> string \<Rightarrow> string" where
  "trim_with ps s =
     (case find (\<lambda>p. p \<noteq> '''' \<and> HasPrefix s p) ps of
        None \<Rightarrow> s
      | Some p \<Rightarrow> trim_with ps (drop (length p) s))"
  by pat_completeness auto
termination
  by (relation "measure (\<lambda>(ps, s). length s)") (auto simp: find_Some_iff HasPrefix_def intro!: diff_less)

declare trim_with.simps [simp del]

definition TrimSpace :: "string \<Rightarrow> string" where
  "TrimSpace s = rev (trim_with (map rev spaces) (rev (trim_with spaces s)))"

subsection \<open>Cutting and comparing\<close>

definition Cut :: "string \<Rightarrow> char \<Rightarrow> string \<times> string \<times> bool" where
  "Cut s c =
     (case IndexByte s c of None \<Rightarrow> (s, '''', False) | Some i \<Rightarrow> (take i s, drop (Suc i) s, True))"

fun Split :: "string \<Rightarrow> char \<Rightarrow> string list" where
  "Split [] sep = [[]]"
| "Split (c # cs) sep =
     (if c = sep then [] # Split cs sep
      else (case Split cs sep of [] \<Rightarrow> [[c]] | w # ws \<Rightarrow> (c # w) # ws))"

text \<open>\<open>strings.SplitN(s, sep, 2)\<close> with a separator of one byte.\<close>

definition SplitN2 :: "string \<Rightarrow> char \<Rightarrow> string list" where
  "SplitN2 s sep = (case Cut s sep of (a, b, found) \<Rightarrow> if found then [a, b] else [s])"

definition HasSuffix :: "string \<Rightarrow> string \<Rightarrow> bool" where
  "HasSuffix s p \<longleftrightarrow> HasPrefix (rev s) (rev p)"

definition lower_char :: "char \<Rightarrow> char" where
  "lower_char c = (if 65 \<le> (of_char c :: nat) \<and> (of_char c :: nat) \<le> 90 then char_of (of_char c + 32 :: nat) else c)"

text \<open>
  \<open>strings.EqualFold\<close> with a word of ASCII letters other than k and s (no other rune folds to
  any of them).
\<close>

definition EqualFold :: "string \<Rightarrow> string \<Rightarrow> bool" where
  "EqualFold s t \<longleftrightarrow> map lower_char s = map lower_char t"

subsection \<open>Numbers and truth values\<close>

text \<open>An optional sign and digits, in the range of a 64-bit integer.\<close>

definition ParseInt :: "string \<Rightarrow> int option" where
  "ParseInt s =
     (let neg = HasPrefix s ''-'';
          ds = (if neg \<or> HasPrefix s ''+'' then drop 1 s else s);
          k = (if neg then - int (digits_value ds) else int (digits_value ds))
      in if ds = '''' \<or> \<not> list_all is_digit ds then None
         else if k < - (2 ^ 63) \<or> 2 ^ 63 \<le> k then None
         else Some k)"

text \<open>\<open>strconv.Atoi\<close>; an int has 64 bits.\<close>

definition Atoi :: "string \<Rightarrow> int option" where
  "Atoi s = ParseInt s"

definition ParseBool :: "string \<Rightarrow> bool option" where
  "ParseBool s =
     (if s \<in> set [''1'', ''t'', ''T'', ''true'', ''TRUE'', ''True''] then Some True
      else if s \<in> set [''0'', ''f'', ''F'', ''false'', ''FALSE'', ''False''] then Some False
      else None)"

text \<open>
  \<open>fmt.Sscanf(s, "%d", &k)\<close>: leading spaces are skipped, but a newline is an error; what
  follows the number is not looked at.
\<close>

definition Sscanf_d :: "string \<Rightarrow> int option" where
  "Sscanf_d s =
     (let t = trim_with inline_spaces s;
          sign = takeWhile (\<lambda>c. c = CHR ''+'' \<or> c = CHR ''-'') (take 1 t)
      in ParseInt (sign @ takeWhile is_digit (drop (length sign) t)))"

subsection \<open>base64 (RawURLEncoding)\<close>

definition base64_char :: "nat \<Rightarrow> char" where
  "base64_char n =
     (if n < 26 then char_of (65 + n) else if n < 52 then char_of (71 + n)
      else if n < 62 then char_of (n - 4) else if n = 62 then CHR ''-'' else CHR ''_'')"

definition base64_value :: "char \<Rightarrow> nat option" where
  "base64_value c =
     (let b = of_char c :: nat in
      if 65 \<le> b \<and> b \<le> 90 then Some (b - 65) else if 97 \<le> b \<and> b \<le> 122 then Some (b - 71)
      else if 48 \<le> b \<and> b \<le> 57 then Some (b + 4) else if c = CHR ''-'' then Some 62
      else if c = CHR ''_'' then Some 63 else None)"

fun base64_digits :: "nat list \<Rightarrow> nat list" where
  "base64_digits (a # b # c # bs) =
     (a div 4) # (a mod 4 * 16 + b div 16) # (b mod 16 * 4 + c div 64) # (c mod 64) # base64_digits bs"
| "base64_digits [a, b] = [a div 4, a mod 4 * 16 + b div 16, b mod 16 * 4]"
| "base64_digits [a] = [a div 4, a mod 4 * 16]"
| "base64_digits [] = []"

text \<open>The spare bits of the last digit are ignored; a single digit left over is an error.\<close>

fun base64_bytes :: "nat list \<Rightarrow> nat list option" where
  "base64_bytes (p # q # r # s # ds) =
     map_option (\<lambda>bs. (p * 4 + q div 16) # (q mod 16 * 16 + r div 4) # (r mod 4 * 64 + s) # bs)
       (base64_bytes ds)"
| "base64_bytes [p, q, r] = Some [p * 4 + q div 16, q mod 16 * 16 + r div 4]"
| "base64_bytes [p, q] = Some [p * 4 + q div 16]"
| "base64_bytes [p] = None"
| "base64_bytes [] = Some []"

definition base64_EncodeToString :: "string \<Rightarrow> string" where
  "base64_EncodeToString s = map base64_char (base64_digits (map of_char s))"

text \<open>The decoder skips carriage returns and newlines.\<close>

definition base64_DecodeString :: "string \<Rightarrow> string option" where
  "base64_DecodeString s =
     (let ds = map base64_value (filter (\<lambda>c. c \<noteq> CHR 0x0A \<and> c \<noteq> CHR 0x0D) s)
      in if None \<in> set ds then None
         else map_option (map char_of) (base64_bytes (map the ds)))"

subsection \<open>Lemmas\<close>

lemma base64_value_char [simp]:
  assumes "n < 64"
  shows "base64_value (base64_char n) = Some n"
proof -
  consider "n < 26" | "26 \<le> n" "n < 52" | "52 \<le> n" "n < 62" | "n = 62" | "n = 63"
    using assms by linarith
  then show ?thesis
    by cases (simp_all add: base64_value_def base64_char_def Let_def, arith)
qed

lemma base64_value_newline: "base64_value (CHR 0x0A) = None" "base64_value (CHR 0x0D) = None"
  by (simp_all add: base64_value_def)

lemma base64_char_plain: "n < 64 \<Longrightarrow> base64_char n \<noteq> CHR 0x0A \<and> base64_char n \<noteq> CHR 0x0D"
  using base64_value_char base64_value_newline by (metis option.distinct(1))

lemma base64_digits_bound: "\<forall>b \<in> set bs. b < 256 \<Longrightarrow> \<forall>d \<in> set (base64_digits bs). d < 64"
  by (induction bs rule: base64_digits.induct) auto

lemma base64_bytes_digits: "\<forall>b \<in> set bs. b < 256 \<Longrightarrow> base64_bytes (base64_digits bs) = Some bs"
  by (induction bs rule: base64_digits.induct) auto

lemma base64_round_trip: "base64_DecodeString (base64_EncodeToString s) = Some s"
proof -
  let ?ds = "base64_digits (map of_char s)"
  have b: "\<forall>d \<in> set ?ds. d < 64" by (rule base64_digits_bound) auto
  then have f: "filter (\<lambda>c. c \<noteq> CHR 0x0A \<and> c \<noteq> CHR 0x0D) (map base64_char ?ds) = map base64_char ?ds"
    by (auto simp: filter_id_conv dest: base64_char_plain)
  have v: "map base64_value (map base64_char ?ds) = map Some ?ds" using b by simp
  have "base64_bytes ?ds = Some (map of_char s)" by (rule base64_bytes_digits) auto
  then show ?thesis
    by (simp add: base64_DecodeString_def base64_EncodeToString_def f v Let_def comp_def del: map_map)
      (auto simp: comp_def)
qed

lemma Cut_at: "c \<notin> set a \<Longrightarrow> Cut (a @ c # b) c = (a, b, True)"
proof -
  assume "c \<notin> set a"
  then have "IndexByte (a @ c # b) c = Some (length a)" by (induction a) auto
  then show ?thesis by (simp add: Cut_def)
qed

text \<open>A number without a sign.\<close>

lemma ParseInt_digits:
  assumes "s \<noteq> ''''" and "list_all is_digit s"
  shows "ParseInt s = (if 2 ^ 63 \<le> digits_value s then None else Some (int (digits_value s)))"
proof -
  have "hd s \<noteq> CHR ''-'' \<and> hd s \<noteq> CHR ''+''"
    using assms by (cases s) (auto simp: is_digit_def)
  then have "\<not> HasPrefix s ''-''" "\<not> HasPrefix s ''+''" using assms(1) by (cases s; simp add: HasPrefix_def)+
  then show ?thesis using assms by (auto simp: ParseInt_def Let_def)
qed

end
