(* ===== verification/Oidc.thy ===== *)
theory Oidc
  imports Tx Go_Text
begin

section \<open>Bearer tokens (internal/adapters/oidc/verifier.go)\<close>

text \<open>
  The identity and the roles that a verified token carries. Verifying a token and decoding its
  claims belong to the go-oidc package: \<open>vf_verify\<close> answers, at each step of the world, with the
  token's subject and its claims (\<open>None\<close> when they cannot be decoded), or with an error.
\<close>

definition RoleProvider :: string where "RoleProvider = ''provider''"
definition RoleInternal :: string where "RoleInternal = ''internal''"

record Principal =
  pr_Subject :: string
  pr_ProviderID :: string
  pr_Roles :: "string list"

definition HasRole :: "Principal \<Rightarrow> string \<Rightarrow> bool" where
  "HasRole p role = list_ex (\<lambda>candidate. candidate = role) (pr_Roles p)"

text \<open>A value of type \<open>any\<close> made by \<open>encoding/json\<close>; an object is a map.\<close>

datatype claim =
    ClaimNull
  | ClaimBool bool
  | ClaimNumber
  | ClaimString string
  | ClaimArray "claim list"
  | ClaimObject "(string \<times> claim) list"

record Verifier =
  vf_verify :: "nat \<Rightarrow> string \<Rightarrow> (string \<times> (string \<times> claim) list option) result"
  vf_rolesClaim :: string
  vf_providerClaim :: string

text \<open>The loop of \<open>lookupClaim\<close> over the segments of the path.\<close>

fun lookup_segments :: "claim \<Rightarrow> string list \<Rightarrow> claim option" where
  "lookup_segments current [] = Some current"
| "lookup_segments (ClaimObject ms) (segment # rest) =
     (case map_of ms segment of None \<Rightarrow> None | Some v \<Rightarrow> lookup_segments v rest)"
| "lookup_segments current (segment # rest) = None"

definition lookupClaim :: "(string \<times> claim) list \<Rightarrow> string \<Rightarrow> claim option" where
  "lookupClaim claims path =
     (if path = '''' then None else lookup_segments (ClaimObject claims) (Split path (CHR ''.'')))"

fun role_strings :: "claim list \<Rightarrow> string list" where
  "role_strings [] = []"
| "role_strings (ClaimString s # vs) = s # role_strings vs"
| "role_strings (v # vs) = role_strings vs"

definition extractRoles :: "(string \<times> claim) list \<Rightarrow> string \<Rightarrow> string list" where
  "extractRoles claims path =
     (case lookupClaim claims path of Some (ClaimArray vs) \<Rightarrow> role_strings vs | _ \<Rightarrow> [])"

definition Verify :: "Verifier \<Rightarrow> string \<Rightarrow> Principal io" where
  "Verify v rawToken w =
     (case vf_verify v (wd_step w) rawToken of
        Inl err \<Rightarrow> (Inl (apperr_Wrap KindUnauthorized ''INVALID_TOKEN''
          (Text ''bearer token is missing, invalid or expired'') err), w)
      | Inr (subject, None) \<Rightarrow> (Inl (apperr_Wrap KindUnauthorized ''INVALID_TOKEN_CLAIMS''
          (Text ''token claims cannot be decoded'') (LibError ''oidc: claims'')), w)
      | Inr (subject, Some claims) \<Rightarrow>
          (Inr \<lparr>pr_Subject = subject,
             pr_ProviderID = (case lookupClaim claims (vf_providerClaim v) of
                Some (ClaimString s) \<Rightarrow> s | _ \<Rightarrow> ''''),
             pr_Roles = extractRoles claims (vf_rolesClaim v)\<rparr>, w))"

lemma Verify_same_world: "Verify v t w = (r, w') \<Longrightarrow> w' = w"
  by (auto simp: Verify_def split: sum.splits prod.splits option.splits)

lemma HasRole_iff: "HasRole p role \<longleftrightarrow> role \<in> set (pr_Roles p)"
  by (auto simp: HasRole_def list_ex_iff)

lemma role_strings_iff: "s \<in> set (role_strings vs) \<longleftrightarrow> ClaimString s \<in> set vs"
  by (induction vs rule: role_strings.induct) auto

end
