(* ===== verification/Ledger_Queries.thy ===== *)
theory Ledger_Queries
  imports Quiet "HOL-Library.Product_Lexorder"
begin

section \<open>Reading the ledger (internal/adapters/postgres/ledger_repo.go)\<close>

text \<open>
  The two queries on \<open>wallet_ledger_entries\<close>: a keyset page, newest entry first, and the totals
  of a wallet. An identifier is compared as PostgreSQL compares a UUID, byte by byte from the
  first, which is the order of 128-bit words.
\<close>

record LedgerCursor =
  lc_CreatedAt :: time
  lc_ID :: uuid

record LedgerPage =
  lp_Entries :: "entry list"
  lp_HasMore :: bool

record LedgerTotals =
  lt_Currency :: currency
  lt_StoredBalanceMinor :: int64
  lt_CreditsMinor :: int64
  lt_DebitsMinor :: int64
  lt_Entries :: int64

subsection \<open>The statements\<close>

definition page_key :: "ledger_row \<Rightarrow> time \<times> uuid" where
  "page_key r = (lr_created_at r, lr_id r)"

text \<open>\<open>WHERE wallet_id = $1 [AND (created_at, id) < ($2, $3)]\<close>.\<close>

definition in_page :: "uuid \<Rightarrow> LedgerCursor option \<Rightarrow> ledger_row \<Rightarrow> bool" where
  "in_page i cursor r \<longleftrightarrow> lr_wallet_id r = i \<and>
     (case cursor of None \<Rightarrow> True | Some c \<Rightarrow> page_key r < (lc_CreatedAt c, lc_ID c))"

text \<open>\<open>ORDER BY created_at DESC, id DESC LIMIT\<close>.\<close>

definition newest_first :: "ledger_row list \<Rightarrow> ledger_row list" where
  "newest_first rs = rev (sort_key page_key rs)"

definition sql_ledger_page ::
  "uuid \<Rightarrow> LedgerCursor option \<Rightarrow> nat \<Rightarrow> db \<Rightarrow> (ledger_row list \<times> db) result" where
  "sql_ledger_page i cursor limit d =
     Inr (take limit (newest_first (filter (in_page i cursor) (db_ledger d))), d)"

text \<open>
  The totals: the sums are of type NUMERIC, hence exact; \<open>COUNT(l.id)\<close> counts the joined rows.
\<close>

definition sum_direction :: "string \<Rightarrow> ledger_row list \<Rightarrow> int" where
  "sum_direction dir rs = sum_list (map (\<lambda>r. if lr_direction r = dir then sint (lr_amount_minor r) else 0) rs)"

definition sql_ledger_totals ::
  "uuid \<Rightarrow> db \<Rightarrow> ((string \<times> int64 \<times> int \<times> int \<times> int) option \<times> db) result" where
  "sql_ledger_totals i d =
     Inr (case find (\<lambda>w. wr_id w = i) (db_wallets d) of
        None \<Rightarrow> None
      | Some w \<Rightarrow>
          (let rs = filter (\<lambda>r. lr_wallet_id r = i) (db_ledger d)
           in Some (wr_currency w, wr_balance_minor w, sum_direction ''CREDIT'' rs,
                sum_direction ''DEBIT'' rs, int (length rs))), d)"

subsection \<open>The repository\<close>

fun scan_entries :: "ledger_row list \<Rightarrow> entry list result" where
  "scan_entries [] = Inr []"
| "scan_entries (r # rs) =
     and_then (scanLedgerEntry r) (\<lambda>e. and_then (scan_entries rs) (\<lambda>es. Inr (e # es)))"

definition ledgers_ListByWallet ::
  "lib \<Rightarrow> uuid \<Rightarrow> LedgerCursor option \<Rightarrow> int \<Rightarrow> LedgerPage io" where
  "ledgers_ListByWallet L walletID cursor limit0 =
     (let limit = nat (if limit0 \<le> 0 \<or> 500 < limit0 then 50 else limit0) in
      bindM (on_error (WrapError ''postgres: list ledger'')
        (stmt L (sql_ledger_page walletID cursor (limit + 1)))) (\<lambda>rows.
      bindM (lift (scan_entries rows)) (\<lambda>entries.
      ret (if limit < length entries
           then \<lparr>lp_Entries = take limit entries, lp_HasMore = True\<rparr>
           else \<lparr>lp_Entries = entries, lp_HasMore = False\<rparr>))))"

text \<open>\<open>Scan\<close> of a NUMERIC into an \<open>int64\<close> fails when the value does not fit.\<close>

definition scan_int64 :: "int \<Rightarrow> int64 result" where
  "scan_int64 k = (if in_int64 k then Inr (word_of_int k)
     else Inl (LibError ''cannot scan numeric into *int64''))"

definition scan_totals :: "(string \<times> int64 \<times> int \<times> int \<times> int) \<Rightarrow> (string \<times> LedgerTotals) result" where
  "scan_totals row =
     (case row of (currency, stored, credits, debits, entries) \<Rightarrow>
        and_then (scan_int64 credits) (\<lambda>c.
        and_then (scan_int64 debits) (\<lambda>d.
        and_then (scan_int64 entries) (\<lambda>n.
        Inr (currency, \<lparr>lt_Currency = '''', lt_StoredBalanceMinor = stored, lt_CreditsMinor = c,
          lt_DebitsMinor = d, lt_Entries = n\<rparr>)))))"

definition ledgers_TotalsByWallet :: "lib \<Rightarrow> uuid \<Rightarrow> LedgerTotals io" where
  "ledgers_TotalsByWallet L walletID =
     bindM (on_error (WrapError ''postgres: ledger totals'') (stmt L (sql_ledger_totals walletID)))
       (\<lambda>row. case row of
          None \<Rightarrow> throw wallet_not_found
        | Some r \<Rightarrow>
            bindM (on_error (WrapError ''postgres: ledger totals'') (lift (scan_totals r)))
              (\<lambda>(currency, totals).
            bindM (lift (NewCurrency currency)) (\<lambda>cur.
            ret (totals\<lparr>lt_Currency := cur\<rparr>))))"

subsection \<open>Rows and entries\<close>

lemma ParseDirection_ok:
  "ParseDirection s = Inr d \<longleftrightarrow> d = DirectionDebit \<and> s = ''DEBIT'' \<or> d = DirectionCredit \<and> s = ''CREDIT''"
  by (auto simp: ParseDirection_def split: if_splits)

lemma ledger_Rehydrate_ok_iff:
  "ledger_Rehydrate i w t d a b c now = Inr e \<longleftrightarrow>
     e = \<lparr>e_id = i, e_walletID = w, e_transactionID = t, e_direction = d, e_amount = a,
          e_balanceBefore = b, e_balanceAfter = c, e_createdAt = now\<rparr> \<and> entry_ok e"
  using ledger_New_ok_iff [of i w t d a b c now e] by (simp add: ledger_New_def ledger_Rehydrate_def)

lemma scanLedgerEntry_row:
  assumes "scanLedgerEntry r = Inr e"
  shows "entry_to_row e = r" and "entry_ok e"
  using assms
  by (auto simp: scanLedgerEntry_def and_then_Inr_iff NewCurrency_ok_iff FromMinorUnits_ok_iff
      ParseDirection_ok ledger_Rehydrate_ok_iff entry_to_row_def)

lemma scanLedgerEntry_valid:
  assumes "entry_ok e" and "currencyPattern (m_currency (e_amount e))"
  shows "scanLedgerEntry (entry_to_row e) = Inr e"
proof -
  have "FromMinorUnits (m_amount m) (m_currency (e_amount e)) = Inr m"
    if "m_currency m = m_currency (e_amount e)" for m
    using assms(2) that by (simp add: FromMinorUnits_ok_iff)
  then show ?thesis
    using assms
    by (auto simp: scanLedgerEntry_def and_then_Inr_iff NewCurrency_ok_iff FromMinorUnits_ok_iff
        ParseDirection_ok ledger_Rehydrate_ok_iff entry_to_row_def entry_ok_def compatible_def)
qed

lemma scan_entries_rows: "scan_entries rs = Inr es \<Longrightarrow> map entry_to_row es = rs"
  by (induction rs arbitrary: es) (auto simp: and_then_Inr_iff dest: scanLedgerEntry_row)

lemma scan_entries_map:
  "(\<And>e. e \<in> set es \<Longrightarrow> entry_ok e \<and> currencyPattern (m_currency (e_amount e))) \<Longrightarrow>
     scan_entries (map entry_to_row es) = Inr es"
  by (induction es) (simp_all add: scanLedgerEntry_valid)

subsection \<open>A page of an ordered list\<close>

text \<open>The rows of a wallet have different keys, so newest first is a strict order.\<close>

definition keys_descend :: "ledger_row list \<Rightarrow> bool" where
  "keys_descend rs \<longleftrightarrow> sorted_wrt (\<lambda>a b. page_key b < page_key a) rs"

lemma set_newest_first [simp]: "set (newest_first rs) = set rs"
  by (simp add: newest_first_def)

lemma strictly_sorted:
  "sorted_wrt (\<lambda>a b. page_key a \<le> page_key b) rs \<Longrightarrow> distinct (map lr_id rs) \<Longrightarrow>
   sorted_wrt (\<lambda>a b. page_key a < page_key b) rs"
  by (induction rs) (auto simp: page_key_def order.strict_iff_order)

lemma newest_first_descends:
  assumes "distinct (map lr_id rs)"
  shows "keys_descend (newest_first rs)"
proof -
  have "distinct (map lr_id (sort_key page_key rs))"
    using assms by (metis distinct_map distinct_sort set_sort)
  moreover have "sorted_wrt (\<lambda>a b. page_key a \<le> page_key b) (sort_key page_key rs)"
    using sorted_sort_key [of page_key rs] by (simp add: sorted_map)
  ultimately show ?thesis
    using strictly_sorted by (simp add: keys_descend_def newest_first_def sorted_wrt_rev)
qed

lemma keys_descend_append:
  "keys_descend (as @ bs) \<longleftrightarrow>
     keys_descend as \<and> keys_descend bs \<and> (\<forall>a \<in> set as. \<forall>b \<in> set bs. page_key b < page_key a)"
  by (simp add: keys_descend_def sorted_wrt_append)

lemma keys_descend_last: "keys_descend rs \<Longrightarrow> a \<in> set rs \<Longrightarrow> page_key (last rs) \<le> page_key a"
  by (cases rs rule: rev_cases) (auto simp: keys_descend_append intro: order.strict_implies_order)

text \<open>The cursor a client continues with.\<close>

definition row_cursor :: "ledger_row \<Rightarrow> LedgerCursor" where
  "row_cursor r = \<lparr>lc_CreatedAt = lr_created_at r, lc_ID = lr_id r\<rparr>"

lemma in_page_row_cursor:
  "in_page i (Some (row_cursor q)) r \<longleftrightarrow> lr_wallet_id r = i \<and> page_key r < page_key q"
  by (simp add: in_page_def row_cursor_def page_key_def)

lemma in_page_narrow:
  "in_page i (Some (row_cursor q)) r \<Longrightarrow> in_page i cur q \<Longrightarrow> in_page i cur r \<and> r \<noteq> q"
  by (auto simp: in_page_row_cursor) (auto simp: in_page_def split: option.splits)

text \<open>What a full page leaves out is what follows its last row.\<close>

lemma page_rest:
  assumes "keys_descend rs" and "0 < n" and "n < length rs"
  shows "r \<in> set rs \<longleftrightarrow> r \<in> set (take n rs) \<or> r \<in> set rs \<and> page_key r < page_key (last (take n rs))"
proof -
  have split: "rs = take n rs @ drop n rs" by simp
  have "last (take n rs) \<in> set (take n rs)" using assms(2,3) by (intro last_in_set) auto
  with assms(1) split have "\<forall>r \<in> set (drop n rs). page_key r < page_key (last (take n rs))"
    by (metis keys_descend_append)
  moreover have "set rs = set (take n rs) \<union> set (drop n rs)"
    by (metis split set_append)
  ultimately show ?thesis by blast
qed

subsection \<open>Walking the pages\<close>

lemma ListByWallet_ok:
  assumes run: "ledgers_ListByWallet L i cur limit w = (Inr page, w')" and lim: "1 \<le> limit" "limit \<le> 500"
  defines "rs \<equiv> newest_first (filter (in_page i cur) (db_ledger (wd_db w')))"
  shows "map entry_to_row (lp_Entries page) = take (nat limit) rs"
    and "lp_HasMore page \<longleftrightarrow> nat limit < length rs"
    and "wd_db w' = lib_others L (wd_step w) (wd_db w)"
proof -
  from run lim obtain rows entries where
    st: "stmt L (sql_ledger_page i cur (nat limit + 1)) w = (Inr rows, w')"
    and sc: "scan_entries rows = Inr entries"
    and page: "page = (if nat limit < length entries
       then \<lparr>lp_Entries = take (nat limit) entries, lp_HasMore = True\<rparr>
       else \<lparr>lp_Entries = entries, lp_HasMore = False\<rparr>)"
    by (auto simp: ledgers_ListByWallet_def Let_def io_Inr)
  note seen = stmt_read_ok [OF st, of "\<lambda>d. take (nat limit + 1) (newest_first (filter (in_page i cur) (db_ledger d)))"]
  have rows: "rows = take (nat limit + 1) rs" and w': "wd_db w' = lib_others L (wd_step w) (wd_db w)"
    using seen by (simp_all add: sql_ledger_page_def rs_def)
  note es = scan_entries_rows [OF sc]
  then have len: "length entries = min (nat limit + 1) (length rs)" by (simp add: rows min.commute flip: length_map [of entry_to_row])
  show "map entry_to_row (lp_Entries page) = take (nat limit) rs"
    using es len by (auto simp: page rows take_map [symmetric] min_def split: if_splits)
  show "lp_HasMore page \<longleftrightarrow> nat limit < length rs"
    using len by (simp add: page)
  show "wd_db w' = lib_others L (wd_step w) (wd_db w)" by (rule w')
qed

text \<open>The cursor that the ledger endpoint returns with a page, and a client that follows it.\<close>

definition page_cursor :: "LedgerPage \<Rightarrow> LedgerCursor option" where
  "page_cursor page =
     (if lp_HasMore page \<and> lp_Entries page \<noteq> []
      then (let e = last (lp_Entries page) in Some \<lparr>lc_CreatedAt = e_createdAt e, lc_ID = e_id e\<rparr>)
      else None)"

fun walk_pages ::
  "lib \<Rightarrow> uuid \<Rightarrow> int \<Rightarrow> nat \<Rightarrow> LedgerCursor option \<Rightarrow> (entry list \<times> bool) io" where
  "walk_pages L i limit 0 cur = ret ([], False)"
| "walk_pages L i limit (Suc n) cur =
     bindM (ledgers_ListByWallet L i cur limit) (\<lambda>page. case page_cursor page of
       None \<Rightarrow> ret (lp_Entries page, True)
     | Some c \<Rightarrow> bindM (walk_pages L i limit n (Some c)) (\<lambda>(es, finished).
         ret (lp_Entries page @ es, finished)))"

text \<open>The other connections only append to the ledger, under fresh identifiers.\<close>

definition append_only :: "lib \<Rightarrow> bool" where
  "append_only L \<longleftrightarrow> (\<forall>n d. \<exists>rs. db_ledger (lib_others L n d) = db_ledger d @ rs \<and>
     (distinct (map lr_id (db_ledger d)) \<longrightarrow> distinct (map lr_id (db_ledger d @ rs))))"

lemma page_cursor_row:
  "map entry_to_row (lp_Entries page) = rs \<Longrightarrow>
     page_cursor page = (if lp_HasMore page \<and> rs \<noteq> [] then Some (row_cursor (last rs)) else None)"
  by (auto simp: page_cursor_def row_cursor_def Let_def last_map entry_to_row_def)

lemma walk_pages_sound:
  assumes "append_only L" and "1 \<le> limit" "limit \<le> 500"
  shows "walk_pages L i limit n cur w = (Inr (es, True), w') \<Longrightarrow> distinct (map lr_id (db_ledger (wd_db w))) \<Longrightarrow>
    keys_descend (map entry_to_row es) \<and>
    set (filter (in_page i cur) (db_ledger (wd_db w))) \<subseteq> entry_to_row ` set es \<and>
    entry_to_row ` set es \<subseteq> set (filter (in_page i cur) (db_ledger (wd_db w'))) \<and>
    set (db_ledger (wd_db w)) \<subseteq> set (db_ledger (wd_db w'))"
proof (induction n arbitrary: cur w es)
  case 0
  then show ?case by (simp add: ret_def)
next
  case (Suc n)
  from Suc.prems(1) obtain page w1 where page: "ledgers_ListByWallet L i cur limit w = (Inr page, w1)"
    and rest: "(case page_cursor page of None \<Rightarrow> ret (lp_Entries page, True)
      | Some c \<Rightarrow> bindM (walk_pages L i limit n (Some c)) (\<lambda>(es, finished).
         ret (lp_Entries page @ es, finished))) w1 = (Inr (es, True), w')"
    by (auto simp: bindM_Inr)
  define rs where "rs = newest_first (filter (in_page i cur) (db_ledger (wd_db w1)))"
  note pg = ListByWallet_ok [OF page assms(2,3), folded rs_def]
  obtain more where more: "db_ledger (wd_db w1) = db_ledger (wd_db w) @ more"
    and dist: "distinct (map lr_id (db_ledger (wd_db w1)))"
    using assms(1) Suc.prems(2) unfolding append_only_def pg(3) by metis
  have "distinct (map lr_id (filter (in_page i cur) (db_ledger (wd_db w1))))"
    using dist by (rule distinct_map_filter)
  then have desc: "keys_descend rs" unfolding rs_def by (rule newest_first_descends)
  have old: "set (filter (in_page i cur) (db_ledger (wd_db w))) \<subseteq> set rs"
    by (auto simp: rs_def more)
  have pos: "0 < nat limit" using assms(2) by simp
  show ?case
  proof (cases "nat limit < length rs")
    case False
    then have "page_cursor page = None" using pg(2) by (simp add: page_cursor_def)
    with rest have es: "es = lp_Entries page" and w': "w' = w1" by (simp_all add: ret_def)
    have m: "map entry_to_row es = rs" using pg(1) False by (simp add: es)
    then have "entry_to_row ` set es = set rs" by (metis set_map)
    then show ?thesis unfolding m w' using desc old by (auto simp: rs_def more)
  next
    case True
    let ?q = "last (take (nat limit) rs)"
    have "take (nat limit) rs \<noteq> []" using True pos by auto
    with True have cur: "page_cursor page = Some (row_cursor ?q)"
      using pg(2) by (simp add: page_cursor_row [OF pg(1)])
    with rest obtain es' where walk: "walk_pages L i limit n (Some (row_cursor ?q)) w1 = (Inr (es', True), w')"
      and es: "es = lp_Entries page @ es'"
      by (auto simp: bindM_Inr ret_def)
    note IH = Suc.IH [OF walk dist]
    have rows: "map entry_to_row es = take (nat limit) rs @ map entry_to_row es'"
      by (simp add: es pg(1))
    have keys: "page_key r < page_key ?q" if "r \<in> entry_to_row ` set es'" for r
      using IH that by (auto simp: in_page_row_cursor)
    have "keys_descend (take (nat limit) rs @ drop (nat limit) rs)" using desc by simp
    then have desc1: "keys_descend (take (nat limit) rs)" by (simp only: keys_descend_append)
    note least = keys_descend_last [OF desc1]
    have "?q \<in> set rs" using \<open>take (nat limit) rs \<noteq> []\<close> by (meson in_set_takeD last_in_set)
    then have q: "in_page i cur ?q" by (simp add: rs_def)
    have "keys_descend (map entry_to_row es)"
      unfolding rows keys_descend_append
      using desc1 IH keys least by (auto intro: order.strict_trans2)
    moreover have "set (filter (in_page i cur) (db_ledger (wd_db w))) \<subseteq> entry_to_row ` set es"
    proof
      fix r assume "r \<in> set (filter (in_page i cur) (db_ledger (wd_db w)))"
      then have r: "r \<in> set rs" using old by blast
      then have "lr_wallet_id r = i" by (simp add: rs_def in_page_def)
      with r have "r \<in> set (take (nat limit) rs) \<or> in_page i (Some (row_cursor ?q)) r"
        using page_rest [OF desc pos True, of r] by (simp add: in_page_row_cursor)
      moreover have "r \<in> set (db_ledger (wd_db w1))" using r by (auto simp: rs_def)
      ultimately have "r \<in> set (map entry_to_row es)" using IH unfolding rows by auto
      then show "r \<in> entry_to_row ` set es" by simp
    qed
    moreover have "entry_to_row ` set es \<subseteq> set (filter (in_page i cur) (db_ledger (wd_db w')))"
    proof
      fix r assume "r \<in> entry_to_row ` set es"
      then have "r \<in> set (map entry_to_row es)" by simp
      then consider "r \<in> set rs" | "r \<in> entry_to_row ` set es'"
        unfolding rows by (auto dest: in_set_takeD)
      then show "r \<in> set (filter (in_page i cur) (db_ledger (wd_db w')))"
      proof cases
        case 1
        then show ?thesis using IH by (auto simp: rs_def)
      next
        case 2
        then have "r \<in> set (db_ledger (wd_db w'))" "in_page i (Some (row_cursor ?q)) r"
          using IH by auto
        with in_page_narrow [OF _ q] show ?thesis by simp
      qed
    qed
    moreover have "set (db_ledger (wd_db w)) \<subseteq> set (db_ledger (wd_db w'))"
      using IH more by auto
    ultimately show ?thesis by blast
  qed
qed

subsection \<open>The walk ends\<close>

lemma descending_unique:
  "keys_descend as \<Longrightarrow> keys_descend bs \<Longrightarrow> set as = set bs \<Longrightarrow> as = bs"
proof (induction as arbitrary: bs)
  case Nil
  then show ?case by simp
next
  case (Cons a as)
  then obtain b bs' where bs: "bs = b # bs'" by (cases bs) auto
  have a: "keys_descend as" "\<forall>x \<in> set as. page_key x < page_key a"
    and b: "keys_descend bs'" "\<forall>x \<in> set bs'. page_key x < page_key b"
    using Cons.prems(1,2) by (simp_all add: bs keys_descend_def)
  have "b \<in> set (a # as)" "a \<in> set (b # bs')"
    using Cons.prems(3) by (metis bs list.set_intros(1))+
  with a(2) b(2) have ab: "a = b" by (auto dest: order.strict_trans)
  have "a \<notin> set as" "b \<notin> set bs'" using a(2) b(2) by auto
  with Cons.prems(3) have "set as = set bs'" by (auto simp: bs ab)
  with Cons.IH [OF a(1) b(1)] ab show ?case by (simp add: bs)
qed

lemma quiet_append_only: "quiet L \<Longrightarrow> append_only L"
  by (simp add: append_only_def quiet_def)

lemma ListByWallet_quiet:
  assumes "quiet L" and "\<not> wd_aborted w"
    and rows: "\<And>r. r \<in> set (filter (in_page i cur) (db_ledger (wd_db w))) \<Longrightarrow> isOk (scanLedgerEntry r)"
  obtains page w' where "ledgers_ListByWallet L i cur limit w = (Inr page, w')"
    and "wd_db w' = wd_db w" and "\<not> wd_aborted w'"
proof -
  define l where "l = nat (if limit \<le> 0 \<or> 500 < limit then 50 else limit)"
  define rs where "rs = take (l + 1) (newest_first (filter (in_page i cur) (db_ledger (wd_db w))))"
  have "\<forall>r \<in> set rs. isOk (scanLedgerEntry r)"
    using rows by (auto simp: rs_def dest!: in_set_takeD)
  then have "\<exists>es. scan_entries rs = Inr es"
    by (induction rs) (auto simp: isOk_iff and_then_Inr_iff)
  then obtain es where es: "scan_entries rs = Inr es" by blast
  have "stmt L (sql_ledger_page i cur (l + 1)) w = (Inr rs, (tick L w)\<lparr>wd_db := wd_db w\<rparr>)"
    using assms by (simp add: quiet_stmt sql_ledger_page_def rs_def)
  then have "ledgers_ListByWallet L i cur limit w =
      (Inr (if l < length es then \<lparr>lp_Entries = take l es, lp_HasMore = True\<rparr>
         else \<lparr>lp_Entries = es, lp_HasMore = False\<rparr>), (tick L w)\<lparr>wd_db := wd_db w\<rparr>)"
    by (simp add: ledgers_ListByWallet_def Let_def flip: l_def)
      (simp add: bindM_def on_error_def lift_def es ret_def)
  then show thesis using that assms(2) by fastforce
qed

lemma walk_pages_finishes:
  assumes "quiet L" and "1 \<le> limit" "limit \<le> 500"
    and "\<And>r. r \<in> set (filter (in_page i None) d) \<Longrightarrow> isOk (scanLedgerEntry r)"
    and dist: "distinct (map lr_id d)"
  shows "db_ledger (wd_db w) = d \<Longrightarrow> \<not> wd_aborted w \<Longrightarrow> length (filter (in_page i cur) d) < n \<Longrightarrow>
    \<exists>es w'. walk_pages L i limit n cur w = (Inr (es, True), w') \<and> wd_db w' = wd_db w"
proof (induction n arbitrary: cur w)
  case (Suc n)
  have ok: "isOk (scanLedgerEntry r)" if "r \<in> set (filter (in_page i cur) (db_ledger (wd_db w)))" for r
    using assms(4) [of r] that Suc.prems(1) by (simp add: in_page_def split: option.splits)
  obtain page w1 where page: "ledgers_ListByWallet L i cur limit w = (Inr page, w1)"
    and w1: "wd_db w1 = wd_db w" "\<not> wd_aborted w1"
    by (rule ListByWallet_quiet [OF assms(1) Suc.prems(2) ok])
  define rs where "rs = newest_first (filter (in_page i cur) d)"
  note pg = ListByWallet_ok [OF page assms(2,3)]
  have m: "map entry_to_row (lp_Entries page) = take (nat limit) rs"
    and more: "lp_HasMore page \<longleftrightarrow> nat limit < length rs"
    using pg(1,2) w1 Suc.prems(1) by (simp_all add: rs_def)
  show ?case
  proof (cases "page_cursor page")
    case None
    then show ?thesis using page w1 by (simp add: bindM_def ret_def)
  next
    case (Some c)
    then have lt: "nat limit < length rs" and c: "c = row_cursor (last (take (nat limit) rs))"
      using m more by (auto simp: page_cursor_row [OF m] split: if_splits)
    have desc: "keys_descend rs"
      unfolding rs_def using dist by (intro newest_first_descends distinct_map_filter)
    let ?q = "last (take (nat limit) rs)"
    have "take (nat limit) rs \<noteq> []" using lt assms(2) by auto
    then have q: "?q \<in> set rs" by (meson in_set_takeD last_in_set)
    have "set (filter (in_page i (Some c)) d) \<subseteq> set (filter (in_page i cur) d) - {?q}"
      using q in_page_narrow by (auto simp: c rs_def)
    moreover have "distinct d" using dist by (simp add: distinct_map)
    moreover have "?q \<in> set (filter (in_page i cur) d)" using q by (simp add: rs_def)
    ultimately have "length (filter (in_page i (Some c)) d) < length (filter (in_page i cur) d)"
      by (metis card_Diff1_less card_mono distinct_card distinct_filter finite_Diff finite_set
          order.strict_trans1)
    with Suc.IH [of w1 "Some c"] w1 Suc.prems obtain es w' where
      "walk_pages L i limit n (Some c) w1 = (Inr (es, True), w')" "wd_db w' = wd_db w" by auto
    then show ?thesis using page Some by (simp add: bindM_def ret_def)
  qed
qed simp

subsection \<open>A sample ledger\<close>

definition sample_page_rows :: "ledger_row list" where
  "sample_page_rows =
     [opening_row,
      opening_row\<lparr>lr_id := 61, lr_transaction_id := 60, lr_direction := ''DEBIT'', lr_amount_minor := 4000,
        lr_balance_before_minor := 10000, lr_balance_after_minor := 6000, lr_created_at := 8\<rparr>,
      opening_row\<lparr>lr_id := 71, lr_transaction_id := 70, lr_amount_minor := 500,
        lr_balance_before_minor := 6000, lr_balance_after_minor := 6500, lr_created_at := 8\<rparr>]"

definition sample_page_world :: world where
  "sample_page_world = sample_world\<lparr>wd_db := sample_db\<lparr>db_ledger := sample_page_rows\<rparr>\<rparr>"

text \<open>Another connection appends a row while the client is between two pages.\<close>

definition late_row :: ledger_row where
  "late_row = opening_row\<lparr>lr_id := 81, lr_transaction_id := 80, lr_amount_minor := 500,
     lr_balance_before_minor := 6500, lr_balance_after_minor := 7000, lr_created_at := 7\<rparr>"

definition appending_lib :: lib where
  "appending_lib = sample_lib\<lparr>lib_others := (\<lambda>n d.
     if n = 1 \<and> late_row \<notin> set (db_ledger d) \<and> 81 \<notin> lr_id ` set (db_ledger d)
     then d\<lparr>db_ledger := db_ledger d @ [late_row]\<rparr> else d)\<rparr>"

lemma append_only_appending_lib: "append_only appending_lib"
proof -
  have "lr_id late_row = 81" by (simp add: late_row_def)
  then show ?thesis by (auto simp: append_only_def appending_lib_def)
qed

lemma sample_page_world:
  "distinct (map lr_id (db_ledger (wd_db sample_page_world)))" "\<not> wd_aborted sample_page_world"
  by (simp_all add: sample_page_world_def sample_world_def sample_page_rows_def opening_row_def)

lemma appending_walk:
  "(case walk_pages appending_lib 1 1 5 None sample_page_world of
      (Inr (es, finished), w) \<Rightarrow> finished \<and> map e_id es = [71, 61, 81, 51] | _ \<Rightarrow> False)"
  by code_simp

lemma sample_rows_scan:
  "\<forall>r \<in> set (filter (in_page 1 None) sample_page_rows). isOk (scanLedgerEntry r)"
  by code_simp

subsection \<open>Properties\<close>

text \<open>
  (C19) Reading the ledger page by page misses nothing and repeats nothing, even while other
  connections append entries between the pages: if the client follows the cursors to the last
  page, the entries it got are strictly ordered from newest to oldest, every entry the wallet
  had when it started is among them, and each of them is an entry of that wallet.
\<close>

theorem ledger_pages_complete:
  assumes "append_only L" and "1 \<le> limit" "limit \<le> 500"
    and "distinct (map lr_id (db_ledger (wd_db w)))"
    and "walk_pages L i limit n None w = (Inr (es, True), w')"
  shows "sorted_wrt (\<lambda>a b. (e_createdAt b, e_id b) < (e_createdAt a, e_id a)) es \<and>
    (\<forall>r \<in> set (db_ledger (wd_db w)). lr_wallet_id r = i \<longrightarrow> (\<exists>e \<in> set es. entry_to_row e = r)) \<and>
    (\<forall>e \<in> set es. e_walletID e = i \<and> entry_to_row e \<in> set (db_ledger (wd_db w')))"
proof -
  note sound = walk_pages_sound [OF assms(1-3,5,4)]
  have "page_key (entry_to_row e) = (e_createdAt e, e_id e)" for e
    by (simp add: page_key_def entry_to_row_def)
  moreover have "lr_wallet_id (entry_to_row e) = e_walletID e" for e by (simp add: entry_to_row_def)
  ultimately show ?thesis using sound by (auto simp: keys_descend_def sorted_wrt_map in_page_def)
qed

theorem ledger_pages_complete_witness:
  "\<exists>es w'. walk_pages appending_lib 1 1 5 None sample_page_world = (Inr (es, True), w') \<and>
     (\<forall>r \<in> set sample_page_rows. \<exists>e \<in> set es. entry_to_row e = r)"
proof -
  obtain es w' where run: "walk_pages appending_lib 1 1 5 None sample_page_world = (Inr (es, True), w')"
    using appending_walk by (auto split: prod.splits sum.splits)
  have "db_ledger (wd_db sample_page_world) = sample_page_rows"
    "\<forall>r \<in> set sample_page_rows. lr_wallet_id r = 1"
    by (simp_all add: sample_page_world_def sample_world_def sample_page_rows_def opening_row_def)
  with ledger_pages_complete [OF append_only_appending_lib _ _ sample_page_world(1) run] run
  show ?thesis by auto
qed

text \<open>
  (C20) The walk ends: without faults and other writers, a client that follows the cursors with
  any limit the endpoint allows receives, after at most one page per entry, exactly the
  entries of the wallet, newest first.
\<close>

theorem ledger_walk_ends:
  assumes "quiet L" and "1 \<le> limit" "limit \<le> 200" and "\<not> wd_aborted w"
    and "distinct (map lr_id (db_ledger (wd_db w)))"
    and "\<forall>r \<in> set (db_ledger (wd_db w)). lr_wallet_id r = i \<longrightarrow> isOk (scanLedgerEntry r)"
    and "length (filter (\<lambda>r. lr_wallet_id r = i) (db_ledger (wd_db w))) < n"
  shows "\<exists>es w'. walk_pages L i limit n None w = (Inr (es, True), w') \<and> wd_db w' = wd_db w \<and>
    map entry_to_row es = rev (sort_key (\<lambda>r. (lr_created_at r, lr_id r))
      (filter (\<lambda>r. lr_wallet_id r = i) (db_ledger (wd_db w))))"
proof -
  have page: "in_page i None = (\<lambda>r. lr_wallet_id r = i)" by (simp add: in_page_def fun_eq_iff)
  have lim: "limit \<le> 500" using assms(3) by simp
  obtain es w' where run: "walk_pages L i limit n None w = (Inr (es, True), w')" and w': "wd_db w' = wd_db w"
    using walk_pages_finishes [OF assms(1,2) lim _ assms(5) refl assms(4), of i None n] assms(6,7)
    by (auto simp: page)
  note sound = walk_pages_sound [OF quiet_append_only [OF assms(1)] assms(2) lim run assms(5)]
  let ?rows = "filter (\<lambda>r. lr_wallet_id r = i) (db_ledger (wd_db w))"
  have "set (map entry_to_row es) = set (newest_first ?rows)" using sound by (auto simp: page w')
  then have "map entry_to_row es = newest_first ?rows"
    using sound assms(5) by (intro descending_unique newest_first_descends distinct_map_filter) auto
  moreover have "page_key = (\<lambda>r. (lr_created_at r, lr_id r))" by (simp add: page_key_def fun_eq_iff)
  ultimately show ?thesis using run w' by (auto simp: newest_first_def)
qed

theorem ledger_walk_ends_witness:
  "\<exists>es w'. walk_pages sample_lib 1 2 4 None sample_page_world = (Inr (es, True), w') \<and>
     wd_db w' = wd_db sample_page_world"
proof -
  have rows: "db_ledger (wd_db sample_page_world) = sample_page_rows"
    by (simp add: sample_page_world_def sample_world_def)
  have scans: "\<forall>r \<in> set sample_page_rows. lr_wallet_id r = 1 \<longrightarrow> isOk (scanLedgerEntry r)"
    using sample_rows_scan by (auto simp: in_page_def)
  have "length (filter (\<lambda>r. lr_wallet_id r = 1) sample_page_rows) < 4"
    by (simp add: sample_page_rows_def opening_row_def)
  with ledger_walk_ends [OF quiet_sample_lib _ _ sample_page_world(2,1), of 2 1 4] scans
  show ?thesis by (auto simp: rows)
qed

end
