(* ===== verification/Wallet_Service.thy ===== *)
theory Wallet_Service
  imports Ledger_Queries
begin

section \<open>Wallets: opening, reading, reconciliation (internal/app/wallets/service.go)\<close>

text \<open>
  The use cases of the wallet service. \<open>Open\<close> writes the wallet and, for a positive initial
  balance, its OPENING transaction, its ledger credit and two events in one transaction;
  \<open>Reconcile\<close> compares the stored balance with the ledger.
\<close>

definition ErrWalletExists :: goerror where
  "ErrWalletExists = apperr_New KindConflict ''WALLET_ALREADY_EXISTS''
     (Text ''a wallet already exists for this player and currency'')"

record OpenCommand =
  oc_PlayerID :: uuid
  oc_InitialBalance :: money
  oc_CorrelationID :: string

definition insertEvent :: "lib \<Rightarrow> string \<Rightarrow> uuid \<Rightarrow> string \<Rightarrow> time \<Rightarrow> Envelope \<Rightarrow> unit io" where
  "insertEvent L eventID aggregateID eventType occurredAt envelope =
     bindM (lift (Envelope_Marshal envelope)) (\<lambda>payload.
     bindM (on_error (WrapError ''wallets: invalid event id'') (lift (lib_uuid_Parse L eventID)))
       (\<lambda>parsedID.
     outbox_Insert L \<lparr>oe_EventID = parsedID, oe_AggregateID = aggregateID, oe_EventType = eventType,
       oe_Payload = payload, oe_OccurredAt = occurredAt, oe_Attempts = 0,
       oe_NextAttemptAt = occurredAt\<rparr>))"

text \<open>The two events of an opening with a positive balance.\<close>

definition announce_opening ::
  "lib \<Rightarrow> OpenCommand \<Rightarrow> wallet \<Rightarrow> transaction \<Rightarrow> money \<Rightarrow> string \<Rightarrow> time \<Rightarrow> unit io" where
  "announce_opening L cmd w opening zero correlationID now =
     bindM (uuid_NewV7 L) (\<lambda>newID.
     bindM (lift (NewWalletBalanceChanged (lib_uuid_String L) newID (w_id w) correlationID
         (lib_uuid_String L (t_id opening)) now
         \<lparr>bd_WalletID = lib_uuid_String L (w_id w),
          bd_TransactionID = lib_uuid_String L (t_id opening), bd_Direction = DirectionCredit,
          bd_Money = oc_InitialBalance cmd, bd_BalanceBefore = zero,
          bd_BalanceAfter = oc_InitialBalance cmd, bd_WalletVersion = w_version w\<rparr>))
       (\<lambda>balanceEnvelope.
     bindM (insertEvent L (EventID balanceEnvelope) (w_id w) (EventType balanceEnvelope)
         (OccurredAt balanceEnvelope) balanceEnvelope) (\<lambda>_.
     bindM (uuid_NewV7 L) (\<lambda>newID.
     bindM (lift (NewWagerTransactionProcessed (lib_uuid_String L) newID (t_id opening) correlationID
         (lib_uuid_String L (t_id opening)) now
         \<lparr>pd_TransactionID = lib_uuid_String L (t_id opening), pd_ProviderID = '''',
          pd_ExternalTransactionID = '''', pd_WalletID = lib_uuid_String L (w_id w),
          pd_PlayerID = lib_uuid_String L (w_playerID w), pd_RoundID = '''', pd_GameID = '''',
          pd_Kind = kind_string KindOpening, pd_Status = status_string StatusProcessed,
          pd_Money = oc_InitialBalance cmd, pd_Balance = oc_InitialBalance cmd\<rparr>))
       (\<lambda>processedEnvelope.
     insertEvent L (EventID processedEnvelope) (t_id opening) (EventType processedEnvelope)
       (OccurredAt processedEnvelope) processedEnvelope)))))"

text \<open>The opening credit: its transaction and its ledger entry.\<close>

definition credit_opening :: "lib \<Rightarrow> OpenCommand \<Rightarrow> wallet \<Rightarrow> time \<Rightarrow> wallet io" where
  "credit_opening L cmd w now =
     (let correlationID =
        (if oc_CorrelationID cmd = '''' then lib_uuid_String L (w_id w) else oc_CorrelationID cmd) in
     bindM (uuid_NewV7 L) (\<lambda>openingID.
     bindM (lift (NewOpening openingID
         \<lparr>op_WalletID = w_id w, op_PlayerID = w_playerID w, op_Money = oc_InitialBalance cmd\<rparr> now))
       (\<lambda>opening.
     bindM (transactions_Insert L opening) (\<lambda>_.
     bindM (lift (money_Zero (w_currency w))) (\<lambda>zero.
     bindM (uuid_NewV7 L) (\<lambda>entryID.
     bindM (lift (ledger_New entryID (w_id w) (t_id opening) DirectionCredit (oc_InitialBalance cmd)
         zero (oc_InitialBalance cmd) now)) (\<lambda>entry.
     bindM (ledgers_Insert L entry) (\<lambda>_.
     bindM (announce_opening L cmd w opening zero correlationID now) (\<lambda>_.
     ret w)))))))))"

text \<open>The body of the transaction; its value is the wallet the closure assigns to \<open>opened\<close>.\<close>

definition open_wallet :: "lib \<Rightarrow> OpenCommand \<Rightarrow> wallet io" where
  "open_wallet L cmd =
     bindM (read_clock L) (\<lambda>now.
     bindM (attempt (wallets_GetByPlayerAndCurrency L (oc_PlayerID cmd)
              (m_currency (oc_InitialBalance cmd)))) (\<lambda>r. case r of
       Inr existing \<Rightarrow> throw ErrWalletExists
     | Inl err \<Rightarrow>
         if KindOf err \<noteq> KindNotFound then throw err
         else
           bindM (uuid_NewV7 L) (\<lambda>newID.
           bindM (lift (wallet_Open newID (oc_PlayerID cmd) (oc_InitialBalance cmd) now)) (\<lambda>w.
           bindM (wallets_Create L w) (\<lambda>_.
           if \<not> money_IsPositive (oc_InitialBalance cmd) then ret w
           else credit_opening L cmd w now)))))"

definition Open_Validate :: "OpenCommand \<Rightarrow> unit result" where
  "Open_Validate cmd =
     (if oc_PlayerID cmd = uuid_Nil
      then Inl (apperr_New KindInvalid ''INVALID_WALLET'' (Text ''playerId is required''))
      else if \<not> money_IsValid (oc_InitialBalance cmd)
      then Inl (apperr_New KindInvalid money_CodeInvalidAmount (Text ''initialBalance is required''))
      else if money_IsNegative (oc_InitialBalance cmd)
      then Inl (apperr_New KindInvalid money_CodeNegativeAmount
             (Text ''initialBalance must not be negative''))
      else Inr ())"

definition wallets_Open :: "lib \<Rightarrow> OpenCommand \<Rightarrow> wallet io" where
  "wallets_Open L cmd =
     bindM (lift (Open_Validate cmd)) (\<lambda>_.
     bindM (WithinTransaction L (open_wallet L cmd)) (\<lambda>opened.
     bindM (record_metric (RecordWagerTransaction (status_string StatusProcessed)
         (kind_string KindOpening) '''')) (\<lambda>_.
     ret opened)))"

definition wallets_Get :: "lib \<Rightarrow> uuid \<Rightarrow> wallet io" where
  "wallets_Get L walletID = wallets_GetByID L walletID"

definition wallets_Ledger :: "lib \<Rightarrow> uuid \<Rightarrow> LedgerCursor option \<Rightarrow> int \<Rightarrow> LedgerPage io" where
  "wallets_Ledger L walletID cursor limit =
     bindM (wallets_GetByID L walletID) (\<lambda>_.
     let limit1 = (if limit \<le> 0 then 50 else limit);
         limit2 = (if 200 < limit1 then 200 else limit1)
     in ledgers_ListByWallet L walletID cursor limit2)"

record Reconciliation =
  rc_WalletID :: uuid
  rc_StoredBalance :: money
  rc_CalculatedBalance :: money
  rc_Difference :: money
  rc_Consistent :: bool
  rc_CheckedEntries :: int64

text \<open>The comparison of the totals.\<close>

definition compare_totals :: "uuid \<Rightarrow> LedgerTotals \<Rightarrow> Reconciliation result" where
  "compare_totals walletID totals =
     and_then (FromMinorUnits (lt_StoredBalanceMinor totals) (lt_Currency totals)) (\<lambda>stored.
     and_then (FromMinorUnits (lt_CreditsMinor totals) (lt_Currency totals)) (\<lambda>credits.
     and_then (FromMinorUnits (lt_DebitsMinor totals) (lt_Currency totals)) (\<lambda>debits.
     and_then (money_Sub credits debits) (\<lambda>calculated.
     and_then (money_Sub stored calculated) (\<lambda>difference.
     Inr \<lparr>rc_WalletID = walletID, rc_StoredBalance = stored, rc_CalculatedBalance = calculated,
       rc_Difference = difference, rc_Consistent = money_IsZero difference,
       rc_CheckedEntries = lt_Entries totals\<rparr>)))))"

definition wallets_Reconcile :: "lib \<Rightarrow> uuid \<Rightarrow> Reconciliation io" where
  "wallets_Reconcile L walletID =
     bindM (ledgers_TotalsByWallet L walletID) (\<lambda>totals.
     bindM (lift (compare_totals walletID totals)) (\<lambda>result.
     bindM (record_metric (RecordReconciliationRun (rc_Consistent result))) (\<lambda>_.
     ret result)))"

subsection \<open>Opening keeps balances and ledger together\<close>

lemma framed_open_wallet [framed_rules]: "framed L (open_wallet L cmd)"
  unfolding open_wallet_def credit_opening_def announce_opening_def insertEvent_def
  by (intro framed_rules)

lemma keeps_insertEvent [keeps_rules]: "keeps L (insertEvent L e a t o' env)"
  unfolding insertEvent_def by (intro keeps_rules)

lemma keeps_announce_opening [keeps_rules]: "keeps L (announce_opening L cmd w t z c now)"
  unfolding announce_opening_def by (intro keeps_rules)

lemma find_append:
  "find P (xs @ ys) = (case find P xs of None \<Rightarrow> find P ys | Some x \<Rightarrow> Some x)"
  by (induction xs) auto

lemma sql_insert_wallet_dest:
  assumes "ledger_balanced d" and "1 \<le> sint (wr_version r)" and "sql_insert_wallet r d = Inr (u, d')"
  shows "off_by (wr_id r) (sint (wr_balance_minor r)) d'"
proof -
  have d': "d' = d\<lparr>db_wallets := db_wallets d @ [r]\<rparr>" and fresh: "wr_id r \<notin> wr_id ` set (db_wallets d)"
    using assms(3)
    by (auto simp: sql_insert_wallet_def violation_def wallet_uniques_def split: option.splits if_splits)
  have none: "wallet_at d (wr_id r) = None" using fresh unfolding wallet_at_def find_None_iff by (metis imageI)
  have at: "wallet_at d' j = (if j = wr_id r then Some r else wallet_at d j)" for j
    using none by (auto simp: d' wallet_at_def find_append split: option.split)
  from none have "wallet_balance d' = (wallet_balance d)(wr_id r := wallet_balance d (wr_id r) + sint (wr_balance_minor r))"
    by (auto simp: wallet_balance_def at fun_eq_iff)
  moreover have "ledger_total d' = ledger_total d" by (simp add: d' ledger_total_def fun_eq_iff)
  moreover have "wallets_ok d'" using assms(1,2) fresh by (auto simp: d' ledger_balanced_def wallets_ok_def)
  ultimately show ?thesis
    using assms(1) by (auto simp: off_by_def gap_def ledger_balanced_def fun_eq_iff)
qed

lemma triple_Create:
  assumes rely: "rely L" and v: "1 \<le> sint (w_version w)"
  shows "triple n ledger_balanced (wallets_Create L w)
    (\<lambda>_. off_by (w_id w) (sint (m_amount (w_balance w)))) anything"
  unfolding wallets_Create_def
proof (intro triple_on_error triple_stmt stable_balanced rely)
  fix d u d' assume "ledger_balanced d" and "sql_insert_wallet (wallet_to_row w) d = Inr (u, d')"
  from sql_insert_wallet_dest [OF this(1) _ this(2)] v
  show "off_by (w_id w) (sint (m_amount (w_balance w))) d'" by (simp add: wallet_to_row_def)
qed simp

lemma triple_credit_opening:
  assumes rely: "rely L" and bal: "w_balance w = oc_InitialBalance cmd"
  shows "triple n (off_by (w_id w) (sint (m_amount (w_balance w)))) (credit_opening L cmd w now)
    (\<lambda>_. ledger_balanced) anything"
proof -
  let ?k = "sint (m_amount (w_balance w))"
  have k: "triple n (off_by (w_id w) ?k) m (\<lambda>_. off_by (w_id w) ?k) anything" if "keeps L m" for m :: "'x io"
    by (rule triple_conseq [OF keeps_off_by [OF that rely]]) auto
  have entry: "triple n (off_by (w_id w) ?k)
      (bindM (lift (ledger_New i (w_id w) j DirectionCredit (oc_InitialBalance cmd) z
          (oc_InitialBalance cmd) now)) (\<lambda>entry. bindM (ledgers_Insert L entry) (\<lambda>_.
        bindM (announce_opening L cmd w t z c now) (\<lambda>_. ret w))))
      (\<lambda>_. ledger_balanced) anything" (is "triple n _ (bindM (lift ?new) _) _ _") for i j z t c
  proof (rule triple_bind_fact [OF k [OF keeps_lift], where F = "\<lambda>e. ?new = Inr e"])
    fix e assume "?new = Inr e"
    then have "entry_ok e" "e_walletID e = w_id w" "entry_effect e = ?k"
      by (auto simp: ledger_New_ok_iff entry_effect_def signed_amount_def bal)
    from triple_ledgers_Insert [OF rely this]
    show "triple n (off_by (w_id w) ?k) (bindM (ledgers_Insert L e) (\<lambda>_.
        bindM (announce_opening L cmd w t z c now) (\<lambda>_. ret w))) (\<lambda>_. ledger_balanced) anything"
      by (rule triple_bind) (intro keeps_to_anything [OF _ rely] keeps_rules)
  qed (simp add: lift_def)
  show ?thesis
    unfolding credit_opening_def Let_def
    by (intro triple_bind [OF k] entry keeps_rules)
qed

lemma triple_open_wallet:
  assumes rely: "rely L"
  shows "triple n ledger_balanced (open_wallet L cmd) (\<lambda>_. ledger_balanced) anything"
proof -
  note k = keeps_to_anything [OF _ rely]
  have create: "triple n ledger_balanced (bindM (lift (wallet_Open i (oc_PlayerID cmd) (oc_InitialBalance cmd) now))
      (\<lambda>w. bindM (wallets_Create L w) (\<lambda>_. if \<not> money_IsPositive (oc_InitialBalance cmd) then ret w
        else credit_opening L cmd w now))) (\<lambda>_. ledger_balanced) anything" (is "triple n _ (bindM (lift ?open) _) _ _")
    for i now
  proof (rule triple_bind_fact [OF k [OF keeps_lift], where F = "\<lambda>w. ?open = Inr w"])
    fix w assume "?open = Inr w"
    then have w: "w_balance w = oc_InitialBalance cmd" "1 \<le> sint (w_version w)"
        "0 \<le> sint (m_amount (w_balance w))"
      by (auto simp: wallet_Open_ok_iff)
    show "triple n ledger_balanced (bindM (wallets_Create L w) (\<lambda>_.
        if \<not> money_IsPositive (oc_InitialBalance cmd) then ret w else credit_opening L cmd w now))
        (\<lambda>_. ledger_balanced) anything"
    proof (rule triple_bind [OF triple_Create [OF rely w(2)]])
      have "money_IsPositive (oc_InitialBalance cmd) \<or> sint (m_amount (w_balance w)) = 0"
        using w by (auto simp: money_IsPositive_def)
      then show "triple n (off_by (w_id w) (sint (m_amount (w_balance w))))
          (if \<not> money_IsPositive (oc_InitialBalance cmd) then ret w else credit_opening L cmd w now)
          (\<lambda>_. ledger_balanced) anything"
        using triple_credit_opening [OF rely w(1)]
        by (auto intro: triple_ret simp: ledger_balanced_off_by [of _ "w_id w"])
    qed
  qed (simp add: lift_def)
  have body: "triple n ledger_balanced (case r of Inr existing \<Rightarrow> throw ErrWalletExists
      | Inl err \<Rightarrow> if KindOf err \<noteq> KindNotFound then throw err
          else bindM (uuid_NewV7 L) (\<lambda>i. bindM (lift (wallet_Open i (oc_PlayerID cmd) (oc_InitialBalance cmd) now))
            (\<lambda>w. bindM (wallets_Create L w) (\<lambda>_. if \<not> money_IsPositive (oc_InitialBalance cmd) then ret w
              else credit_opening L cmd w now))))
      (\<lambda>_. ledger_balanced) anything" for r :: "wallet result" and now
    by (cases r) (auto intro: k [OF keeps_throw] triple_bind [OF k [OF keeps_NewV7] create])
  show ?thesis
    unfolding open_wallet_def
    by (rule triple_bind [OF k [OF keeps_clock]], rule triple_bind [OF k [OF keeps_attempt]],
        rule keeps_repos, rule body)
qed

subsection \<open>Reconciliation\<close>

lemma ledger_total_directions:
  "ledger_total d i =
     sum_direction ''CREDIT'' (filter (\<lambda>r. lr_wallet_id r = i) (db_ledger d)) -
     sum_direction ''DEBIT'' (filter (\<lambda>r. lr_wallet_id r = i) (db_ledger d))"
proof -
  have "sum_list (map ledger_row_effect rs) = sum_direction ''CREDIT'' rs - sum_direction ''DEBIT'' rs" for rs
    by (induction rs) (auto simp: sum_direction_def ledger_row_effect_def)
  then show ?thesis by (simp add: ledger_total_def)
qed

lemma scan_totals_ok_iff:
  "scan_totals (c, b, cr, db, n) = Inr (c', t) \<longleftrightarrow>
     in_int64 cr \<and> in_int64 db \<and> in_int64 n \<and> c' = c \<and>
     t = \<lparr>lt_Currency = '''', lt_StoredBalanceMinor = b, lt_CreditsMinor = word_of_int cr,
          lt_DebitsMinor = word_of_int db, lt_Entries = word_of_int n\<rparr>"
  by (auto simp: scan_totals_def scan_int64_def and_then_Inr_iff)

text \<open>The totals a query found, as the invariant speaks of them.\<close>

lemma sql_ledger_totals_found:
  assumes "sql_ledger_totals i d = Inr (Some (c, b, cr, db, n), d')"
  shows "wallet_balance d i = sint b" and "cr - db = ledger_total d i" and "d' = d"
    and "n = int (length (filter (\<lambda>r. lr_wallet_id r = i) (db_ledger d)))"
  using assms
  by (auto simp: sql_ledger_totals_def wallet_balance_def wallet_at_def ledger_total_directions Let_def
      split: option.splits)

lemma TotalsByWallet_ok:
  assumes "ledgers_TotalsByWallet L i w = (Inr t, w')"
  shows "sint (lt_StoredBalanceMinor t) = wallet_balance (wd_db w') i"
    and "sint (lt_CreditsMinor t) - sint (lt_DebitsMinor t) = ledger_total (wd_db w') i"
    and "sint (lt_Entries t) = int (length (filter (\<lambda>r. lr_wallet_id r = i) (db_ledger (wd_db w'))))"
    and "wd_db w' = lib_others L (wd_step w) (wd_db w)" and "currencyPattern (lt_Currency t)"
proof -
  from assms obtain row w1 where st: "stmt L (sql_ledger_totals i) w = (Inr row, w1)"
    by (auto simp: ledgers_TotalsByWallet_def io_Inr)
  have sql: "sql_ledger_totals i d = Inr (fst (projr (sql_ledger_totals i d)), d)" for d
    by (simp add: sql_ledger_totals_def)
  note seen = stmt_read_ok [OF st sql]
  from assms st obtain c b cr db n where row: "row = Some (c, b, cr, db, n)" and w': "w' = w1"
    and range: "in_int64 cr" "in_int64 db" "in_int64 n" "currencyPattern c"
    and t: "t = \<lparr>lt_Currency = c, lt_StoredBalanceMinor = b, lt_CreditsMinor = word_of_int cr,
          lt_DebitsMinor = word_of_int db, lt_Entries = word_of_int n\<rparr>"
    by (auto simp: ledgers_TotalsByWallet_def io_Inr scan_totals_ok_iff NewCurrency_ok_iff
        split: option.splits)
  have "sql_ledger_totals i (wd_db w1) = Inr (Some (c, b, cr, db, n), wd_db w1)"
    using sql [of "wd_db w1"] seen(1) row by simp
  note found = sql_ledger_totals_found [OF this]
  show "sint (lt_StoredBalanceMinor t) = wallet_balance (wd_db w') i" using found by (simp add: t w')
  show "sint (lt_CreditsMinor t) - sint (lt_DebitsMinor t) = ledger_total (wd_db w') i"
    using found range by (simp add: t w' sint_word_of_int)
  show "sint (lt_Entries t) = int (length (filter (\<lambda>r. lr_wallet_id r = i) (db_ledger (wd_db w'))))"
  proof -
    have "sint (lt_Entries t) = n" using sint_word_of_int [OF range(3)] by (simp add: t)
    then show ?thesis using found(4) w' by simp
  qed
  show "wd_db w' = lib_others L (wd_step w) (wd_db w)" using seen w' by simp
  show "currencyPattern (lt_Currency t)" using range by (simp add: t)
qed

lemma sint_word_diff: "in_int64 (a - b) \<Longrightarrow> sint (word_of_int a - word_of_int b :: int64) = a - b"
  using sint_word_of_int [of "a - b"] by simp

lemma compare_totals_ok_iff:
  "compare_totals i t = Inr r \<longleftrightarrow> currencyPattern (lt_Currency t) \<and>
     (let calc = sint (lt_CreditsMinor t) - sint (lt_DebitsMinor t);
          diff = sint (lt_StoredBalanceMinor t) - calc
      in in_int64 calc \<and> in_int64 diff \<and>
         r = \<lparr>rc_WalletID = i, rc_StoredBalance = \<lparr>m_amount = lt_StoredBalanceMinor t, m_currency = lt_Currency t\<rparr>,
              rc_CalculatedBalance = \<lparr>m_amount = word_of_int calc, m_currency = lt_Currency t\<rparr>,
              rc_Difference = \<lparr>m_amount = word_of_int diff, m_currency = lt_Currency t\<rparr>,
              rc_Consistent = (diff = 0), rc_CheckedEntries = lt_Entries t\<rparr>)"
proof -
  have w: "a - b = word_of_int (sint a - sint b)" for a b :: int64 by (simp add: wi_hom_syms)
  have z: "in_int64 k \<Longrightarrow> (word_of_int k :: int64) = 0 \<longleftrightarrow> k = 0" for k
    by (metis sint_0 sint_word_of_int word_of_int_0)
  show ?thesis
    by (cases "currencyPattern (lt_Currency t)")
      (auto simp: compare_totals_def and_then_Inr_iff FromMinorUnits_ok_iff money_Sub_ok_iff Let_def
        compatible_def money_defs currencyPattern_nonempty sint_sub_exact z w [symmetric] sint_word_of_int,
      (metis sint_eq_iff sint_sub_exact)+)
qed

subsection \<open>Properties\<close>

definition sample_open :: OpenCommand where
  "sample_open = \<lparr>oc_PlayerID = 9, oc_InitialBalance = \<lparr>m_amount = 2500, m_currency = ''BRL''\<rparr>,
     oc_CorrelationID = ''''\<rparr>"

text \<open>
  Opening is all or nothing: if \<open>Open\<close> returns an error, the database is what the other
  connections have made of it, unless the outcome of the COMMIT is unknown.
\<close>

theorem Open_error_leaves_no_trace:
  assumes "wallets_Open L cmd w = (Inl e, w')" and "wd_saves w = []"
  shows "wd_db w' = fold (lib_others L) [wd_step w..<wd_step w'] (wd_db w) \<or>
     (\<exists>s. e = WrapError ''postgres: commit transaction'' (LibError s))"
proof (cases "Open_Validate cmd")
  case (Inl x)
  then show ?thesis using assms by (simp add: wallets_Open_def bindM_def lift_def)
next
  case (Inr u)
  then have "WithinTransaction L (open_wallet L cmd) w = (Inl e, w')"
    using assms(1)
    by (auto simp: wallets_Open_def bindM_def lift_def record_metric_def ret_def split: prod.splits sum.splits)
  from WithinTransaction_error_no_trace [OF framed_open_wallet this assms(2)]
  show ?thesis by (simp add: drift_def commit_unknown_def)
qed

definition duplicate_open :: OpenCommand where
  "duplicate_open = sample_open\<lparr>oc_PlayerID := 2\<rparr>"

lemma duplicate_open_run:
  "fst (wallets_Open sample_lib duplicate_open sample_world) = Inl ErrWalletExists"
  by code_simp

theorem Open_error_leaves_no_trace_witness:
  "wd_db (snd (wallets_Open sample_lib duplicate_open sample_world)) = sample_db"
proof -
  obtain w' where run: "wallets_Open sample_lib duplicate_open sample_world = (Inl ErrWalletExists, w')"
    using duplicate_open_run by (metis prod.collapse)
  have "fold (lib_others sample_lib) ns d = d" for ns and d :: db
    by (induction ns) (simp_all add: sample_lib_def)
  then show ?thesis
    using Open_error_leaves_no_trace [OF run] run by (simp add: sample_world_def ErrWalletExists_def apperr_New_def)
qed

text \<open>
  (C17) Reconciliation is exact: when \<open>Reconcile\<close> answers, the stored balance it reports is the
  wallet's, the calculated one is the signed sum of the wallet's ledger entries in the same
  snapshot, the difference is their difference as integers, the wallet is called consistent
  exactly when the two agree, every entry was counted, and nothing was written.
\<close>

theorem Reconcile_exact:
  assumes "wallets_Reconcile L i w = (Inr r, w')"
  shows "wd_db w' = lib_others L (wd_step w) (wd_db w) \<and>
    sint (m_amount (rc_StoredBalance r)) = wallet_balance (wd_db w') i \<and>
    sint (m_amount (rc_CalculatedBalance r)) = ledger_total (wd_db w') i \<and>
    sint (m_amount (rc_Difference r)) = wallet_balance (wd_db w') i - ledger_total (wd_db w') i \<and>
    (rc_Consistent r \<longleftrightarrow> wallet_balance (wd_db w') i = ledger_total (wd_db w') i) \<and>
    sint (rc_CheckedEntries r) = int (length (filter (\<lambda>e. lr_wallet_id e = i) (db_ledger (wd_db w'))))"
proof -
  from assms obtain t w1 where t: "ledgers_TotalsByWallet L i w = (Inr t, w1)"
    and r: "compare_totals i t = Inr r" and w': "wd_db w' = wd_db w1"
    by (auto simp: wallets_Reconcile_def io_Inr)
  show ?thesis
    using TotalsByWallet_ok [OF t] r
    by (auto simp: w' compare_totals_ok_iff Let_def sint_word_of_int sint_word_diff)
qed

lemma sample_reconcile:
  "case wallets_Reconcile sample_lib 1 balanced_world of (Inr r, w) \<Rightarrow> rc_Consistent r | _ \<Rightarrow> False"
  by code_simp

theorem Reconcile_exact_witness:
  "\<exists>r w'. wallets_Reconcile sample_lib 1 balanced_world = (Inr r, w') \<and>
     wallet_balance (wd_db w') 1 = ledger_total (wd_db w') 1"
proof -
  obtain r w' where run: "wallets_Reconcile sample_lib 1 balanced_world = (Inr r, w')" and "rc_Consistent r"
    using sample_reconcile by (auto split: prod.splits sum.splits)
  with Reconcile_exact [OF run] show ?thesis by auto
qed

text \<open>
  (C18) No false alarm: while the invariant holds, the reconciliation of an existing wallet
  answers and finds it consistent, with a difference of zero, as long as the sums of its
  credits and of its debits each fit 64 bits.
\<close>

theorem Reconcile_no_false_alarm:
  assumes "quiet L" and "\<not> wd_aborted w" and "ledger_balanced (wd_db w)"
    and "wallet_at (wd_db w) i = Some row" and "currencyPattern (wr_currency row)"
    and "\<forall>dir \<in> {''CREDIT'', ''DEBIT''}.
      in_int64 (sum_direction dir (filter (\<lambda>e. lr_wallet_id e = i) (db_ledger (wd_db w))))"
    and "in_int64 (int (length (filter (\<lambda>e. lr_wallet_id e = i) (db_ledger (wd_db w)))))"
  shows "\<exists>r w'. wallets_Reconcile L i w = (Inr r, w') \<and> rc_Consistent r \<and> m_amount (rc_Difference r) = 0 \<and>
    wd_metrics w' = wd_metrics w @ [RecordReconciliationRun True]"
proof -
  define rs where "rs = filter (\<lambda>e. lr_wallet_id e = i) (db_ledger (wd_db w))"
  define cr where "cr = sum_direction ''CREDIT'' rs"
  define db where "db = sum_direction ''DEBIT'' rs"
  have range: "in_int64 cr" "in_int64 db" "in_int64 (int (length rs))"
    using assms(6,7) by (simp_all add: cr_def db_def rs_def)
  have bal: "sint (wr_balance_minor row) = cr - db"
    using assms(3,4) ledger_total_directions [of "wd_db w" i]
    by (simp add: ledger_balanced_def wallet_balance_def cr_def db_def rs_def) (metis option.case(2))
  define t where "t = \<lparr>lt_Currency = wr_currency row, lt_StoredBalanceMinor = wr_balance_minor row,
    lt_CreditsMinor = word_of_int cr, lt_DebitsMinor = word_of_int db,
    lt_Entries = word_of_int (int (length rs))\<rparr>"
  have "sql_ledger_totals i (wd_db w) =
      Inr (Some (wr_currency row, wr_balance_minor row, cr, db, int (length rs)), wd_db w)"
    using assms(4) by (simp add: sql_ledger_totals_def wallet_at_def Let_def cr_def db_def rs_def)
  then have totals: "ledgers_TotalsByWallet L i w = (Inr t, tick L w)"
    using assms(1,2,5) range
    by (simp add: ledgers_TotalsByWallet_def bindM_def on_error_def quiet_stmt quiet_tick lift_def
        scan_totals_def scan_int64_def NewCurrency_def ret_def t_def)
  have diff: "sint (lt_StoredBalanceMinor t) = sint (lt_CreditsMinor t) - sint (lt_DebitsMinor t)"
    using bal range by (simp add: t_def sint_word_of_int)
  have "currencyPattern (lt_Currency t)" using assms(5) by (simp add: t_def)
  with diff obtain r where r: "compare_totals i t = Inr r" "rc_Consistent r" "m_amount (rc_Difference r) = 0"
    using sint_in_int64 [of "lt_StoredBalanceMinor t"]
    by (auto simp: compare_totals_ok_iff Let_def in_int64_def)
  show ?thesis
    using totals r
    by (simp add: wallets_Reconcile_def bindM_def lift_def record_metric_def ret_def)
qed

theorem Reconcile_no_false_alarm_witness:
  "\<exists>r w'. wallets_Reconcile sample_lib 1 balanced_world = (Inr r, w') \<and> rc_Consistent r"
proof -
  have db: "wd_db balanced_world = sample_db\<lparr>db_ledger := [opening_row]\<rparr>"
    by (simp add: balanced_world_def sample_world_def)
  have at: "wallet_at (wd_db balanced_world) 1 = Some (wallet_to_row sample_wallet)"
    by (simp add: db wallet_at_def sample_db_def wallet_to_row_def sample_wallet_def)
  have cur: "currencyPattern (wr_currency (wallet_to_row sample_wallet))"
    using sample_wallet_inv by (simp add: wallet_to_row_def wallet_inv_def)
  have range: "\<forall>dir \<in> {''CREDIT'', ''DEBIT''}.
      in_int64 (sum_direction dir (filter (\<lambda>e. lr_wallet_id e = 1) (db_ledger (wd_db balanced_world))))"
    "in_int64 (int (length (filter (\<lambda>e. lr_wallet_id e = 1) (db_ledger (wd_db balanced_world)))))"
    by (auto simp: db sum_direction_def opening_row_def in_int64_def)
  show ?thesis
    using Reconcile_no_false_alarm [OF quiet_sample_lib balanced_world(3,1) at cur range] by blast
qed

lemma quiet_insertEvent_Inr:
  assumes "quiet L" and "insertEvent L i a t o' env w = (Inr u, w')"
  obtains ev where "oe_AggregateID ev = a"
    and "wd_db w' = (wd_db w)\<lparr>db_outbox := db_outbox (wd_db w) @ [event_to_row ev]\<rparr>"
proof -
  from assms(2) obtain p payload where "outbox_Insert L \<lparr>oe_EventID = p, oe_AggregateID = a, oe_EventType = t,
      oe_Payload = payload, oe_OccurredAt = o', oe_Attempts = 0, oe_NextAttemptAt = o'\<rparr> w = (Inr u, w')"
    by (auto simp: insertEvent_def io_Inr)
  from quiet_outbox_Insert_Inr [OF assms(1) this] show thesis by (intro that) auto
qed

lemma quiet_announce_opening_Inr:
  assumes "quiet L" and "announce_opening L cmd wl t z c now w = (Inr u, w')"
  obtains ev1 ev2 where "oe_AggregateID ev1 = w_id wl" and "oe_AggregateID ev2 = t_id t"
    and "wd_db w' = (wd_db w)\<lparr>db_outbox := db_outbox (wd_db w) @ [event_to_row ev1, event_to_row ev2]\<rparr>"
proof -
  from assms(2) obtain e1 e2 i1 i2 w1 w2 w3 where w1: "uuid_NewV7 L w = (Inr i1, w1)"
    and ev1: "insertEvent L (EventID e1) (w_id wl) (EventType e1) (OccurredAt e1) e1 w1 = (Inr (), w2)"
    and w3: "uuid_NewV7 L w2 = (Inr i2, w3)"
    and ev2: "insertEvent L (EventID e2) (t_id t) (EventType e2) (OccurredAt e2) e2 w3 = (Inr u, w')"
    by (auto simp: announce_opening_def io_Inr)
  obtain a where a: "oe_AggregateID a = w_id wl"
      "wd_db w2 = (wd_db w1)\<lparr>db_outbox := db_outbox (wd_db w1) @ [event_to_row a]\<rparr>"
    by (rule quiet_insertEvent_Inr [OF assms(1) ev1])
  obtain b where b: "oe_AggregateID b = t_id t"
      "wd_db w' = (wd_db w3)\<lparr>db_outbox := db_outbox (wd_db w3) @ [event_to_row b]\<rparr>"
    by (rule quiet_insertEvent_Inr [OF assms(1) ev2])
  show thesis
    using quiet_NewV7_Inr [OF assms(1) w1] quiet_NewV7_Inr [OF assms(1) w3] a b
    by (intro that [of a b]) simp_all
qed

text \<open>The rows that belong to an opening credit.\<close>

lemma quiet_credit_opening_Inr:
  assumes q: "quiet L" and run: "credit_opening L cmd wl now w = (Inr wl', w')"
    and cur: "w_currency wl = m_currency (oc_InitialBalance cmd)"
  obtains t e ev1 ev2 where "wl' = wl" and "t_kind t = KindOpening" and "t_status t = StatusProcessed"
    and "t_walletID t = w_id wl" and "t_amount t = oc_InitialBalance cmd"
    and "e_walletID e = w_id wl" and "e_transactionID e = t_id t" and "e_direction e = DirectionCredit"
    and "e_amount e = oc_InitialBalance cmd" and "m_amount (e_balanceBefore e) = 0"
    and "e_balanceAfter e = oc_InitialBalance cmd"
    and "oe_AggregateID ev1 = w_id wl" and "oe_AggregateID ev2 = t_id t"
    and "wd_db w' = (wd_db w)\<lparr>db_transactions := db_transactions (wd_db w) @ [tx_to_row t],
       db_ledger := db_ledger (wd_db w) @ [entry_to_row e],
       db_outbox := db_outbox (wd_db w) @ [event_to_row ev1, event_to_row ev2]\<rparr>"
proof -
  from run obtain i1 w1 t w2 z i2 w3 e w4 c where w1: "uuid_NewV7 L w = (Inr i1, w1)"
    and t: "NewOpening i1 \<lparr>op_WalletID = w_id wl, op_PlayerID = w_playerID wl,
        op_Money = oc_InitialBalance cmd\<rparr> now = Inr t"
    and w2: "transactions_Insert L t w1 = (Inr (), w2)"
    and z: "money_Zero (w_currency wl) = Inr z"
    and w3: "uuid_NewV7 L w2 = (Inr i2, w3)"
    and e: "ledger_New i2 (w_id wl) (t_id t) DirectionCredit (oc_InitialBalance cmd) z
        (oc_InitialBalance cmd) now = Inr e"
    and w4: "ledgers_Insert L e w3 = (Inr (), w4)"
    and ann: "announce_opening L cmd wl t z c now w4 = (Inr (), w')" and wl': "wl' = wl"
    by (auto simp: credit_opening_def Let_def io_Inr)
  obtain ev1 ev2 where ev: "oe_AggregateID ev1 = w_id wl" "oe_AggregateID ev2 = t_id t"
    "wd_db w' = (wd_db w4)\<lparr>db_outbox := db_outbox (wd_db w4) @ [event_to_row ev1, event_to_row ev2]\<rparr>"
    by (rule quiet_announce_opening_Inr [OF q ann])
  show thesis
    using quiet_NewV7_Inr [OF q w1] quiet_NewV7_Inr [OF q w3] quiet_tx_Insert_Inr(1) [OF q w2]
      quiet_ledgers_Insert_Inr [OF q w4] ev t z e wl'
    by (intro that [of t e ev1 ev2])
      (simp_all add: NewOpening_ok_iff ledger_New_ok_iff money_Zero_def FromMinorUnits_ok_iff)
qed

text \<open>
  (C16) What opening a wallet writes: without faults and other writers, a successful \<open>Open\<close> adds
  exactly the wallet, at version 1 with the requested balance, where no wallet of that player
  and currency was; for a positive balance also one PROCESSED OPENING transaction, one ledger
  credit from zero to the balance, and two events, one for the wallet and one for the
  transaction; nothing else changes.
\<close>

theorem Open_effect:
  assumes "quiet L" and "wd_saves w = []" and "wallets_Open L cmd w = (Inr wl, w')"
  shows "w_playerID wl = oc_PlayerID cmd \<and> w_balance wl = oc_InitialBalance cmd \<and> w_version wl = 1 \<and>
    (\<forall>r \<in> set (db_wallets (wd_db w)).
       \<not> (wr_player_id r = oc_PlayerID cmd \<and> wr_currency r = m_currency (oc_InitialBalance cmd))) \<and>
    (if sint (m_amount (oc_InitialBalance cmd)) = 0
     then wd_db w' = (wd_db w)\<lparr>db_wallets := db_wallets (wd_db w) @ [wallet_to_row wl]\<rparr>
     else \<exists>t e ev1 ev2.
       t_kind t = KindOpening \<and> t_status t = StatusProcessed \<and> t_walletID t = w_id wl \<and>
       t_amount t = oc_InitialBalance cmd \<and>
       e_walletID e = w_id wl \<and> e_transactionID e = t_id t \<and> e_direction e = DirectionCredit \<and>
       e_amount e = oc_InitialBalance cmd \<and> m_amount (e_balanceBefore e) = 0 \<and>
       e_balanceAfter e = oc_InitialBalance cmd \<and>
       oe_AggregateID ev1 = w_id wl \<and> oe_AggregateID ev2 = t_id t \<and>
       wd_db w' = \<lparr>db_wallets = db_wallets (wd_db w) @ [wallet_to_row wl],
         db_transactions = db_transactions (wd_db w) @ [tx_to_row t],
         db_ledger = db_ledger (wd_db w) @ [entry_to_row e],
         db_inbox = db_inbox (wd_db w),
         db_outbox = db_outbox (wd_db w) @ [event_to_row ev1, event_to_row ev2]\<rparr>)"
proof -
  note q = assms(1)
  from assms(3) obtain u wt where v: "Open_Validate cmd = Inr u"
    and tx: "WithinTransaction L (open_wallet L cmd) w = (Inr wl, wt)" and wt: "wd_db w' = wd_db wt"
    by (auto simp: wallets_Open_def io_Inr)
  obtain w1 w2 where body: "open_wallet L cmd w1 = (Inr wl, w2)" and w1: "wd_db w1 = wd_db w"
    and w2: "wd_db wt = wd_db w2"
    by (rule quiet_WithinTransaction_Inr [OF q tx assms(2)])
  from body obtain now r w3 w4 where w3: "read_clock L w1 = (Inr now, w3)"
    and w4: "wallets_GetByPlayerAndCurrency L (oc_PlayerID cmd) (m_currency (oc_InitialBalance cmd)) w3 = (r, w4)"
    and k: "(case r of Inr existing \<Rightarrow> throw ErrWalletExists
      | Inl err \<Rightarrow> if KindOf err \<noteq> KindNotFound then throw err
          else bindM (uuid_NewV7 L) (\<lambda>i. bindM (lift (wallet_Open i (oc_PlayerID cmd) (oc_InitialBalance cmd) now))
            (\<lambda>w. bindM (wallets_Create L w) (\<lambda>_. if \<not> money_IsPositive (oc_InitialBalance cmd) then ret w
              else credit_opening L cmd w now)))) w4 = (Inr wl, w2)"
    by (auto simp: open_wallet_def bindM_Inr attempt_Inr)
  from k obtain err where "r = Inl err" "KindOf err = KindNotFound"
    by (cases r) (auto simp: throw_Inr split: if_splits)
  with k obtain i w5 x w6 where w5: "uuid_NewV7 L w4 = (Inr i, w5)"
    and x: "wallet_Open i (oc_PlayerID cmd) (oc_InitialBalance cmd) now = Inr x"
    and w6: "wallets_Create L x w5 = (Inr (), w6)"
    and fin: "(if \<not> money_IsPositive (oc_InitialBalance cmd) then ret x else credit_opening L cmd x now) w6 =
      (Inr wl, w2)"
    by (auto simp: bindM_Inr lift_Inr)
  have db5: "wd_db w5 = wd_db w"
    using quiet_clock_Inr [OF q w3] reads_quiet [OF q reads_repos(4) w4] quiet_NewV7_Inr [OF q w5] w1
    by simp
  note cr = quiet_Create_Inr [OF q w6]
  have xs: "w_playerID x = oc_PlayerID cmd" "w_balance x = oc_InitialBalance cmd" "w_version x = 1"
    "w_currency x = m_currency (oc_InitialBalance cmd)" "0 \<le> sint (m_amount (oc_InitialBalance cmd))"
    using x by (auto simp: wallet_Open_ok_iff)
  show ?thesis
  proof (cases "money_IsPositive (oc_InitialBalance cmd)")
    case False
    then have "sint (m_amount (oc_InitialBalance cmd)) = 0" using xs(5) by (simp add: money_IsPositive_def)
    then show ?thesis using False fin cr xs db5 wt w2 by (simp add: ret_Inr)
  next
    case True
    then have pos: "sint (m_amount (oc_InitialBalance cmd)) \<noteq> 0" by (simp add: money_IsPositive_def)
    from True fin have credit: "credit_opening L cmd x now w6 = (Inr wl, w2)" by simp
    show ?thesis
      by (rule quiet_credit_opening_Inr [OF q credit xs(4)])
        (use cr xs db5 wt w2 pos in \<open>auto intro!: exI\<close>)
  qed
qed

lemma sample_open_run: "isOk (fst (wallets_Open sample_lib sample_open sample_world))"
  by code_simp

theorem Open_effect_witness:
  "\<exists>wl w'. wallets_Open sample_lib sample_open sample_world = (Inr wl, w') \<and> w_version wl = 1 \<and>
     m_amount (w_balance wl) = 2500"
proof -
  obtain wl w' where run: "wallets_Open sample_lib sample_open sample_world = (Inr wl, w')"
    using sample_open_run by (metis isOk_iff prod.collapse)
  with Open_effect [OF quiet_sample_lib _ run] show ?thesis
    by (auto simp: sample_world_def sample_open_def)
qed

end
