(* ===== verification/Inbox.thy ===== *)
theory Inbox
  imports Quiet
begin

section \<open>The inbox (internal/adapters/postgres/inbox_repo.go)\<close>

text \<open>
  The durable record of the messages a consumer has received: \<open>Claim\<close> inserts a row unless the
  message has one already, \<open>Complete\<close> marks it processed.
\<close>

record InboxRecord =
  ib_MessageID :: string
  ib_PayloadHash :: string
  ib_Completed :: bool
  ib_ReceivedAt :: time

subsection \<open>The statements\<close>

definition is_message :: "string \<Rightarrow> string \<Rightarrow> inbox_row \<Rightarrow> bool" where
  "is_message consumer msg r \<longleftrightarrow> ir_consumer_name r = consumer \<and> ir_message_id r = msg"

text \<open>
  \<open>INSERT ... ON CONFLICT (consumer_name, message_id) DO NOTHING RETURNING id\<close>: no row when the
  message is known; the primary key is not covered by the clause.
\<close>

definition sql_insert_inbox :: "inbox_row \<Rightarrow> db \<Rightarrow> (uuid option \<times> db) result" where
  "sql_insert_inbox r d =
     (if \<exists>q \<in> set (db_inbox d). is_message (ir_consumer_name r) (ir_message_id r) q then Inr (None, d)
      else if \<exists>q \<in> set (db_inbox d). ir_id q = ir_id r then Inl (PgError ''23505'' ''inbox_messages_pkey'')
      else Inr (Some (ir_id r), d\<lparr>db_inbox := db_inbox d @ [r]\<rparr>))"

definition complete_row :: "time \<Rightarrow> inbox_row \<Rightarrow> inbox_row" where
  "complete_row now r = r\<lparr>ir_status := ''COMPLETED'', ir_completed_at := Some now\<rparr>"

definition sql_complete_inbox :: "string \<Rightarrow> string \<Rightarrow> time \<Rightarrow> db \<Rightarrow> (nat \<times> db) result" where
  "sql_complete_inbox consumer msg now d =
     Inr (length (filter (is_message consumer msg) (db_inbox d)),
       d\<lparr>db_inbox := map (\<lambda>r. if is_message consumer msg r then complete_row now r else r) (db_inbox d)\<rparr>)"

definition sql_inbox_get :: "string \<Rightarrow> string \<Rightarrow> db \<Rightarrow> (inbox_row option \<times> db) result" where
  "sql_inbox_get consumer msg d = Inr (find (is_message consumer msg) (db_inbox d), d)"

subsection \<open>The repository\<close>

definition row_to_record :: "inbox_row \<Rightarrow> InboxRecord" where
  "row_to_record r =
     \<lparr>ib_MessageID = ir_message_id r, ib_PayloadHash = ir_payload_hash r,
      ib_Completed = (ir_status r = ''COMPLETED''), ib_ReceivedAt = ir_received_at r\<rparr>"

definition inbox_get :: "lib \<Rightarrow> string \<Rightarrow> string \<Rightarrow> InboxRecord io" where
  "inbox_get L consumerName messageID =
     on_error (WrapError ''postgres: load inbox message'')
       (bindM (stmt L (sql_inbox_get consumerName messageID)) (\<lambda>row. case row of
          None \<Rightarrow> throw (PlainError ''no rows in result set'')
        | Some r \<Rightarrow> ret (row_to_record r)))"

text \<open>The result is whether the message was claimed, and its record when it was not.\<close>

definition inbox_Claim ::
  "lib \<Rightarrow> string \<Rightarrow> string \<Rightarrow> string \<Rightarrow> time \<Rightarrow> (bool \<times> InboxRecord option) io" where
  "inbox_Claim L consumerName messageID payloadHash now =
     bindM (uuid_NewV7 L) (\<lambda>id.
     bindM (on_error (WrapError ''postgres: claim inbox message'')
       (stmt L (sql_insert_inbox \<lparr>ir_id = id, ir_consumer_name = consumerName, ir_message_id = messageID,
          ir_payload_hash = payloadHash, ir_status = ''RECEIVED'', ir_received_at = now,
          ir_completed_at = None\<rparr>))) (\<lambda>inserted. case inserted of
       Some _ \<Rightarrow> ret (True, None)
     | None \<Rightarrow>
         bindM (inbox_get L consumerName messageID) (\<lambda>existing. ret (False, Some existing))))"

definition inbox_Complete :: "lib \<Rightarrow> string \<Rightarrow> string \<Rightarrow> time \<Rightarrow> unit io" where
  "inbox_Complete L consumerName messageID now =
     bindM (on_error (WrapError ''postgres: complete inbox message'')
       (stmt L (sql_complete_inbox consumerName messageID now))) (\<lambda>affected.
     if affected = 0 then throw (PlainError ''postgres: inbox message does not exist'') else ret ())"

subsection \<open>Framing, and what the other parts keep\<close>

lemma framed_inbox [framed_rules]:
  "framed L (inbox_get L cn m)" "framed L (inbox_Claim L cn m h now)" "framed L (inbox_Complete L cn m now)"
  unfolding inbox_get_def inbox_Claim_def inbox_Complete_def by (intro framed_rules)+

lemma records_same_inbox:
  "only_in records_same (sql_insert_inbox r)" "only_in records_same (sql_complete_inbox cn m now)"
  "only_in records_same (sql_inbox_get cn m)"
  by (auto simp: only_in_def records_same_def sql_insert_inbox_def sql_complete_inbox_def sql_inbox_get_def
      split: if_splits)

lemma keeps_inbox:
  assumes "wide F"
  shows "keeps_in F L (inbox_get L cn m)" "keeps_in F L (inbox_Claim L cn m h now)"
    "keeps_in F L (inbox_Complete L cn m now)"
  unfolding inbox_get_def inbox_Claim_def inbox_Complete_def
  by (intro keeps_rules keeps_stmt only_in_wide [OF _ assms] records_same_inbox)+

end
