(* ===== verification/Consumer.thy ===== *)
theory Consumer
  imports Inbox Money_Json
begin

section \<open>Wager messages (internal/app/consumer/wager.go)\<close>

text \<open>
  A message of the transactions queue is parsed into a command and processed once: its inbox
  row, the effects of the command and the completion of the row are one database transaction.
  The error tells the broker's adapter what to do with the message: none, to acknowledge it; a
  \<open>PermanentError\<close>, to give it up; any other, to try again.
\<close>

definition ConsumerName :: string where
  "ConsumerName = ''wager-transactions-consumer''"

definition RequestEventType :: string where
  "RequestEventType = ''WagerTransactionRequested''"

record ReceivedMessage =
  rm_MessageID :: string
  rm_ReceiptHandle :: string
  rm_Body :: string
  rm_ReceiveCount :: int

record requestData =
  rq_ProviderID :: string
  rq_ExternalTransactionID :: string
  rq_IdempotencyKey :: string
  rq_PlayerID :: string
  rq_WalletID :: string
  rq_RoundID :: string
  rq_GameID :: string
  rq_Kind :: string
  rq_Money :: money
  rq_ReferenceExternalTransactionID :: string

record requestEnvelope =
  re_MessageID :: string
  re_Type :: string
  re_OccurredAt :: time
  re_Data :: requestData

definition zero_money :: money where
  "zero_money = \<lparr>m_amount = 0, m_currency = ''''\<rparr>"

definition zero_requestData :: requestData where
  "zero_requestData = \<lparr>rq_ProviderID = '''', rq_ExternalTransactionID = '''', rq_IdempotencyKey = '''',
     rq_PlayerID = '''', rq_WalletID = '''', rq_RoundID = '''', rq_GameID = '''', rq_Kind = '''',
     rq_Money = zero_money, rq_ReferenceExternalTransactionID = ''''\<rparr>"

definition zero_requestEnvelope :: requestEnvelope where
  "zero_requestEnvelope = \<lparr>re_MessageID = '''', re_Type = '''', re_OccurredAt = 0,
     re_Data = zero_requestData\<rparr>"

definition requestData_fields :: "requestData fields" where
  "requestData_fields =
     [(''providerId'', decode_string (\<lambda>s d. d\<lparr>rq_ProviderID := s\<rparr>)),
      (''externalTransactionId'', decode_string (\<lambda>s d. d\<lparr>rq_ExternalTransactionID := s\<rparr>)),
      (''idempotencyKey'', decode_string (\<lambda>s d. d\<lparr>rq_IdempotencyKey := s\<rparr>)),
      (''playerId'', decode_string (\<lambda>s d. d\<lparr>rq_PlayerID := s\<rparr>)),
      (''walletId'', decode_string (\<lambda>s d. d\<lparr>rq_WalletID := s\<rparr>)),
      (''roundId'', decode_string (\<lambda>s d. d\<lparr>rq_RoundID := s\<rparr>)),
      (''gameId'', decode_string (\<lambda>s d. d\<lparr>rq_GameID := s\<rparr>)),
      (''kind'', decode_string (\<lambda>s d. d\<lparr>rq_Kind := s\<rparr>)),
      (''money'', decode_money (\<lambda>m d. d\<lparr>rq_Money := m\<rparr>)),
      (''referenceExternalTransactionId'',
        decode_string (\<lambda>s d. d\<lparr>rq_ReferenceExternalTransactionID := s\<rparr>))]"

definition requestEnvelope_fields :: "requestEnvelope fields" where
  "requestEnvelope_fields =
     [(''messageId'', decode_string (\<lambda>s e. e\<lparr>re_MessageID := s\<rparr>)),
      (''type'', decode_string (\<lambda>s e. e\<lparr>re_Type := s\<rparr>)),
      (''occurredAt'', decode_time (\<lambda>t e. e\<lparr>re_OccurredAt := t\<rparr>)),
      (''data'', \<lambda>v e. map_option (\<lambda>d. e\<lparr>re_Data := d\<rparr>)
         (decode_struct False requestData_fields v (re_Data e)))]"

text \<open>\<open>json.Unmarshal\<close> of a body into the envelope.\<close>

definition Unmarshal_request :: "string \<Rightarrow> requestEnvelope result" where
  "Unmarshal_request body =
     (case json_parse body of
        None \<Rightarrow> Inl json_error
      | Some v \<Rightarrow>
          (case decode_struct False requestEnvelope_fields v zero_requestEnvelope of
             None \<Rightarrow> Inl json_error
           | Some e \<Rightarrow> Inr e))"

definition wrap_error :: "(goerror \<Rightarrow> goerror) \<Rightarrow> 'a result \<Rightarrow> 'a result" where
  "wrap_error f r = (case r of Inl e \<Rightarrow> Inl (f e) | Inr v \<Rightarrow> Inr v)"

definition parseRequest ::
  "(string \<Rightarrow> uuid result) \<Rightarrow> ReceivedMessage \<Rightarrow> (requestEnvelope \<times> ProcessCommand) result" where
  "parseRequest uparse message =
     and_then (wrap_error (apperr_Wrap KindInvalid ''INVALID_MESSAGE''
         (Text ''message body is not valid JSON'')) (Unmarshal_request (rm_Body message))) (\<lambda>envelope0.
     if re_Type envelope0 \<noteq> RequestEventType
     then Inl (apperr_New KindInvalid ''UNSUPPORTED_EVENT_TYPE''
            (Sprintf ''event type %q is not supported'' [SArg (re_Type envelope0)]))
     else
       let envelope = (if re_MessageID envelope0 = ''''
             then envelope0\<lparr>re_MessageID := rm_MessageID message\<rparr> else envelope0) in
       if re_MessageID envelope = ''''
       then Inl (apperr_New KindInvalid ''INVALID_MESSAGE'' (Text ''messageId is required''))
       else
         let data = re_Data envelope in
         and_then (wrap_error (apperr_Wrap KindInvalid ''INVALID_PLAYER_ID''
             (Text ''playerId must be a UUID'')) (uparse (rq_PlayerID data))) (\<lambda>playerID.
         and_then (wrap_error (apperr_Wrap KindInvalid ''INVALID_WALLET_ID''
             (Text ''walletId must be a UUID'')) (uparse (rq_WalletID data))) (\<lambda>walletID.
         and_then (ParseKind (rq_Kind data)) (\<lambda>kind.
         Inr (envelope,
           \<lparr>cmd_ProviderID = rq_ProviderID data, cmd_ExternalTransactionID = rq_ExternalTransactionID data,
            cmd_IdempotencyKey = rq_IdempotencyKey data, cmd_PlayerID = playerID, cmd_WalletID = walletID,
            cmd_RoundID = rq_RoundID data, cmd_GameID = rq_GameID data, cmd_Kind = kind,
            cmd_Money = rq_Money data,
            cmd_ReferenceExternalTransactionID = rq_ReferenceExternalTransactionID data,
            cmd_CorrelationID = re_MessageID envelope, cmd_CausationID = ''''\<rparr>)))))"

subsection \<open>Handling a message\<close>

definition IsPermanent :: "goerror \<Rightarrow> bool" where
  "IsPermanent err = list_ex (\<lambda>e. case e of PermanentError _ \<Rightarrow> True | _ \<Rightarrow> False) (error_chain err)"

definition classify :: "goerror \<Rightarrow> goerror" where
  "classify err =
     (if IsPermanent err then err
      else if KindOf err \<in> {KindInvalid, KindForbidden, KindUnauthorized} then PermanentError err
      else if KindOf err = KindRejected then PermanentError err
      else if CodeOf err = ''IDEMPOTENCY_CONFLICT'' then PermanentError err
      else err)"

definition hashBody :: "(string \<Rightarrow> string) \<Rightarrow> string \<Rightarrow> string" where
  "hashBody sha body = hex_EncodeToString (sha body)"

definition hash_mismatch :: goerror where
  "hash_mismatch = apperr_New KindConflict ''MESSAGE_HASH_MISMATCH''
     (Text ''message id was redelivered with a different body'')"

text \<open>The body of the transaction.\<close>

definition handle_once ::
  "lib \<Rightarrow> Config \<Rightarrow> requestEnvelope \<Rightarrow> ProcessCommand \<Rightarrow> string \<Rightarrow> time \<Rightarrow> unit io" where
  "handle_once L c envelope cmd payloadHash now =
     bindM (inbox_Claim L ConsumerName (re_MessageID envelope) payloadHash now) (\<lambda>(claimed, existing).
     if \<not> claimed
     then if ib_PayloadHash (the existing) \<noteq> payloadHash then throw (PermanentError hash_mismatch)
          else ret ()
     else
       bindM (on_error classify (Process L c cmd)) (\<lambda>result.
       bindM (read_clock L) (\<lambda>now2.
       inbox_Complete L ConsumerName (re_MessageID envelope) now2)))"

definition Handle :: "lib \<Rightarrow> Config \<Rightarrow> ReceivedMessage \<Rightarrow> unit io" where
  "Handle L c message =
     bindM (on_error PermanentError (lift (parseRequest (lib_uuid_Parse L) message))) (\<lambda>(envelope, cmd).
     bindM (on_error PermanentError (lift (cmd_Validate cmd))) (\<lambda>_.
     let payloadHash = hashBody (lib_sha256 L) (rm_Body message) in
     bindM (read_clock L) (\<lambda>now.
     WithinTransaction L (handle_once L c envelope cmd payloadHash now))))"

subsection \<open>Messages that were printed\<close>

text \<open>A request as a sender writes it with \<open>encoding/json\<close>.\<close>

definition request_data_text :: "(uuid \<Rightarrow> string) \<Rightarrow> ProcessCommand \<Rightarrow> string" where
  "request_data_text ustr cmd =
     json_object
       [(''providerId'', json_string (cmd_ProviderID cmd)),
        (''externalTransactionId'', json_string (cmd_ExternalTransactionID cmd)),
        (''idempotencyKey'', json_string (cmd_IdempotencyKey cmd)),
        (''playerId'', json_string (ustr (cmd_PlayerID cmd))),
        (''walletId'', json_string (ustr (cmd_WalletID cmd))),
        (''roundId'', json_string (cmd_RoundID cmd)),
        (''gameId'', json_string (cmd_GameID cmd)),
        (''kind'', json_string (kind_string (cmd_Kind cmd))),
        (''money'', case money_MarshalJSON (cmd_Money cmd) of Inr t \<Rightarrow> t | Inl _ \<Rightarrow> ''''),
        (''referenceExternalTransactionId'', json_string (cmd_ReferenceExternalTransactionID cmd))]"

definition request_text :: "(uuid \<Rightarrow> string) \<Rightarrow> string \<Rightarrow> time \<Rightarrow> ProcessCommand \<Rightarrow> string" where
  "request_text ustr mid t cmd =
     json_object
       [(''messageId'', json_string mid), (''type'', json_string RequestEventType),
        (''occurredAt'', json_string (Format_RFC3339Nano t)), (''data'', request_data_text ustr cmd)]"

definition request_data_json :: "(uuid \<Rightarrow> string) \<Rightarrow> ProcessCommand \<Rightarrow> json" where
  "request_data_json ustr cmd =
     JObject
       [(json_chars ''providerId'', JString (json_chars (cmd_ProviderID cmd))),
        (json_chars ''externalTransactionId'', JString (json_chars (cmd_ExternalTransactionID cmd))),
        (json_chars ''idempotencyKey'', JString (json_chars (cmd_IdempotencyKey cmd))),
        (json_chars ''playerId'', JString (json_chars (ustr (cmd_PlayerID cmd)))),
        (json_chars ''walletId'', JString (json_chars (ustr (cmd_WalletID cmd)))),
        (json_chars ''roundId'', JString (json_chars (cmd_RoundID cmd))),
        (json_chars ''gameId'', JString (json_chars (cmd_GameID cmd))),
        (json_chars ''kind'', JString (json_chars (kind_string (cmd_Kind cmd)))),
        (json_chars ''money'', money_json (cmd_Money cmd)),
        (json_chars ''referenceExternalTransactionId'',
          JString (json_chars (cmd_ReferenceExternalTransactionID cmd)))]"

lemma renders_request_data:
  assumes "money_IsValid (cmd_Money cmd)"
  shows "renders 2 (request_data_text ustr cmd) (request_data_json ustr cmd)"
proof -
  obtain t where t: "money_MarshalJSON (cmd_Money cmd) = Inr t" "renders 1 t (money_json (cmd_Money cmd))"
    using assms by (rule renders_money)
  show ?thesis
    unfolding request_data_text_def request_data_json_def t(1) numeral_2_eq_2
    by (rule renders_object) (use t(2) in \<open>simp add: renders_string\<close>)
qed

lemma renders_request:
  assumes "money_IsValid (cmd_Money cmd)"
  shows "renders 3 (request_text ustr mid t cmd)
    (JObject [(json_chars ''messageId'', JString (json_chars mid)),
      (json_chars ''type'', JString (json_chars RequestEventType)),
      (json_chars ''occurredAt'', JString (json_chars (Format_RFC3339Nano t))),
      (json_chars ''data'', request_data_json ustr cmd)])"
proof -
  have "(3 :: nat) = Suc 2" by simp
  show ?thesis
    unfolding request_text_def \<open>3 = Suc 2\<close>
    by (rule renders_object) (use renders_request_data [OF assms, of ustr] in \<open>simp add: renders_string\<close>)
qed

text \<open>What a sender may put in a command.\<close>

definition printable :: "ProcessCommand \<Rightarrow> bool" where
  "printable cmd \<longleftrightarrow>
     valid_utf8 (cmd_ProviderID cmd) \<and> valid_utf8 (cmd_ExternalTransactionID cmd) \<and>
     valid_utf8 (cmd_IdempotencyKey cmd) \<and> valid_utf8 (cmd_RoundID cmd) \<and> valid_utf8 (cmd_GameID cmd) \<and>
     valid_utf8 (cmd_ReferenceExternalTransactionID cmd) \<and> currencyPattern (m_currency (cmd_Money cmd)) \<and>
     (\<forall>s. cmd_Kind cmd \<noteq> KindOther s)"

lemma decode_request_data:
  assumes "printable cmd" and "\<And>u. valid_utf8 (ustr u)"
  shows "decode_struct False requestData_fields (request_data_json ustr cmd) zero_requestData =
    Some \<lparr>rq_ProviderID = cmd_ProviderID cmd, rq_ExternalTransactionID = cmd_ExternalTransactionID cmd,
      rq_IdempotencyKey = cmd_IdempotencyKey cmd, rq_PlayerID = ustr (cmd_PlayerID cmd),
      rq_WalletID = ustr (cmd_WalletID cmd), rq_RoundID = cmd_RoundID cmd, rq_GameID = cmd_GameID cmd,
      rq_Kind = kind_string (cmd_Kind cmd), rq_Money = cmd_Money cmd,
      rq_ReferenceExternalTransactionID = cmd_ReferenceExternalTransactionID cmd\<rparr>"
proof -
  have "valid_utf8 (kind_string (cmd_Kind cmd))"
    using assms(1) by (intro valid_utf8_ascii) (cases "cmd_Kind cmd"; auto simp: printable_def byte_def)
  then show ?thesis
    using assms unfolding printable_def
    by (simp add: decode_struct_def requestData_fields_def request_data_json_def decode_string_def
        decode_money_def money_UnmarshalJSON_json json_unquote_json_chars zero_requestData_def byte_def)
qed

lemma Unmarshal_request_text:
  assumes "printable cmd" and "\<And>u. valid_utf8 (ustr u)" and "valid_utf8 mid"
    and "0 \<le> fst (civil_of_day (t div 1000000000 div 86400))"
      "fst (civil_of_day (t div 1000000000 div 86400)) \<le> 9999"
  shows "Unmarshal_request (request_text ustr mid t cmd) =
    Inr \<lparr>re_MessageID = mid, re_Type = RequestEventType, re_OccurredAt = t,
      re_Data = \<lparr>rq_ProviderID = cmd_ProviderID cmd, rq_ExternalTransactionID = cmd_ExternalTransactionID cmd,
        rq_IdempotencyKey = cmd_IdempotencyKey cmd, rq_PlayerID = ustr (cmd_PlayerID cmd),
        rq_WalletID = ustr (cmd_WalletID cmd), rq_RoundID = cmd_RoundID cmd, rq_GameID = cmd_GameID cmd,
        rq_Kind = kind_string (cmd_Kind cmd), rq_Money = cmd_Money cmd,
        rq_ReferenceExternalTransactionID = cmd_ReferenceExternalTransactionID cmd\<rparr>\<rparr>"
proof -
  have "money_IsValid (cmd_Money cmd)"
    using assms(1) currencyPattern_nonempty by (auto simp: printable_def money_defs)
  from json_parse_renders [OF renders_request [OF this]]
  have parsed: "json_parse (request_text ustr mid t cmd) =
      Some (JObject [(json_chars ''messageId'', JString (json_chars mid)),
        (json_chars ''type'', JString (json_chars RequestEventType)),
        (json_chars ''occurredAt'', JString (json_chars (Format_RFC3339Nano t))),
        (json_chars ''data'', request_data_json ustr cmd)])" by simp
  have "valid_utf8 RequestEventType"
    by (rule valid_utf8_ascii) (simp add: RequestEventType_def byte_def)
  then show ?thesis
    using assms decode_request_data [OF assms(1), of ustr, OF assms(2)] Parse_Format [OF assms(4,5)]
    by (simp add: Unmarshal_request_def parsed requestEnvelope_fields_def decode_string_def decode_time_def json_unquote_json_chars
        json_chars_Format zero_requestEnvelope_def byte_def)
qed

lemma wrap_error_simps [simp]: "wrap_error f (Inr v) = Inr v" "wrap_error f (Inl e) = Inl (f e)"
  by (simp_all add: wrap_error_def)

lemma parse_printed:
  assumes "printable cmd" and "\<And>u. uparse (ustr u) = Inr u" and "\<And>u. valid_utf8 (ustr u)"
    and "valid_utf8 mid" "mid \<noteq> ''''"
    and "0 \<le> fst (civil_of_day (t div 1000000000 div 86400))"
      "fst (civil_of_day (t div 1000000000 div 86400)) \<le> 9999"
    and "rm_Body message = request_text ustr mid t cmd"
  obtains envelope where "re_MessageID envelope = mid" and "re_OccurredAt envelope = t"
    and "parseRequest uparse message = Inr (envelope, cmd\<lparr>cmd_CorrelationID := mid, cmd_CausationID := ''''\<rparr>)"
proof -
  have "ParseKind (kind_string (cmd_Kind cmd)) = Inr (cmd_Kind cmd)"
    using assms(1) by (auto simp: ParseKind_ok_iff printable_def)
  then show thesis
    using assms by (intro that) (simp_all add: parseRequest_def Unmarshal_request_text)
qed

subsection \<open>The handler, run by run\<close>

lemma framed_handle_once [framed_rules]: "framed L (handle_once L c envelope cmd h now)"
  unfolding handle_once_def by (intro framed_rules)

text \<open>A message is unprocessable, or it is handled in one transaction.\<close>

lemma Handle_cases:
  assumes "Handle L c message w = (r, w')"
  obtains (unprocessable) e where "r = Inl (PermanentError e)" and "w' = w"
      and "\<And>envelope cmd. parseRequest (lib_uuid_Parse L) message = Inr (envelope, cmd) \<Longrightarrow> cmd_Validate cmd \<noteq> Inr ()"
  | (processed) envelope cmd w1 where
      "parseRequest (lib_uuid_Parse L) message = Inr (envelope, cmd)" and "cmd_Validate cmd = Inr ()"
      and "w1 = tick L w"
      and "WithinTransaction L (handle_once L c envelope cmd (hashBody (lib_sha256 L) (rm_Body message))
        (lib_clock L (wd_step w))) w1 = (r, w')"
proof (cases "parseRequest (lib_uuid_Parse L) message")
  case (Inl e)
  then show thesis
    using assms by (intro unprocessable [of e]) (simp_all add: Handle_def bindM_def on_error_def lift_def)
next
  case (Inr p)
  obtain envelope cmd where p: "p = (envelope, cmd)" by (cases p)
  show thesis
  proof (cases "cmd_Validate cmd")
    case (Inl e)
    then show thesis
      using assms Inr p by (intro unprocessable [of e]) (simp_all add: Handle_def bindM_def on_error_def lift_def)
  next
    case v: (Inr u)
    then show thesis
      using assms Inr p
      by (intro processed [of envelope cmd "tick L w"])
        (simp_all add: Handle_def bindM_def on_error_def lift_def read_clock_def Let_def)
  qed
qed

lemma ledger_balanced_tick:
  "rely L \<Longrightarrow> ledger_balanced (wd_db w) \<Longrightarrow> ledger_balanced (wd_db (tick L w))"
  using stable_balanced by (auto simp: stable_def)

subsection \<open>A message that is known already\<close>

definition knows_message :: "string \<Rightarrow> string \<Rightarrow> db \<Rightarrow> bool" where
  "knows_message cn m d \<longleftrightarrow> (\<exists>r \<in> set (db_inbox d). is_message cn m r)"

definition inbox_kept :: "lib \<Rightarrow> bool" where
  "inbox_kept L \<longleftrightarrow> (\<forall>n d cn m. knows_message cn m d \<longrightarrow> knows_message cn m (lib_others L n d))"

lemma knows_drift: "inbox_kept L \<Longrightarrow> knows_message cn m d \<Longrightarrow> knows_message cn m (drift L i j d)"
proof -
  assume k: "inbox_kept L" and d: "knows_message cn m d"
  have "knows_message cn m (fold (lib_others L) ns d)" for ns
    using d by (induction ns arbitrary: d) (use k in \<open>auto simp: inbox_kept_def\<close>)
  then show ?thesis by (simp add: drift_def)
qed

text \<open>An operation that writes nothing when it starts from a database where \<open>A\<close> holds.\<close>

definition idle_when :: "lib \<Rightarrow> (db \<Rightarrow> bool) \<Rightarrow> 'a io \<Rightarrow> bool" where
  "idle_when L A m \<longleftrightarrow> (\<forall>w. A (wd_db w) \<longrightarrow> wd_step w \<le> wd_step (snd (m w)) \<and>
     wd_db (snd (m w)) = drift L (wd_step w) (wd_step (snd (m w))) (wd_db w))"

lemma idle_db: "idle_when L A m \<Longrightarrow> A (wd_db w) \<Longrightarrow> m w = (r, w') \<Longrightarrow>
    wd_step w \<le> wd_step w' \<and> wd_db w' = drift L (wd_step w) (wd_step w') (wd_db w)"
  by (metis idle_when_def snd_conv)

lemma idle_WithinTransaction:
  assumes fr: "framed L fn" and idle: "idle_when L A fn" and A: "\<And>d. A d \<Longrightarrow> A (lib_others L (wd_step w) d)"
    and top: "wd_saves w = []" and d: "A (wd_db w)" and run: "WithinTransaction L fn w = (r, w')"
  shows "wd_db w' = drift L (wd_step w) (wd_step w') (wd_db w)"
  using run
proof (cases rule: WithinTransaction_cases)
  case (begin_failed x)
  then have "wd_db w' = lib_others L (wd_step w) (wd_db w)"
    by (auto simp: begin_tx_def bindM_def stmt_def Let_def fail_world_def split: option.splits if_splits)
  then show ?thesis using begin_tx_world [OF begin_failed(1)] by (simp add: drift_Suc)
next
  case (failed w1 w2 x)
  have w1: "wd_step w1 = Suc (wd_step w)" "wd_saves w1 = [lib_others L (wd_step w) (wd_db w)]"
    using begin_tx_world [OF failed(1)] top by simp_all
  note f' = framed_step [OF fr failed(2)] framed_saves [OF fr failed(2)]
  then have "wd_db w' = lib_others L (wd_step w2) (drift L (Suc (wd_step w)) (wd_step w2)
      (lib_others L (wd_step w) (wd_db w)))" "wd_step w' = Suc (wd_step w2)"
    using w1 failed(4) by (simp_all add: rollback_tx_def restore_save_def)
  then show ?thesis
    using w1 f'(1) drift_trans [of "wd_step w" "Suc (wd_step w)" "wd_step w2" L "wd_db w"]
      drift_trans [of "wd_step w" "wd_step w2" "Suc (wd_step w2)" L "wd_db w"]
    by (simp add: drift_Suc)
next
  case (finished w1 w2 u cr)
  have w1: "wd_step w1 = Suc (wd_step w)" "wd_db w1 = lib_others L (wd_step w) (wd_db w)"
    and saves: "wd_saves w1 = [lib_others L (wd_step w) (wd_db w)]"
    using begin_tx_world [OF finished(1)] top by simp_all
  with A d idle_db [OF idle _ finished(2)]
  have w2: "Suc (wd_step w) \<le> wd_step w2" "wd_db w2 = drift L (Suc (wd_step w)) (wd_step w2) (wd_db w1)" by auto
  have s2: "wd_saves w2 = [wd_db w2]" using framed_saves [OF fr finished(2)] saves w1 w2 by simp
  with finished(4) have w': "wd_step w' = Suc (wd_step w2)" "wd_db w' = lib_others L (wd_step w2) (wd_db w2)"
    by (auto simp: commit_tx_def Let_def drop_save_def restore_save_def split: if_splits option.splits)
  show ?thesis
    using w1 w2 w' drift_trans [of "wd_step w" "Suc (wd_step w)" "wd_step w2" L "wd_db w"]
      drift_trans [of "wd_step w" "wd_step w2" "Suc (wd_step w2)" L "wd_db w"]
    by (simp add: drift_Suc)
qed (use top in simp_all)

lemma reads_inbox_get [reads_rules]: "reads L (inbox_get L cn m)"
proof -
  have "reads L (stmt L (sql_inbox_get cn m))" by (rule reads_stmt) (simp add: sql_inbox_get_def)
  then show ?thesis unfolding inbox_get_def by (intro reads_rules)
qed

text \<open>Claiming a message that is known writes nothing and finds its record.\<close>

lemma inbox_Claim_known:
  assumes kept: "inbox_kept L" and known: "knows_message cn m (wd_db w)"
    and run: "inbox_Claim L cn m h now w = (r, w')"
  shows "wd_step w \<le> wd_step w' \<and> wd_db w' = drift L (wd_step w) (wd_step w') (wd_db w)"
    and "case r of Inl _ \<Rightarrow> True | Inr (claimed, existing) \<Rightarrow> \<not> claimed"
proof -
  let ?r = "\<lambda>i. \<lparr>ir_id = i, ir_consumer_name = cn, ir_message_id = m, ir_payload_hash = h,
    ir_status = ''RECEIVED'', ir_received_at = now, ir_completed_at = None\<rparr>"
  have none: "sql_insert_inbox (?r i) d = Inr (None, d)" if "knows_message cn m d" for i d
    using that by (auto simp: sql_insert_inbox_def knows_message_def)
  let ?k = "\<lambda>inserted. case inserted of Some (_ :: uuid) \<Rightarrow> ret (True, None)
     | None \<Rightarrow> bindM (inbox_get L cn m) (\<lambda>existing. ret (False, Some existing))"
  obtain i w1 where i: "uuid_NewV7 L w = (Inr i, w1)" and w1: "w1 = tick L w" by (simp add: uuid_NewV7_def)
  have k1: "knows_message cn m (lib_others L (wd_step w1) (wd_db w1))"
    using known kept by (simp add: w1 inbox_kept_def)
  obtain x w2 where s: "on_error (WrapError ''postgres: claim inbox message'') (stmt L (sql_insert_inbox (?r i))) w1 = (x, w2)"
    by (cases "on_error (WrapError ''postgres: claim inbox message'') (stmt L (sql_insert_inbox (?r i))) w1")
  have w2: "wd_step w2 = Suc (wd_step w1)" "wd_db w2 = lib_others L (wd_step w1) (wd_db w1)"
    and x: "case x of Inl _ \<Rightarrow> True | Inr v \<Rightarrow> v = None"
    using s none [OF k1, of i]
    by (auto simp: on_error_def stmt_def Let_def fail_world_def split: if_splits option.splits)
  have d2: "wd_db w2 = drift L (wd_step w) (wd_step w2) (wd_db w)"
    using w1 w2 drift_trans [of "wd_step w" "Suc (wd_step w)" "Suc (Suc (wd_step w))" L "wd_db w"]
    by (simp add: drift_Suc)
  have run': "(case x of Inl e \<Rightarrow> (Inl e, w2) | Inr v \<Rightarrow> ?k v w2) = (r, w')"
    using run i s by (simp add: inbox_Claim_def bindM_def split: sum.splits)
  have "(wd_step w \<le> wd_step w' \<and> wd_db w' = drift L (wd_step w) (wd_step w') (wd_db w)) \<and>
    (case r of Inl _ \<Rightarrow> True | Inr (claimed, existing) \<Rightarrow> \<not> claimed)"
  proof (cases x)
    case (Inl e)
    then show ?thesis using run' w1 w2 d2 by auto
  next
    case (Inr v)
    then have k: "bindM (inbox_get L cn m) (\<lambda>existing. ret (False, Some existing)) w2 = (r, w')"
      using x run' by simp
    have rd: "reads L (bindM (inbox_get L cn m) (\<lambda>existing. ret (False, Some existing)))"
      by (intro reads_rules)
    have "wd_step w2 \<le> wd_step w'" "wd_db w' = drift L (wd_step w2) (wd_step w') (wd_db w2)"
      using reads_step [OF rd k] reads_db [OF rd k] by auto
    moreover have "case r of Inl _ \<Rightarrow> True | Inr (claimed, existing) \<Rightarrow> \<not> claimed"
      using k by (auto simp: bindM_def ret_def split: prod.splits sum.splits)
    ultimately show ?thesis using d2 w1 w2 drift_trans [of "wd_step w" "wd_step w2" "wd_step w'" L "wd_db w"] by simp
  qed
  then show "wd_step w \<le> wd_step w' \<and> wd_db w' = drift L (wd_step w) (wd_step w') (wd_db w)"
    and "case r of Inl _ \<Rightarrow> True | Inr (claimed, existing) \<Rightarrow> \<not> claimed" by auto
qed

lemma idle_handle_once:
  assumes kept: "inbox_kept L"
  shows "idle_when L (knows_message ConsumerName (re_MessageID envelope)) (handle_once L c envelope cmd h now)"
proof -
  have "wd_step w \<le> wd_step w' \<and> wd_db w' = drift L (wd_step w) (wd_step w') (wd_db w)"
    if known: "knows_message ConsumerName (re_MessageID envelope) (wd_db w)"
      and run: "handle_once L c envelope cmd h now w = (r, w')" for w r w'
  proof -
    obtain x w1 where cl: "inbox_Claim L ConsumerName (re_MessageID envelope) h now w = (x, w1)"
      by (cases "inbox_Claim L ConsumerName (re_MessageID envelope) h now w")
    note known' = inbox_Claim_known [OF kept known cl]
    have "w' = w1"
      using run cl known'(2)
      by (auto simp: handle_once_def bindM_def throw_def ret_def split: sum.splits prod.splits if_splits)
    then show ?thesis using known'(1) by simp
  qed
  then show ?thesis by (simp add: idle_when_def) (metis prod.collapse)
qed

text \<open>What the handler answers about a known message when nothing disturbs it.\<close>

lemma quiet_handle_known:
  assumes q: "quiet L" and ab: "\<not> wd_aborted w" and known: "knows_message ConsumerName (re_MessageID envelope) (wd_db w)"
  obtains row w' where "row \<in> set (db_inbox (wd_db w))" and "is_message ConsumerName (re_MessageID envelope) row"
    and "handle_once L c envelope cmd h now w =
      (if ir_payload_hash row = h then Inr () else Inl (PermanentError hash_mismatch), w')"
    and "\<not> wd_aborted w'" and "wd_saves w' = wd_saves w"
proof -
  let ?d = "db_inbox (wd_db w)" and ?m = "is_message ConsumerName (re_MessageID envelope)"
  obtain row where row: "find ?m ?d = Some row"
    using known by (cases "find ?m ?d") (auto simp: knows_message_def find_None_iff)
  then have mem: "row \<in> set ?d" "?m row" by (auto simp: find_Some_iff)
  have ins: "sql_insert_inbox (r\<lparr>ir_consumer_name := ConsumerName, ir_message_id := re_MessageID envelope\<rparr>) (wd_db w) =
      Inr (None, wd_db w)" for r
    using mem by (auto simp: sql_insert_inbox_def)
  have claim: "inbox_Claim L ConsumerName (re_MessageID envelope) h now w =
      (Inr (False, Some (row_to_record row)), w\<lparr>wd_step := Suc (Suc (Suc (wd_step w)))\<rparr>)"
    using q ab ins [of "\<lparr>ir_id = lib_NewV7 L (wd_step w), ir_consumer_name = ConsumerName,
        ir_message_id = re_MessageID envelope, ir_payload_hash = h, ir_status = ''RECEIVED'',
        ir_received_at = now, ir_completed_at = None\<rparr>"] row
    by (simp add: inbox_Claim_def inbox_get_def bindM_def uuid_NewV7_def quiet_tick on_error_def quiet_stmt
        sql_inbox_get_def ret_def)
  show thesis
  proof (rule that [of row "w\<lparr>wd_step := Suc (Suc (Suc (wd_step w)))\<rparr>"])
    show "handle_once L c envelope cmd h now w =
      (if ir_payload_hash row = h then Inr () else Inl (PermanentError hash_mismatch),
        w\<lparr>wd_step := Suc (Suc (Suc (wd_step w)))\<rparr>)"
      using claim by (simp add: handle_once_def bindM_def row_to_record_def ret_def throw_def)
  qed (use mem ab in simp_all)
qed

lemma quiet_WithinTransaction_Inl:
  assumes "quiet L" and "wd_saves w = []" and "\<not> wd_aborted w"
    and "fn (w\<lparr>wd_step := Suc (wd_step w), wd_saves := [wd_db w]\<rparr>) = (Inl e, w2)"
  shows "fst (WithinTransaction L fn w) = Inl e"
proof -
  have b: "begin_tx L w = (Inr (), w\<lparr>wd_step := Suc (wd_step w), wd_saves := [wd_db w]\<rparr>)"
    using assms(1-3) by (simp add: begin_tx_def bindM_def quiet_stmt quiet_tick)
  then show ?thesis using assms(2,4) by (simp add: WithinTransaction_def on_error_def)
qed

subsection \<open>Sample messages\<close>

lemma printable_sample_cmd: "printable sample_cmd"
  by (simp add: printable_def sample_cmd_def currencyPattern_def is_upper_def valid_utf8.simps utf8_tail_def
      byte_def)

definition sample_message :: ReceivedMessage where
  "sample_message = \<lparr>rm_MessageID = '''', rm_ReceiptHandle = ''r'',
     rm_Body = request_text decimal_uuid ''m'' 5 sample_cmd, rm_ReceiveCount = 1\<rparr>"

definition unknown_wallet_message :: ReceivedMessage where
  "unknown_wallet_message = sample_message\<lparr>rm_Body := request_text decimal_uuid ''m'' 5 unknown_wallet_cmd\<rparr>"

definition processed_world :: world where
  "processed_world = sample_world\<lparr>wd_db := sample_db\<lparr>db_inbox :=
     [\<lparr>ir_id = 7, ir_consumer_name = ConsumerName, ir_message_id = ''m'', ir_payload_hash = ''68'',
       ir_status = ''COMPLETED'', ir_received_at = 90, ir_completed_at = Some 95\<rparr>]\<rparr>\<rparr>"

lemma civil_sample: "fst (civil_of_day 0) = 1"
  by (simp add: civil_of_day_def year_of_day_def month_lengths_def is_leap_def)

lemma sample_message_parsed:
  obtains envelope where "re_MessageID envelope = ''m''"
    and "parseRequest (lib_uuid_Parse sample_lib) sample_message =
      Inr (envelope, sample_cmd\<lparr>cmd_CorrelationID := ''m'', cmd_CausationID := ''''\<rparr>)"
proof -
  have m: "valid_utf8 ''m''" by (simp add: valid_utf8_ascii byte_def)
  have l: "lib_uuid_Parse sample_lib = parse_decimal_uuid" by (simp add: sample_lib_def)
  show thesis
    by (rule parse_printed [OF printable_sample_cmd parse_decimal_uuid valid_utf8_decimal m, of 5 sample_message])
      (auto simp: civil_sample sample_message_def l intro: that)
qed

lemma cmd_Validate_sample:
  "cmd_Validate (sample_cmd\<lparr>cmd_CorrelationID := a, cmd_CausationID := b\<rparr>) = Inr ()"
  by (simp add: cmd_Validate_def sample_cmd_def uuid_Nil_def money_defs IsExternal_def RequiresReference_def)

lemma unknown_wallet_parsed:
  obtains envelope where "re_MessageID envelope = ''m''"
    and "parseRequest (lib_uuid_Parse sample_lib) unknown_wallet_message =
      Inr (envelope, unknown_wallet_cmd\<lparr>cmd_CorrelationID := ''m'', cmd_CausationID := ''''\<rparr>)"
proof -
  have m: "valid_utf8 ''m''" by (simp add: valid_utf8_ascii byte_def)
  have l: "lib_uuid_Parse sample_lib = parse_decimal_uuid" by (simp add: sample_lib_def)
  have p: "printable unknown_wallet_cmd"
    using printable_sample_cmd by (simp add: printable_def unknown_wallet_cmd_def)
  show thesis
    by (rule parse_printed [OF p parse_decimal_uuid valid_utf8_decimal m, of 5 unknown_wallet_message])
      (auto simp: civil_sample unknown_wallet_message_def l intro: that)
qed

lemma unknown_wallet_handled:
  "\<not> isOk (fst (WithinTransaction sample_lib
     (handle_once sample_lib sample_config (zero_requestEnvelope\<lparr>re_MessageID := ''m''\<rparr>)
       (unknown_wallet_cmd\<lparr>cmd_CorrelationID := ''m'', cmd_CausationID := ''''\<rparr>) ''68'' 100)
     (sample_world\<lparr>wd_step := 1\<rparr>)))"
  by code_simp

subsection \<open>Properties\<close>

text \<open>
  (C29) A request survives the queue: the text a sender prints for a command, with any strings
  that are UTF-8 (quotes, control characters and non-ASCII included), any amount in a valid
  currency and any instant of a four-digit year, is parsed to exactly that command, correlated
  with the message.
\<close>

theorem parseRequest_printed:
  assumes "printable cmd" and "\<And>u. uparse (ustr u) = Inr u" and "\<And>u. valid_utf8 (ustr u)"
    and "valid_utf8 mid" "mid \<noteq> ''''"
    and "0 \<le> fst (civil_of_day (t div 1000000000 div 86400))"
      "fst (civil_of_day (t div 1000000000 div 86400)) \<le> 9999"
    and "rm_Body message = request_text ustr mid t cmd"
  shows "\<exists>envelope. re_MessageID envelope = mid \<and> re_OccurredAt envelope = t \<and>
    parseRequest uparse message =
      Inr (envelope, cmd\<lparr>cmd_CorrelationID := mid, cmd_CausationID := ''''\<rparr>)"
  by (rule parse_printed [OF assms]) blast

theorem parseRequest_printed_witness:
  "\<exists>envelope. re_OccurredAt envelope = 1500000000 \<and>
     parseRequest parse_decimal_uuid \<lparr>rm_MessageID = '''', rm_ReceiptHandle = ''r'',
         rm_Body = request_text decimal_uuid ''m'' 1500000000 (sample_cmd\<lparr>cmd_GameID := [CHR 0x22, CHR 0xC3, CHR 0xA9]\<rparr>),
         rm_ReceiveCount = 1\<rparr> =
       Inr (envelope, sample_cmd\<lparr>cmd_GameID := [CHR 0x22, CHR 0xC3, CHR 0xA9], cmd_CorrelationID := ''m''\<rparr>)"
proof -
  let ?cmd = "sample_cmd\<lparr>cmd_GameID := [CHR 0x22, CHR 0xC3, CHR 0xA9]\<rparr>"
  have p: "printable ?cmd"
    using printable_sample_cmd
    by (simp add: printable_def valid_utf8.simps utf8_tail_def byte_def is_continuation_def)
  have m: "valid_utf8 ''m''" by (simp add: valid_utf8_ascii byte_def)
  have y: "fst (civil_of_day 0) = 1"
    by (simp add: civil_of_day_def year_of_day_def month_lengths_def is_leap_def)
  show ?thesis
    using parseRequest_printed [OF p parse_decimal_uuid valid_utf8_decimal m, of 1500000000
        "\<lparr>rm_MessageID = '''', rm_ReceiptHandle = ''r'', rm_Body = request_text decimal_uuid ''m'' 1500000000 ?cmd,
          rm_ReceiveCount = 1\<rparr>"]
    by (auto simp: y sample_cmd_def)
qed

text \<open>
  (C11) A message that is not acknowledged has left no trace: when \<open>Handle\<close> returns an error,
  permanent or not, the database, the inbox included, is what the other connections have made of
  it, so a redelivery starts afresh; unless the outcome of the COMMIT is unknown.
\<close>

theorem Handle_error_leaves_no_trace:
  assumes "Handle L c message w = (Inl e, w')" and "wd_saves w = []"
  shows "wd_db w' = fold (lib_others L) [wd_step w..<wd_step w'] (wd_db w) \<or>
     (\<exists>s. e = WrapError ''postgres: commit transaction'' (LibError s))"
  using assms(1)
proof (cases rule: Handle_cases)
  case (unprocessable x)
  then show ?thesis by simp
next
  case (processed envelope cmd w1)
  have top: "wd_saves w1 = []" using assms(2) processed(3) by simp
  have step: "wd_step w1 \<le> wd_step w'"
    by (rule framed_step [OF framed_WithinTransaction [OF framed_handle_once] processed(4)])
  from WithinTransaction_error_no_trace [OF framed_handle_once processed(4) top]
  have "wd_db w' = drift L (wd_step w) (wd_step w') (wd_db w) \<or> commit_unknown e"
    using processed(3) step drift_trans [of "wd_step w" "Suc (wd_step w)" "wd_step w'" L "wd_db w"]
    by (auto simp: drift_Suc)
  then show ?thesis by (simp add: drift_def commit_unknown_def)
qed

theorem Handle_error_leaves_no_trace_witness:
  "\<exists>e w'. Handle sample_lib sample_config unknown_wallet_message sample_world = (Inl e, w') \<and>
     (wd_db w' = sample_db \<or> (\<exists>s. e = WrapError ''postgres: commit transaction'' (LibError s)))"
proof -
  let ?cmd = "unknown_wallet_cmd\<lparr>cmd_CorrelationID := ''m'', cmd_CausationID := ''''\<rparr>"
  obtain envelope where e: "re_MessageID envelope = ''m''"
    and p: "parseRequest (lib_uuid_Parse sample_lib) unknown_wallet_message = Inr (envelope, ?cmd)"
    by (rule unknown_wallet_parsed)
  have v: "cmd_Validate ?cmd = Inr ()"
    by (simp add: cmd_Validate_def unknown_wallet_cmd_def sample_cmd_def uuid_Nil_def money_defs
        IsExternal_def RequiresReference_def)
  have h: "hashBody (lib_sha256 sample_lib) b = ''68''" for b
    by (simp add: hashBody_def sample_lib_def sample_hex)
  have same: "handle_once sample_lib sample_config envelope ?cmd ''68'' 100 =
      handle_once sample_lib sample_config (zero_requestEnvelope\<lparr>re_MessageID := ''m''\<rparr>) ?cmd ''68'' 100"
  proof -
    have "re_MessageID (zero_requestEnvelope\<lparr>re_MessageID := ''m''\<rparr>) = ''m''" by simp
    then show ?thesis unfolding handle_once_def e by (simp only:)
  qed
  have t: "tick sample_lib sample_world = sample_world\<lparr>wd_step := 1\<rparr>" "lib_clock sample_lib (wd_step sample_world) = 100"
    by (simp_all add: quiet_tick [OF quiet_sample_lib] sample_world_def sample_lib_def)
  have "\<not> isOk (fst (Handle sample_lib sample_config unknown_wallet_message sample_world))"
    using unknown_wallet_handled p v
    by (simp add: Handle_def bindM_def on_error_def lift_def read_clock_def Let_def h same t)
  then obtain x w' where run: "Handle sample_lib sample_config unknown_wallet_message sample_world = (Inl x, w')"
    by (metis isOk_iff obj_sumE prod.collapse)
  have "fold (lib_others sample_lib) ns d = d" for ns and d :: db
    by (induction ns) (simp_all add: sample_lib_def)
  then show ?thesis using Handle_error_leaves_no_trace [OF run] run by (simp add: sample_world_def)
qed

text \<open>
  (C10) A message is applied at most once: when the inbox has the message already, handling it
  again, with the same body or another, under any faults, changes nothing in the database; and
  without disturbance a redelivery is acknowledged when the body has the same hash and refused
  for good when it has another.
\<close>

theorem Handle_known_message:
  assumes "inbox_kept L" and "wd_saves w = []"
    and "parseRequest (lib_uuid_Parse L) message = Inr (envelope, cmd)"
    and "\<exists>row \<in> set (db_inbox (wd_db w)). ir_consumer_name row = ConsumerName \<and> ir_message_id row = re_MessageID envelope"
    and "Handle L c message w = (r, w')"
  shows "wd_db w' = fold (lib_others L) [wd_step w..<wd_step w'] (wd_db w) \<and>
    (quiet L \<and> \<not> wd_aborted w \<and> cmd_Validate cmd = Inr () \<longrightarrow>
      (\<exists>row \<in> set (db_inbox (wd_db w)). ir_message_id row = re_MessageID envelope \<and>
        r = (if ir_payload_hash row = hashBody (lib_sha256 L) (rm_Body message) then Inr ()
             else Inl (PermanentError hash_mismatch))))"
proof -
  have known: "knows_message ConsumerName (re_MessageID envelope) (wd_db w)"
    using assms(4) by (auto simp: knows_message_def is_message_def)
  from assms(5) show ?thesis
  proof (cases rule: Handle_cases)
    case (unprocessable e)
    then show ?thesis using assms(3) by auto
  next
    case (processed envelope' cmd' w1)
    have env: "envelope' = envelope" "cmd' = cmd" using processed(1) assms(3) by simp_all
    let ?fn = "handle_once L c envelope cmd (hashBody (lib_sha256 L) (rm_Body message)) (lib_clock L (wd_step w))"
    note run = processed(4) [unfolded env]
    have step: "wd_step w1 \<le> wd_step w'"
      by (rule framed_step [OF framed_WithinTransaction [OF framed_handle_once] run])
    have known1: "knows_message ConsumerName (re_MessageID envelope) (wd_db w1)"
      using known assms(1) by (simp add: processed(3) inbox_kept_def)
    have "wd_db w' = drift L (wd_step w1) (wd_step w') (wd_db w1)"
      using assms(1,2) known1 processed(3)
      by (intro idle_WithinTransaction [OF framed_handle_once idle_handle_once [OF assms(1)] _ _ _ run])
        (auto simp: inbox_kept_def)
    then have "wd_db w' = drift L (wd_step w) (wd_step w') (wd_db w)"
      using processed(3) step drift_trans [of "wd_step w" "Suc (wd_step w)" "wd_step w'" L "wd_db w"]
      by (simp add: drift_Suc)
    moreover have "\<exists>row \<in> set (db_inbox (wd_db w)). ir_message_id row = re_MessageID envelope \<and>
        r = (if ir_payload_hash row = hashBody (lib_sha256 L) (rm_Body message) then Inr ()
             else Inl (PermanentError hash_mismatch))"
      if q: "quiet L" "\<not> wd_aborted w"
    proof -
      let ?w2 = "w1\<lparr>wd_step := Suc (wd_step w1), wd_saves := [wd_db w1]\<rparr>"
      have w1: "wd_db w1 = wd_db w" "wd_saves w1 = []" "\<not> wd_aborted w1"
        using processed(3) q assms(2) by (simp_all add: quiet_tick)
      have ab: "\<not> wd_aborted ?w2" "knows_message ConsumerName (re_MessageID envelope) (wd_db ?w2)"
        using w1 known by simp_all
      obtain row w3 where row: "row \<in> set (db_inbox (wd_db ?w2))" "is_message ConsumerName (re_MessageID envelope) row"
        and body: "?fn ?w2 = (if ir_payload_hash row = hashBody (lib_sha256 L) (rm_Body message) then Inr ()
          else Inl (PermanentError hash_mismatch), w3)" and w3: "\<not> wd_aborted w3" "wd_saves w3 = [wd_db w1]"
        by (rule quiet_handle_known [OF q(1) ab]) auto
      have "r = (if ir_payload_hash row = hashBody (lib_sha256 L) (rm_Body message) then Inr ()
          else Inl (PermanentError hash_mismatch))"
        using quiet_WithinTransaction [OF q(1) w1(2,3), where fn = ?fn]
          quiet_WithinTransaction_Inl [OF q(1) w1(2,3), where fn = ?fn] body w3 run
        by (auto split: if_splits)
      then show ?thesis using row w1 by (auto simp: is_message_def)
    qed
    ultimately show ?thesis by (auto simp: drift_def)
  qed
qed

theorem Handle_known_message_witness:
  "\<exists>w'. Handle sample_lib sample_config sample_message processed_world = (Inr (), w') \<and>
     wd_db w' = wd_db processed_world"
proof -
  obtain r w' where run: "Handle sample_lib sample_config sample_message processed_world = (r, w')"
    by (metis prod.collapse)
  obtain envelope where e: "re_MessageID envelope = ''m''" and p: "parseRequest (lib_uuid_Parse sample_lib) sample_message =
      Inr (envelope, sample_cmd\<lparr>cmd_CorrelationID := ''m'', cmd_CausationID := ''''\<rparr>)"
    by (rule sample_message_parsed)
  have k: "inbox_kept sample_lib" by (simp add: inbox_kept_def sample_lib_def)
  have s: "wd_saves processed_world = []" "\<not> wd_aborted processed_world"
    by (simp_all add: processed_world_def sample_world_def)
  have d: "db_inbox (wd_db processed_world) = [\<lparr>ir_id = 7, ir_consumer_name = ConsumerName, ir_message_id = ''m'',
      ir_payload_hash = ''68'', ir_status = ''COMPLETED'', ir_received_at = 90, ir_completed_at = Some 95\<rparr>]"
    by (simp add: processed_world_def)
  have h: "hashBody (lib_sha256 sample_lib) b = ''68''" for b
    by (simp add: hashBody_def sample_lib_def sample_hex)
  have "fold (lib_others sample_lib) ns d = d" for ns and d :: db
    by (induction ns) (simp_all add: sample_lib_def)
  then show ?thesis
    using Handle_known_message [OF k s(1) p _ run] run s(2) quiet_sample_lib
    by (auto simp: d e h cmd_Validate_sample)
qed

end
