(* ===== verification/Http_Api.thy ===== *)
theory Http_Api
  imports Oidc Http_Text Wallet_Service Money_Json Consumer
begin

section \<open>The HTTP contract (internal/adapters/httpapi)\<close>

text \<open>
  Requests, responses, middleware, handlers and the router's table. The chi router chooses the
  route of a request and binds the parameters of its path; a request carries that choice. A
  response keeps its payload as the value \<open>writeJSON\<close> is given (rendering it is
  \<open>encoding/json\<close>'s), and a message that is the text of an error as that error. Nothing in the
  model panics, so \<open>Recoverer\<close> has nothing to do; logging is not modelled, and the middleware that
  counts requests is in \<open>Observability\<close>.
\<close>

datatype route =
    LiveRoute | ReadyRoute | MetricsRoute
  | OpenWalletRoute | GetWalletRoute | LedgerRoute | ReconcileRoute
  | SubmitRoute | GetTransactionRoute | GetByExternalRoute
  | Unrouted nat

text \<open>Absent headers, query values and parameters are empty strings, as \<open>Get\<close> returns them.\<close>

record http_request =
  hr_route :: route
  hr_header :: "string \<Rightarrow> string"
  hr_query :: "string \<Rightarrow> string"
  hr_param :: "string \<Rightarrow> string"
  hr_body :: string

text \<open>The values of the request's context.\<close>

record http_context =
  hc_principal :: "Principal option"
  hc_requestID :: string

subsection \<open>Payloads (dto.go)\<close>

record openWalletRequest =
  ow_PlayerID :: string
  ow_InitialBalance :: money

record submitTransactionRequest =
  sr_ProviderID :: string
  sr_ExternalTransactionID :: string
  sr_PlayerID :: string
  sr_WalletID :: string
  sr_RoundID :: string
  sr_GameID :: string
  sr_Kind :: string
  sr_Money :: money
  sr_ReferenceExternalTransactionID :: string

record walletResponse =
  wp_ID :: string
  wp_PlayerID :: string
  wp_Balance :: money
  wp_Version :: int64

record ledgerEntryResponse =
  lep_ID :: string
  lep_TransactionID :: string
  lep_Direction :: string
  lep_Money :: money
  lep_BalanceBefore :: money
  lep_BalanceAfter :: money
  lep_CreatedAt :: time

record ledgerResponse =
  lgp_Entries :: "ledgerEntryResponse list"
  lgp_NextCursor :: string

record submitTransactionResponse =
  sp_TransactionID :: string
  sp_Status :: string
  sp_Balance :: "money option"
  sp_FailureCode :: string
  sp_IdempotentReplay :: bool

record transactionResponse =
  tp_TransactionID :: string
  tp_ProviderID :: string
  tp_ExternalTransactionID :: string
  tp_PlayerID :: string
  tp_WalletID :: string
  tp_RoundID :: string
  tp_GameID :: string
  tp_Kind :: string
  tp_Status :: string
  tp_Money :: money
  tp_ReferenceExternalTransactionID :: string
  tp_FailureCode :: string
  tp_FailureCorrectable :: "bool option"
  tp_Balance :: "money option"
  tp_Attempts :: int64
  tp_CreatedAt :: time
  tp_UpdatedAt :: time

record reconciliationResponse =
  rp_WalletID :: string
  rp_StoredBalance :: money
  rp_CalculatedBalance :: money
  rp_Difference :: money
  rp_Consistent :: bool
  rp_CheckedEntries :: int64

text \<open>A message is a fixed text or the text of an error.\<close>

datatype response_message = FixedMessage string | MessageOf goerror

record errorResponse =
  er_Code :: string
  er_Message :: response_message
  er_Kind :: error_kind
  er_FailureCode :: string
  er_TransactionID :: string
  er_IdempotentReplay :: bool

datatype payload =
    ErrorBody errorResponse
  | WalletBody walletResponse
  | LedgerBody ledgerResponse
  | SubmitBody submitTransactionResponse
  | TransactionBody transactionResponse
  | ReconciliationBody reconciliationResponse
  | HealthBody "(string \<times> string) list"
  | LibraryBody

record response =
  rsp_status :: nat
  rsp_payload :: payload
  rsp_requestID :: string

subsection \<open>Errors (errors.go)\<close>

definition writeJSON :: "nat \<Rightarrow> payload \<Rightarrow> response io" where
  "writeJSON status payload = ret \<lparr>rsp_status = status, rsp_payload = payload, rsp_requestID = ''''\<rparr>"

definition statusForKind :: "error_kind \<Rightarrow> nat" where
  "statusForKind kind =
     (case kind of
        KindInvalid \<Rightarrow> 400
      | KindUnauthorized \<Rightarrow> 401
      | KindForbidden \<Rightarrow> 403
      | KindNotFound \<Rightarrow> 404
      | KindConflict \<Rightarrow> 409
      | KindRejected \<Rightarrow> 422
      | KindUnavailable \<Rightarrow> 503
      | KindInternal \<Rightarrow> 500)"

definition writeError :: "goerror \<Rightarrow> response io" where
  "writeError err =
     (let kind = KindOf err;
          code = (if CodeOf err = '''' then ''INTERNAL_ERROR'' else CodeOf err);
          message = (if kind = KindInternal then FixedMessage ''internal error'' else MessageOf err)
      in writeJSON (statusForKind kind) (ErrorBody
           \<lparr>er_Code = code, er_Message = message, er_Kind = kind, er_FailureCode = '''',
            er_TransactionID = '''', er_IdempotentReplay = False\<rparr>))"

definition writeRejection :: "string \<Rightarrow> string \<Rightarrow> string \<Rightarrow> bool \<Rightarrow> response io" where
  "writeRejection transactionID failureCode message idempotentReplay =
     writeJSON 422 (ErrorBody
       \<lparr>er_Code = failureCode, er_Message = FixedMessage message, er_Kind = KindRejected,
        er_FailureCode = failureCode, er_TransactionID = transactionID,
        er_IdempotentReplay = idempotentReplay\<rparr>)"

text \<open>
  \<open>decodeJSON\<close>: one JSON value without unknown fields in the first mebibyte of the body, and
  nothing but spaces after it within the limit.
\<close>

definition body_limit :: nat where
  "body_limit = 1048576"

definition decodeJSON :: "'a fields \<Rightarrow> 'a \<Rightarrow> string \<Rightarrow> 'a result" where
  "decodeJSON fs zero body =
     (let invalid = Inl (apperr_Wrap KindInvalid ''INVALID_JSON'' (Text ''request body is not valid JSON'') json_error)
      in case json_first (BeginValue, []) (take body_limit body) of
           None \<Rightarrow> invalid
         | Some (v, rest) \<Rightarrow>
             (case decode_struct True fs v zero of
                None \<Rightarrow> invalid
              | Some target \<Rightarrow>
                  if body_limit < length body \<or> \<not> list_all json_space rest
                  then Inl (apperr_New KindInvalid ''INVALID_JSON''
                         (Text ''request body must contain a single JSON object''))
                  else Inr target))"

definition openWalletRequest_fields :: "openWalletRequest fields" where
  "openWalletRequest_fields =
     [(''playerId'', decode_string (\<lambda>s r. r\<lparr>ow_PlayerID := s\<rparr>)),
      (''initialBalance'', decode_money (\<lambda>m r. r\<lparr>ow_InitialBalance := m\<rparr>))]"

definition submitTransactionRequest_fields :: "submitTransactionRequest fields" where
  "submitTransactionRequest_fields =
     [(''providerId'', decode_string (\<lambda>s r. r\<lparr>sr_ProviderID := s\<rparr>)),
      (''externalTransactionId'', decode_string (\<lambda>s r. r\<lparr>sr_ExternalTransactionID := s\<rparr>)),
      (''playerId'', decode_string (\<lambda>s r. r\<lparr>sr_PlayerID := s\<rparr>)),
      (''walletId'', decode_string (\<lambda>s r. r\<lparr>sr_WalletID := s\<rparr>)),
      (''roundId'', decode_string (\<lambda>s r. r\<lparr>sr_RoundID := s\<rparr>)),
      (''gameId'', decode_string (\<lambda>s r. r\<lparr>sr_GameID := s\<rparr>)),
      (''kind'', decode_string (\<lambda>s r. r\<lparr>sr_Kind := s\<rparr>)),
      (''money'', decode_money (\<lambda>m r. r\<lparr>sr_Money := m\<rparr>)),
      (''referenceExternalTransactionId'',
        decode_string (\<lambda>s r. r\<lparr>sr_ReferenceExternalTransactionID := s\<rparr>))]"

definition zero_openWalletRequest :: openWalletRequest where
  "zero_openWalletRequest = \<lparr>ow_PlayerID = '''', ow_InitialBalance = zero_money\<rparr>"

definition zero_submitRequest :: submitTransactionRequest where
  "zero_submitRequest = \<lparr>sr_ProviderID = '''', sr_ExternalTransactionID = '''', sr_PlayerID = '''',
     sr_WalletID = '''', sr_RoundID = '''', sr_GameID = '''', sr_Kind = '''', sr_Money = zero_money,
     sr_ReferenceExternalTransactionID = ''''\<rparr>"

text \<open>\<open>v, err := m; if err != nil { writeError(w, err); return }; k(v)\<close>.\<close>

definition or_writeError :: "'a io \<Rightarrow> ('a \<Rightarrow> response io) \<Rightarrow> response io" where
  "or_writeError m k = bindM (attempt m) (\<lambda>r. case r of Inl err \<Rightarrow> writeError err | Inr v \<Rightarrow> k v)"

subsection \<open>Middleware (middleware.go)\<close>

type_synonym handler = "http_context \<Rightarrow> http_request \<Rightarrow> response io"

definition RequestID :: "lib \<Rightarrow> handler \<Rightarrow> handler" where
  "RequestID L h ctx r =
     bindM (if hr_header r ''X-Request-Id'' \<noteq> '''' then ret (hr_header r ''X-Request-Id'')
            else if hr_header r ''X-Correlation-Id'' \<noteq> '''' then ret (hr_header r ''X-Correlation-Id'')
            else bindM (uuid_NewV7 L) (\<lambda>i. ret (lib_uuid_String L i))) (\<lambda>i.
     bindM (h (ctx\<lparr>hc_requestID := i\<rparr>) r) (\<lambda>resp. ret (resp\<lparr>rsp_requestID := i\<rparr>)))"

definition missing_token :: "string \<Rightarrow> goerror" where
  "missing_token msg = apperr_New KindUnauthorized ''MISSING_TOKEN'' (Text msg)"

definition bearer_token :: "http_request \<Rightarrow> string result" where
  "bearer_token r =
     (case Cut (hr_header r ''Authorization'') (CHR '' '') of (scheme, credentials, found) \<Rightarrow>
        if \<not> found \<or> \<not> EqualFold scheme ''Bearer''
        then Inl (missing_token ''Authorization bearer token is required'')
        else if TrimSpace credentials = ''''
        then Inl (missing_token ''Authorization bearer token is required'')
        else Inr (TrimSpace credentials))"

definition Authenticate :: "Verifier \<Rightarrow> handler \<Rightarrow> handler" where
  "Authenticate v h ctx r =
     or_writeError (lift (bearer_token r)) (\<lambda>rawToken.
     or_writeError (Verify v rawToken) (\<lambda>who.
     h (ctx\<lparr>hc_principal := Some who\<rparr>) r))"

definition forbidden :: "string \<Rightarrow> goerror" where
  "forbidden msg = apperr_New KindForbidden ''FORBIDDEN'' (Text msg)"

definition RequireRoles :: "string list \<Rightarrow> handler \<Rightarrow> handler" where
  "RequireRoles roles h ctx r =
     (case hc_principal ctx of
        None \<Rightarrow> writeError (missing_token ''authentication is required'')
      | Some who \<Rightarrow>
          if list_ex (HasRole who) roles then h ctx r
          else writeError (forbidden
            ''the authenticated identity is not allowed to perform this operation''))"

text \<open>\<open>authorizeProvider\<close>: the error it writes, or success.\<close>

definition authorizeProvider :: "http_context \<Rightarrow> string \<Rightarrow> unit result" where
  "authorizeProvider ctx providerID =
     (case hc_principal ctx of
        None \<Rightarrow> Inl (missing_token ''authentication is required'')
      | Some who \<Rightarrow>
          if HasRole who RoleInternal then Inr ()
          else if pr_ProviderID who \<noteq> '''' \<and> pr_ProviderID who = providerID then Inr ()
          else Inl (forbidden
            ''the authenticated identity cannot access another provider's transactions''))"

subsection \<open>Wagering (wagering.go)\<close>

definition parse_uuid :: "lib \<Rightarrow> string \<Rightarrow> string \<Rightarrow> string \<Rightarrow> uuid result" where
  "parse_uuid L raw code msg =
     wrap_error (apperr_Wrap KindInvalid code (Text msg)) (lib_uuid_Parse L raw)"

definition pathUUID :: "lib \<Rightarrow> http_request \<Rightarrow> string \<Rightarrow> uuid result" where
  "pathUUID L r parameter =
     parse_uuid L (hr_param r parameter) ''INVALID_IDENTIFIER'' (parameter @ '' must be a UUID'')"

definition submit_command ::
  "submitTransactionRequest \<Rightarrow> string \<Rightarrow> uuid \<Rightarrow> uuid \<Rightarrow> kind \<Rightarrow> string \<Rightarrow> ProcessCommand" where
  "submit_command request idempotencyKey playerID walletID k requestID =
     \<lparr>cmd_ProviderID = sr_ProviderID request,
      cmd_ExternalTransactionID = sr_ExternalTransactionID request,
      cmd_IdempotencyKey = idempotencyKey, cmd_PlayerID = playerID, cmd_WalletID = walletID,
      cmd_RoundID = sr_RoundID request, cmd_GameID = sr_GameID request, cmd_Kind = k,
      cmd_Money = sr_Money request,
      cmd_ReferenceExternalTransactionID = sr_ReferenceExternalTransactionID request,
      cmd_CorrelationID = requestID, cmd_CausationID = ''''\<rparr>"

definition toSubmitResponse :: "lib \<Rightarrow> Result \<Rightarrow> submitTransactionResponse" where
  "toSubmitResponse L result =
     \<lparr>sp_TransactionID = lib_uuid_String L (t_id (rs_Transaction result)),
      sp_Status = status_string (rs_Status result),
      sp_Balance = (if rs_HasBalance result then Some (rs_Balance result) else None),
      sp_FailureCode = rs_FailureCode result, sp_IdempotentReplay = rs_IdempotentReplay result\<rparr>"

definition toTransactionResponse :: "lib \<Rightarrow> transaction \<Rightarrow> transactionResponse" where
  "toTransactionResponse L t =
     \<lparr>tp_TransactionID = lib_uuid_String L (t_id t), tp_ProviderID = t_providerID t,
      tp_ExternalTransactionID = t_externalTransactionID t,
      tp_PlayerID = lib_uuid_String L (t_playerID t), tp_WalletID = lib_uuid_String L (t_walletID t),
      tp_RoundID = t_roundID t, tp_GameID = t_gameID t, tp_Kind = kind_string (t_kind t),
      tp_Status = status_string (t_status t), tp_Money = t_amount t,
      tp_ReferenceExternalTransactionID = t_referenceExternalTransactionID t,
      tp_FailureCode = t_failureCode t,
      tp_FailureCorrectable =
        (if t_failureCode t \<noteq> '''' then Some (IsCorrectableFailure (t_failureCode t)) else None),
      tp_Balance = t_resultBalance t, tp_Attempts = t_attempts t, tp_CreatedAt = t_createdAt t,
      tp_UpdatedAt = t_updatedAt t\<rparr>"

definition submit_response :: "lib \<Rightarrow> Result \<Rightarrow> response io" where
  "submit_response L result =
     (let resp = toSubmitResponse L result in
      if rs_Status result = StatusRejected
      then writeRejection (sp_TransactionID resp) (rs_FailureCode result)
             ''operation rejected by a business rule'' (rs_IdempotentReplay result)
      else if rs_Status result = StatusPending \<or> rs_Status result = StatusPendingReference
      then writeJSON 202 (SubmitBody resp)
      else if rs_IdempotentReplay result then writeJSON 200 (SubmitBody resp)
      else writeJSON 201 (SubmitBody resp))"

definition idempotency_key :: "http_request \<Rightarrow> string result" where
  "idempotency_key r =
     (let k = TrimSpace (hr_header r ''Idempotency-Key'') in
      if k = '''' then Inl (apperr_New KindInvalid ''MISSING_IDEMPOTENCY_KEY''
        (Text ''the Idempotency-Key header is required''))
      else Inr k)"

definition submit_handler :: "lib \<Rightarrow> Config \<Rightarrow> handler" where
  "submit_handler L c ctx r =
     or_writeError (lift (idempotency_key r)) (\<lambda>key.
     or_writeError (lift (decodeJSON submitTransactionRequest_fields zero_submitRequest (hr_body r))) (\<lambda>request.
     or_writeError (lift (authorizeProvider ctx (sr_ProviderID request))) (\<lambda>_.
     or_writeError (lift (parse_uuid L (sr_PlayerID request) ''INVALID_PLAYER_ID''
         ''playerId must be a UUID'')) (\<lambda>playerID.
     or_writeError (lift (parse_uuid L (sr_WalletID request) ''INVALID_WALLET_ID''
         ''walletId must be a UUID'')) (\<lambda>walletID.
     or_writeError (lift (ParseKind (sr_Kind request))) (\<lambda>k.
     or_writeError (Process L c (submit_command request key playerID walletID k (hc_requestID ctx)))
       (submit_response L)))))))"

definition get_transaction_handler :: "lib \<Rightarrow> handler" where
  "get_transaction_handler L ctx r =
     or_writeError (lift (pathUUID L r ''transactionId'')) (\<lambda>transactionID.
     or_writeError (GetTransaction L transactionID) (\<lambda>t.
     or_writeError (lift (authorizeProvider ctx (t_providerID t))) (\<lambda>_.
     writeJSON 200 (TransactionBody (toTransactionResponse L t)))))"

definition get_by_external_handler :: "lib \<Rightarrow> handler" where
  "get_by_external_handler L ctx r =
     or_writeError (lift (authorizeProvider ctx (hr_param r ''providerId''))) (\<lambda>_.
     or_writeError (GetByProviderExternal L (hr_param r ''providerId'') (hr_param r ''externalTransactionId''))
       (\<lambda>t.
     writeJSON 200 (TransactionBody (toTransactionResponse L t))))"

subsection \<open>Wallets (wallets.go)\<close>

definition toWalletResponse :: "lib \<Rightarrow> wallet \<Rightarrow> walletResponse" where
  "toWalletResponse L w =
     \<lparr>wp_ID = lib_uuid_String L (w_id w), wp_PlayerID = lib_uuid_String L (w_playerID w),
      wp_Balance = w_balance w, wp_Version = w_version w\<rparr>"

definition open_handler :: "lib \<Rightarrow> handler" where
  "open_handler L ctx r =
     or_writeError (lift (decodeJSON openWalletRequest_fields zero_openWalletRequest (hr_body r))) (\<lambda>request.
     or_writeError (lift (parse_uuid L (ow_PlayerID request) ''INVALID_PLAYER_ID''
         ''playerId must be a UUID'')) (\<lambda>playerID.
     or_writeError (wallets_Open L \<lparr>oc_PlayerID = playerID, oc_InitialBalance = ow_InitialBalance request,
         oc_CorrelationID = hc_requestID ctx\<rparr>) (\<lambda>opened.
     writeJSON 201 (WalletBody (toWalletResponse L opened)))))"

definition get_wallet_handler :: "lib \<Rightarrow> handler" where
  "get_wallet_handler L ctx r =
     or_writeError (lift (pathUUID L r ''walletId'')) (\<lambda>walletID.
     or_writeError (wallets_Get L walletID) (\<lambda>found.
     writeJSON 200 (WalletBody (toWalletResponse L found))))"

definition toLedgerEntryResponse :: "lib \<Rightarrow> entry \<Rightarrow> ledgerEntryResponse" where
  "toLedgerEntryResponse L e =
     \<lparr>lep_ID = lib_uuid_String L (e_id e), lep_TransactionID = lib_uuid_String L (e_transactionID e),
      lep_Direction = direction_string (e_direction e), lep_Money = e_amount e,
      lep_BalanceBefore = e_balanceBefore e, lep_BalanceAfter = e_balanceAfter e,
      lep_CreatedAt = e_createdAt e\<rparr>"

definition toLedgerResponse :: "lib \<Rightarrow> LedgerPage \<Rightarrow> ledgerResponse" where
  "toLedgerResponse L page =
     \<lparr>lgp_Entries = map (toLedgerEntryResponse L) (lp_Entries page),
      lgp_NextCursor =
        (if lp_HasMore page \<and> lp_Entries page \<noteq> []
         then (let final = last (lp_Entries page) in
               encodeCursor (lib_uuid_String L) (e_createdAt final) (e_id final))
         else '''')\<rparr>"

definition ledger_handler :: "lib \<Rightarrow> handler" where
  "ledger_handler L ctx r =
     or_writeError (lift (pathUUID L r ''walletId'')) (\<lambda>walletID.
     or_writeError (lift (parseLimit (hr_query r ''limit'') 50)) (\<lambda>limit.
     or_writeError (lift (decodeCursor (lib_uuid_Parse L) (hr_query r ''cursor''))) (\<lambda>cursor.
     or_writeError (wallets_Ledger L walletID cursor limit) (\<lambda>page.
     writeJSON 200 (LedgerBody (toLedgerResponse L page))))))"

definition reconcile_handler :: "lib \<Rightarrow> handler" where
  "reconcile_handler L ctx r =
     or_writeError (lift (pathUUID L r ''walletId'')) (\<lambda>walletID.
     or_writeError (wallets_Reconcile L walletID) (\<lambda>result.
     writeJSON 200 (ReconciliationBody
       \<lparr>rp_WalletID = lib_uuid_String L (rc_WalletID result), rp_StoredBalance = rc_StoredBalance result,
        rp_CalculatedBalance = rc_CalculatedBalance result, rp_Difference = rc_Difference result,
        rp_Consistent = rc_Consistent result, rp_CheckedEntries = rc_CheckedEntries result\<rparr>)))"

subsection \<open>Health (health.go)\<close>

text \<open>Whether PostgreSQL and SQS answer a ping, at each step of the world.\<close>

record health_probes =
  hp_database :: "nat \<Rightarrow> bool"
  hp_queue :: "nat \<Rightarrow> bool"

definition live_handler :: handler where
  "live_handler ctx r = writeJSON 200 (HealthBody [(''status'', ''alive'')])"

definition ready_handler :: "health_probes \<Rightarrow> handler" where
  "ready_handler probes ctx r w =
     (let db_ok = hp_database probes (wd_step w); queue_ok = hp_queue probes (wd_step w);
          ready = (db_ok \<and> queue_ok)
      in writeJSON (if ready then 200 else 503) (HealthBody
           [(''status'', if ready then ''ready'' else ''not_ready''),
            (''postgres'', if db_ok then ''ok'' else ''unavailable''),
            (''sqs'', if queue_ok then ''ok'' else ''unavailable'')]) w)"

subsection \<open>The router (router.go)\<close>

record http_api =
  ap_config :: Config
  ap_verifier :: Verifier
  ap_probes :: health_probes

definition internal_only :: "http_api \<Rightarrow> handler \<Rightarrow> handler" where
  "internal_only api h = Authenticate (ap_verifier api) (RequireRoles [RoleInternal] h)"

definition provider_or_internal :: "http_api \<Rightarrow> handler \<Rightarrow> handler" where
  "provider_or_internal api h = Authenticate (ap_verifier api) (RequireRoles [RoleProvider, RoleInternal] h)"

definition route_handler :: "lib \<Rightarrow> http_api \<Rightarrow> route \<Rightarrow> handler" where
  "route_handler L api route =
     (case route of
        LiveRoute \<Rightarrow> live_handler
      | ReadyRoute \<Rightarrow> ready_handler (ap_probes api)
      | MetricsRoute \<Rightarrow> (\<lambda>ctx r. writeJSON 200 LibraryBody)
      | OpenWalletRoute \<Rightarrow> internal_only api (open_handler L)
      | GetWalletRoute \<Rightarrow> internal_only api (get_wallet_handler L)
      | LedgerRoute \<Rightarrow> internal_only api (ledger_handler L)
      | ReconcileRoute \<Rightarrow> internal_only api (reconcile_handler L)
      | SubmitRoute \<Rightarrow> provider_or_internal api (submit_handler L (ap_config api))
      | GetTransactionRoute \<Rightarrow> provider_or_internal api (get_transaction_handler L)
      | GetByExternalRoute \<Rightarrow> provider_or_internal api (get_by_external_handler L)
      | Unrouted status \<Rightarrow> (\<lambda>ctx r. writeJSON status LibraryBody))"

definition ServeHTTP :: "lib \<Rightarrow> http_api \<Rightarrow> http_request \<Rightarrow> response io" where
  "ServeHTTP L api r =
     RequestID L (route_handler L api (hr_route r)) \<lparr>hc_principal = None, hc_requestID = ''''\<rparr> r"

end
