(* ===== verification/Sqs_Consumer.thy ===== *)
theory Sqs_Consumer
  imports Consumer Sqs_Client Go_Text "HOL-Library.Sublist"
begin

section \<open>The queue consumer (internal/adapters/sqs/consumer.go)\<close>

text \<open>
  The consumer polls the transactions queue and hands each message to the handler of wager
  messages. What a poll returns is an argument; the visibility of messages and the waiting
  between polls are the broker's and the clock's, not modelled.
\<close>

text \<open>\<open>types.Message\<close> of the SDK, whose strings are pointers.\<close>

record sqs_message =
  sm_MessageId :: "string option"
  sm_ReceiptHandle :: "string option"
  sm_Body :: "string option"
  sm_Attributes :: "(string \<times> string) list"

definition valueOr :: "string option \<Rightarrow> string \<Rightarrow> string" where
  "valueOr v fallback = (case v of None \<Rightarrow> fallback | Some s \<Rightarrow> s)"

definition receiveCount :: "sqs_message \<Rightarrow> int" where
  "receiveCount m =
     (case map_of (sm_Attributes m) ''ApproximateReceiveCount'' of
        None \<Rightarrow> 1
      | Some raw \<Rightarrow> (case Atoi raw of None \<Rightarrow> 1 | Some count \<Rightarrow> count))"

definition received :: "sqs_message \<Rightarrow> ReceivedMessage" where
  "received m =
     \<lparr>rm_MessageID = valueOr (sm_MessageId m) '''', rm_ReceiptHandle = valueOr (sm_ReceiptHandle m) '''',
      rm_Body = valueOr (sm_Body m) '''', rm_ReceiveCount = receiveCount m\<rparr>"

text \<open>The result of the handler decides; errors of the broker are only logged.\<close>

definition processOne :: "lib \<Rightarrow> Config \<Rightarrow> sqs_client \<Rightarrow> sqs_message \<Rightarrow> unit io" where
  "processOne L c q message =
     (let rm = received message;
          delete = attempt (deleteMessage L (cl_transactionsQueueURL q) (rm_ReceiptHandle rm)) in
      bindM (attempt (Handle L c rm)) (\<lambda>r. case r of
        Inr _ \<Rightarrow> bindM delete (\<lambda>_. ret ())
      | Inl err \<Rightarrow>
          if IsPermanent err
          then bindM (attempt (sendToDLQ L q (rm_Body rm) (rm_MessageID rm))) (\<lambda>sent. case sent of
                 Inl _ \<Rightarrow> ret ()
               | Inr _ \<Rightarrow>
                   bindM (record_metric (RecordDLQMessage (cl_DLQName q))) (\<lambda>_.
                   bindM delete (\<lambda>_. ret ())))
          else ret ()))"

fun process_all :: "lib \<Rightarrow> Config \<Rightarrow> sqs_client \<Rightarrow> sqs_message list \<Rightarrow> unit io" where
  "process_all L c q [] = ret ()"
| "process_all L c q (m # ms) = bindM (processOne L c q m) (\<lambda>_. process_all L c q ms)"

definition second :: duration where
  "second = 1000000000"

definition NewConsumer_grace :: "duration \<Rightarrow> duration" where
  "NewConsumer_grace grace = (if sint grace \<le> 0 then 20 * second else grace)"

text \<open>
  \<open>Run\<close>, given what each poll before the cancellation returns; the value is the backoff at the
  end.
\<close>

fun consumer_polls ::
  "lib \<Rightarrow> Config \<Rightarrow> sqs_client \<Rightarrow> sqs_message list result list \<Rightarrow> duration \<Rightarrow> duration io" where
  "consumer_polls L c q [] backoff = ret backoff"
| "consumer_polls L c q (Inl err # polls) backoff =
     consumer_polls L c q polls (if sint backoff < sint (30 * second) then backoff * 2 else backoff)"
| "consumer_polls L c q (Inr messages # polls) backoff =
     bindM (process_all L c q messages) (\<lambda>_. consumer_polls L c q polls second)"

definition consumer_Run :: "lib \<Rightarrow> Config \<Rightarrow> sqs_client \<Rightarrow> sqs_message list result list \<Rightarrow> duration io" where
  "consumer_Run L c q polls = consumer_polls L c q polls second"

subsection \<open>What a message makes the consumer send\<close>

lemma silent_repositories [silent_rules]:
  "silent (wallets_GetByID L i)" "silent (wallets_UpdateBalance L w v)"
  "silent (transactions_Insert L t)" "silent (transactions_Update L t)"
  "silent (transactions_GetByID L i)" "silent (transactions_GetByProviderExternal L p x)"
  "silent (transactions_GetByProviderIdempotencyKey L p x)"
  "silent (transactions_FindReversal L i k)" "silent (transactions_WakeDependents L p x now)"
  "silent (ledgers_Insert L e)" "silent (outbox_Insert L oe)"
  "silent (inbox_Claim L cn m h now)" "silent (inbox_Complete L cn m now)"
  unfolding io_defs inbox_Claim_def inbox_get_def inbox_Complete_def by (intro silent_rules)+

lemma silent_operations [silent_rules]:
  "silent (enqueue L a ev)" "silent (replay tr h)" "silent (resolveReference L tr)" "silent (note_conflict e)"
  unfolding enqueue_def replay_def resolveReference_def note_conflict_def by (intro silent_rules)+

lemma silent_reject [silent_rules]: "silent (reject L tr w code now corr)"
  and silent_markProcessed [silent_rules]: "silent (markProcessed L tr b now corr)"
  unfolding reject_def markProcessed_def by (intro silent_rules)+

lemma silent_move [silent_rules]: "silent (move L tr w dir ref now corr)"
  and silent_retry [silent_rules]: "silent (scheduleReferenceRetry L c tr now corr)"
  unfolding move_def record_movement_def announce_movement_def scheduleReferenceRetry_def Let_def
  by (intro silent_rules)+

lemma silent_processOnce [silent_rules]: "silent (processOnce L c cmd h)"
  unfolding processOnce_def process_new_def applyOperation_def applyReversal_def handleReferenceError_def
  by (intro silent_rules)

lemma silent_process_loop [silent_rules]: "silent (process_loop L c cmd h n e)"
  by (induction n arbitrary: e) (auto intro!: silent_rules)

lemma silent_Handle: "silent (Handle L c message)"
  unfolding Handle_def handle_once_def Process_def Let_def by (intro silent_rules)

text \<open>A request to the broker is accepted or not.\<close>

lemma broker_call_log:
  assumes "broker_call L op w = (r, w')"
  shows "wd_broker w' = wd_broker w @ [op] \<or> wd_broker w' = wd_broker w \<and> (\<exists>s. r = Inl (LibError s))"
  using assms by (auto simp: broker_call_def Let_def split: broker_outcome.splits)

text \<open>The message a refused body becomes in the dead-letter queue.\<close>

definition dead_letter :: "sqs_client \<Rightarrow> string \<Rightarrow> broker_op \<Rightarrow> bool" where
  "dead_letter q body op \<longleftrightarrow> (\<exists>dedup. op = SendMessage (cl_transactionsDLQURL q) body ''dlq'' dedup)"

lemma sendToDLQ_log:
  assumes "sendToDLQ L q body i w = (r, w')"
  shows "(\<exists>op. dead_letter q body op \<and> wd_broker w' = wd_broker w @ [op]) \<or>
    wd_broker w' = wd_broker w \<and> r \<noteq> Inr ()"
proof -
  obtain x w1 where b: "broker_call L (SendMessage (cl_transactionsDLQURL q) body ''dlq''
      (''dlq-'' @ i @ ''-'' @ int_str (sint (UnixNano (lib_clock L (wd_step w)))))) (tick L w) = (x, w1)"
    by (metis prod.collapse)
  have w: "w' = w1" "r = Inr () \<longrightarrow> x = Inr ()"
    using assms b by (auto simp: sendToDLQ_def bindM_def read_clock_def on_error_def split: sum.splits)
  show ?thesis using broker_call_log [OF b] w by (auto simp: dead_letter_def)
qed

lemma delete_log:
  assumes "attempt (deleteMessage L u h) w = (r, w')"
  shows "wd_broker w' = wd_broker w @ [DeleteMessage u h] \<or> wd_broker w' = wd_broker w"
  using assms broker_call_log [of L "DeleteMessage u h" w]
  by (auto simp: attempt_def deleteMessage_def split: prod.splits)

subsection \<open>Properties\<close>

text \<open>
  (C12) No message is lost: the consumer deletes a message from its queue only after the handler
  has returned without an error (then its effects are committed), or after the dead-letter
  queue has accepted its body because the handler refused it for good; for any other error it
  sends nothing, so the broker delivers the message again.
\<close>

theorem message_deleted_only_when_done:
  "\<exists>sent. wd_broker (snd (processOne L c q message w)) = wd_broker w @ sent \<and>
    (case fst (Handle L c (received message) w) of
       Inr _ \<Rightarrow> prefix sent [DeleteMessage (cl_transactionsQueueURL q) (rm_ReceiptHandle (received message))]
     | Inl err \<Rightarrow>
         if IsPermanent err
         then sent = [] \<or> (\<exists>letter. dead_letter q (rm_Body (received message)) letter \<and>
                prefix sent [letter, DeleteMessage (cl_transactionsQueueURL q) (rm_ReceiptHandle (received message))])
         else sent = [])"
proof -
  obtain h w1 where h: "Handle L c (received message) w = (h, w1)" by (metis prod.collapse)
  have log: "wd_broker w1 = wd_broker w" using silent_broker [OF silent_Handle h] .
  obtain y w2 where d1: "attempt (deleteMessage L (cl_transactionsQueueURL q) (rm_ReceiptHandle (received message))) w1 = (y, w2)"
    by (metis prod.collapse)
  show ?thesis
  proof (cases h)
    case (Inr u)
    obtain z where z: "y = Inr z" using d1 by (auto simp: attempt_def split: prod.splits)
    have "snd (processOne L c q message w) = w2"
      using h Inr d1 z by (simp add: processOne_def Let_def bindM_def attempt_def [of "Handle L c _"] ret_def)
    then show ?thesis using delete_log [OF d1] log h Inr by auto
  next
    case (Inl err)
    note failed = this
    show ?thesis
    proof (cases "IsPermanent err")
      case False
      then show ?thesis
        using h failed log by (simp add: processOne_def Let_def bindM_def attempt_def ret_def)
    next
      case True
      obtain s w3 where s: "sendToDLQ L q (rm_Body (received message)) (rm_MessageID (received message)) w1 = (s, w3)" by (metis prod.collapse)
      show ?thesis
      proof (cases s)
        case (Inl e)
        then have "snd (processOne L c q message w) = w3"
          using h failed True s
          by (simp add: processOne_def Let_def bindM_def attempt_def ret_def)
        then show ?thesis using sendToDLQ_log [OF s] log h failed True by auto
      next
        case (Inr u)
        let ?w4 = "w3\<lparr>wd_metrics := wd_metrics w3 @ [RecordDLQMessage (cl_DLQName q)]\<rparr>"
        obtain v w5 where d: "attempt (deleteMessage L (cl_transactionsQueueURL q) (rm_ReceiptHandle (received message))) ?w4 = (v, w5)"
          by (metis prod.collapse)
        obtain z where z: "v = Inr z" using d by (auto simp: attempt_def split: prod.splits)
        have "snd (processOne L c q message w) = w5"
          using h failed True s Inr d z
          by (simp add: processOne_def Let_def bindM_def record_metric_def ret_def
              attempt_def [of "Handle L c _"] attempt_def [of "sendToDLQ L q _ _"])
        then show ?thesis using sendToDLQ_log [OF s] delete_log [OF d] log h failed True Inr by auto
      qed
    qed
  qed
qed

end
