(* ===== verification/Service.thy ===== *)
theory Service
  imports Workers Http_Api Sqs_Consumer
begin

section \<open>The service as a whole\<close>

text \<open>
  The parts of the service put together as in internal/bootstrap/app.go, and what is asked of it
  from outside: an HTTP request, a message of the queue, an iteration of the reference resolver,
  an iteration of the outbox publisher. Any sequence of them is served.
\<close>

record service =
  se_api :: http_api
  se_queues :: sqs_client
  se_publisher :: publisher_config
  se_batch :: int64

datatype service_request =
    HttpRequest http_request
  | DeliverMessage sqs_message
  | ResolverTick
  | PublisherTick

fun perform :: "lib \<Rightarrow> service \<Rightarrow> service_request \<Rightarrow> unit io" where
  "perform L s (HttpRequest r) = bindM (ServeHTTP L (se_api s) r) (\<lambda>_. ret ())"
| "perform L s (DeliverMessage m) = processOne L (ap_config (se_api s)) (se_queues s) m"
| "perform L s ResolverTick = worker_step (Resolver_iteration L (ap_config (se_api s)) (se_batch s))"
| "perform L s PublisherTick = worker_step (Publisher_iteration L (se_queues s) (se_publisher s))"

fun serve :: "lib \<Rightarrow> service \<Rightarrow> service_request list \<Rightarrow> unit io" where
  "serve L s [] = ret ()"
| "serve L s (r # rs) = bindM (perform L s r) (\<lambda>_. serve L s rs)"

end
