(* ===== verification/History.thy ===== *)
theory History
  imports Invariants Inbox Outbox
begin

section \<open>The integrity and the history of the data\<close>

text \<open>
  Two relations on databases: the integrity of the data (no identifier, external transaction,
  idempotency key, reversal, ledger entry or message twice, no dangling reference, every row
  passes its checks), and the append-only history (the ledger only grows, terminal transactions
  and published events never change, versions never go back). Every statement keeps both.
\<close>

subsection \<open>Integrity of the data\<close>

text \<open>A table in which no two rows clash.\<close>

definition table :: "('r \<Rightarrow> 'r \<Rightarrow> bool) \<Rightarrow> 'r list \<Rightarrow> bool" where
  "table clash rs \<longleftrightarrow> sorted_wrt (\<lambda>a b. \<not> clash a b) rs"

lemma table_append: "table clash (rs @ [r]) \<longleftrightarrow> table clash rs \<and> (\<forall>q \<in> set rs. \<not> clash q r)"
  by (auto simp: table_def sorted_wrt_append)

lemma table_unique:
  "table clash rs \<Longrightarrow> a \<in> set rs \<Longrightarrow> b \<in> set rs \<Longrightarrow> clash a b \<Longrightarrow> clash b a \<Longrightarrow> a = b"
  unfolding table_def by (induction rs) auto

lemma table_map:
  assumes "table clash rs"
    and "\<And>a b. a \<in> set rs \<Longrightarrow> b \<in> set rs \<Longrightarrow> \<not> clash a b \<Longrightarrow> \<not> clash (f a) (f b)"
  shows "table clash (map f rs)"
  using assms unfolding table_def sorted_wrt_map by (rule sorted_wrt_mono_rel [rotated])

definition wallet_clash :: "wallet_row \<Rightarrow> wallet_row \<Rightarrow> bool" where
  "wallet_clash a b \<longleftrightarrow>
     wr_id a = wr_id b \<or> wr_player_id a = wr_player_id b \<and> wr_currency a = wr_currency b"

definition tx_clash :: "tx_row \<Rightarrow> tx_row \<Rightarrow> bool" where
  "tx_clash a b \<longleftrightarrow>
     tr_id a = tr_id b \<or>
     tr_origin a = ''EXTERNAL'' \<and> tr_origin b = ''EXTERNAL'' \<and>
       same_key (tr_provider_id a) (tr_provider_id b) \<and>
       (same_key (tr_external_transaction_id a) (tr_external_transaction_id b) \<or>
        same_key (tr_idempotency_key a) (tr_idempotency_key b)) \<or>
     counts_as_reversal a \<and> counts_as_reversal b \<and> tr_kind a = tr_kind b \<and>
       same_key (tr_reference_transaction_id a) (tr_reference_transaction_id b) \<or>
     tr_kind a = ''OPENING'' \<and> tr_kind b = ''OPENING'' \<and> tr_wallet_id a = tr_wallet_id b"

definition ledger_clash :: "ledger_row \<Rightarrow> ledger_row \<Rightarrow> bool" where
  "ledger_clash a b \<longleftrightarrow>
     lr_id a = lr_id b \<or> lr_wallet_id a = lr_wallet_id b \<and> lr_transaction_id a = lr_transaction_id b"

definition outbox_clash :: "outbox_row \<Rightarrow> outbox_row \<Rightarrow> bool" where
  "outbox_clash a b \<longleftrightarrow> or_event_id a = or_event_id b"

definition inbox_clash :: "inbox_row \<Rightarrow> inbox_row \<Rightarrow> bool" where
  "inbox_clash a b \<longleftrightarrow>
     ir_id a = ir_id b \<or> ir_consumer_name a = ir_consumer_name b \<and> ir_message_id a = ir_message_id b"

definition references_ok :: "db \<Rightarrow> bool" where
  "references_ok d \<longleftrightarrow>
     (\<forall>t \<in> set (db_transactions d). (\<exists>w \<in> set (db_wallets d). wr_id w = tr_wallet_id t) \<and>
        (\<forall>i. tr_reference_transaction_id t = Some i \<longrightarrow> (\<exists>q \<in> set (db_transactions d). tr_id q = i))) \<and>
     (\<forall>l \<in> set (db_ledger d). (\<exists>w \<in> set (db_wallets d). wr_id w = lr_wallet_id l) \<and>
        (\<exists>t \<in> set (db_transactions d). tr_id t = lr_transaction_id l))"

text \<open>Every row satisfies the CHECK constraints of its table.\<close>

definition checked :: "db \<Rightarrow> bool" where
  "checked d \<longleftrightarrow>
     (\<forall>r \<in> set (db_wallets d). list_all snd (wallet_checks r)) \<and>
     (\<forall>r \<in> set (db_transactions d). list_all snd (tx_checks r)) \<and>
     (\<forall>r \<in> set (db_ledger d). list_all snd (ledger_checks r)) \<and>
     (\<forall>r \<in> set (db_outbox d). in_int4 (or_attempts r) \<and> 0 \<le> sint (or_attempts r)) \<and>
     (\<forall>r \<in> set (db_inbox d). ir_status r \<in> {''RECEIVED'', ''COMPLETED''})"

definition db_integrity :: "db \<Rightarrow> bool" where
  "db_integrity d \<longleftrightarrow>
     table wallet_clash (db_wallets d) \<and> table tx_clash (db_transactions d) \<and>
     table ledger_clash (db_ledger d) \<and> table outbox_clash (db_outbox d) \<and>
     table inbox_clash (db_inbox d) \<and> references_ok d \<and> checked d"

subsection \<open>The history of the data\<close>

text \<open>Every row is still there, in a later state.\<close>

definition carried :: "('r \<Rightarrow> 'r \<Rightarrow> bool) \<Rightarrow> 'r list \<Rightarrow> 'r list \<Rightarrow> bool" where
  "carried later rs rs' \<longleftrightarrow> (\<forall>r \<in> set rs. \<exists>r' \<in> set rs'. later r r')"

lemma carried_refl: "(\<And>r. later r r) \<Longrightarrow> carried later rs rs"
  by (auto simp: carried_def)

lemma carried_append: "(\<And>r. later r r) \<Longrightarrow> carried later rs (rs @ [q])"
  by (auto simp: carried_def)

lemma carried_map: "(\<And>r. r \<in> set rs \<Longrightarrow> later r (f r)) \<Longrightarrow> carried later rs (map f rs)"
  by (auto simp: carried_def)

lemma carried_trans:
  "carried later a b \<Longrightarrow> carried later b c \<Longrightarrow> (\<And>x y z. later x y \<Longrightarrow> later y z \<Longrightarrow> later x z) \<Longrightarrow>
   carried later a c"
  unfolding carried_def by meson

definition wallet_later :: "wallet_row \<Rightarrow> wallet_row \<Rightarrow> bool" where
  "wallet_later a b \<longleftrightarrow>
     wr_id b = wr_id a \<and> wr_player_id b = wr_player_id a \<and> wr_currency b = wr_currency a \<and>
     wr_created_at b = wr_created_at a \<and>
     (b = a \<or> sint (wr_version a) < sint (wr_version b))"

text \<open>The columns of a transaction that are written once.\<close>

definition tx_identity :: "tx_row \<Rightarrow> tx_row" where
  "tx_identity = tx_row_set None '''' None None 0 None 0"

definition tx_later :: "tx_row \<Rightarrow> tx_row \<Rightarrow> bool" where
  "tx_later a b \<longleftrightarrow> tx_identity b = tx_identity a \<and> (is_pending_row a \<or> b = a)"

definition event_identity :: "outbox_row \<Rightarrow> uuid \<times> uuid \<times> string \<times> string \<times> time \<times> time" where
  "event_identity r =
     (or_event_id r, or_aggregate_id r, or_event_type r, or_payload r, or_occurred_at r, or_created_at r)"

definition event_later :: "outbox_row \<Rightarrow> outbox_row \<Rightarrow> bool" where
  "event_later a b \<longleftrightarrow> event_identity b = event_identity a \<and> (unpublished a \<or> b = a)"

definition message_later :: "inbox_row \<Rightarrow> inbox_row \<Rightarrow> bool" where
  "message_later a b \<longleftrightarrow>
     ir_id b = ir_id a \<and> ir_consumer_name b = ir_consumer_name a \<and> ir_message_id b = ir_message_id a \<and>
     ir_payload_hash b = ir_payload_hash a \<and> ir_received_at b = ir_received_at a \<and>
     (ir_status a = ''COMPLETED'' \<longrightarrow> ir_status b = ''COMPLETED'')"

definition history_kept :: "db \<Rightarrow> db \<Rightarrow> bool" where
  "history_kept d d' \<longleftrightarrow>
     set (db_ledger d) \<subseteq> set (db_ledger d') \<and>
     carried wallet_later (db_wallets d) (db_wallets d') \<and>
     carried tx_later (db_transactions d) (db_transactions d') \<and>
     carried event_later (db_outbox d) (db_outbox d') \<and>
     carried message_later (db_inbox d) (db_inbox d')"

lemma later_refl [simp]: "wallet_later a a" "tx_later t t" "event_later e e" "message_later m m"
  by (simp_all add: wallet_later_def tx_later_def event_later_def message_later_def)

lemma later_trans:
  "wallet_later a b \<Longrightarrow> wallet_later b c \<Longrightarrow> wallet_later a c"
  "tx_later s t \<Longrightarrow> tx_later t u \<Longrightarrow> tx_later s u"
  "event_later e f \<Longrightarrow> event_later f g \<Longrightarrow> event_later e g"
  "message_later m n \<Longrightarrow> message_later n k \<Longrightarrow> message_later m k"
  by (auto simp: wallet_later_def tx_later_def event_later_def message_later_def is_pending_row_def)

lemma history_kept_refl [simp]: "history_kept d d"
  by (simp add: history_kept_def carried_refl)

lemma history_kept_trans: "history_kept a b \<Longrightarrow> history_kept b c \<Longrightarrow> history_kept a c"
  unfolding history_kept_def by (blast intro: carried_trans later_trans)

text \<open>A step that keeps both.\<close>

definition sound_step :: "db \<Rightarrow> db \<Rightarrow> bool" where
  "sound_step d d' \<longleftrightarrow> db_integrity d' \<and> history_kept d d'"

lemma violation_passes:
  "violation cs us fs = None \<longleftrightarrow>
     list_all snd cs \<and> list_all (\<lambda>u. \<not> snd u) us \<and> list_all snd fs"
  by (simp add: violation_None list_all_iff)

subsection \<open>Every statement is a sound step\<close>

lemma sound_insert_wallet:
  assumes "db_integrity d" and "sql_insert_wallet r d = Inr (u, d')"
  shows "sound_step d d'"
  using assms
  by (auto simp: sql_insert_wallet_def violation_passes sound_step_def db_integrity_def history_kept_def
      table_append wallet_uniques_def wallet_clash_def references_ok_def checked_def carried_refl carried_append
      split: option.splits)

lemma tx_clash_sym: "tx_clash a b \<Longrightarrow> tx_clash b a"
  unfolding tx_clash_def same_key_def by metis

lemma tx_uniques_clash:
  assumes "list_all (\<lambda>u. \<not> snd u) (tx_uniques rs r)" and "q \<in> set rs"
  shows "\<not> tx_clash q r"
  using assms by (auto simp: tx_uniques_def tx_clash_def reversal_conflict_def)

lemma sound_insert_tx:
  assumes "db_integrity d" and "sql_insert_tx r d = Inr (u, d')"
  shows "sound_step d d'"
proof -
  have v: "violation (tx_checks r) (tx_uniques (db_transactions d) r) (tx_fks d r) = None"
    and d': "d' = d\<lparr>db_transactions := db_transactions d @ [r]\<rparr>"
    using assms(2) by (auto simp: sql_insert_tx_def split: option.splits if_splits)
  have "\<forall>q \<in> set (db_transactions d). \<not> tx_clash q r"
    using v tx_uniques_clash by (auto simp: violation_passes)
  moreover have "references_ok d'"
    using v assms(1) unfolding d'
    by (auto simp: violation_passes tx_fks_def references_ok_def db_integrity_def split: option.splits)
  ultimately show ?thesis
    using v assms(1) unfolding d'
    by (auto simp: sound_step_def db_integrity_def history_kept_def table_append checked_def violation_passes
        carried_refl carried_append)
qed

lemma sound_insert_ledger:
  assumes "db_integrity d" and "sql_insert_ledger r d = Inr (u, d')"
  shows "sound_step d d'"
  using assms
  by (auto simp: sql_insert_ledger_def violation_passes sound_step_def db_integrity_def history_kept_def
      table_append ledger_uniques_def ledger_clash_def ledger_fks_def references_ok_def checked_def
      carried_refl carried_append split: option.splits)

lemma sound_insert_outbox:
  assumes "db_integrity d" and "sql_insert_outbox r d = Inr (u, d')"
  shows "sound_step d d'"
  using assms
  by (auto simp: sql_insert_outbox_def violation_passes sound_step_def db_integrity_def history_kept_def
      table_append outbox_uniques_def outbox_checks_def outbox_clash_def references_ok_def checked_def
      carried_refl carried_append split: option.splits if_splits)

lemma sound_insert_inbox:
  assumes "db_integrity d" and "ir_status r = ''RECEIVED''" and "sql_insert_inbox r d = Inr (u, d')"
  shows "sound_step d d'"
  using assms
  by (auto simp: sql_insert_inbox_def sound_step_def db_integrity_def history_kept_def
      table_append is_message_def inbox_clash_def references_ok_def checked_def
      carried_refl carried_append split: if_splits)

text \<open>Replacing rows in place.\<close>

lemma sound_map_wallets:
  assumes "db_integrity d" and "\<And>r. r \<in> set (db_wallets d) \<Longrightarrow> wallet_later r (f r)"
    and "\<And>r. r \<in> set (db_wallets d) \<Longrightarrow> list_all snd (wallet_checks (f r))"
  shows "sound_step d (d\<lparr>db_wallets := map f (db_wallets d)\<rparr>)"
proof -
  have same: "wr_id (f r) = wr_id r" "wr_player_id (f r) = wr_player_id r" "wr_currency (f r) = wr_currency r"
    if "r \<in> set (db_wallets d)" for r
    using assms(2) [OF that] by (simp_all add: wallet_later_def)
  have "table wallet_clash (map f (db_wallets d))"
    using assms(1) by (intro table_map) (auto simp: db_integrity_def wallet_clash_def same)
  then show ?thesis
    using assms
    by (auto simp: sound_step_def db_integrity_def history_kept_def references_ok_def checked_def same
        carried_refl intro!: carried_map)
qed

lemma sound_map_events:
  assumes "db_integrity d" and "\<And>r. r \<in> set (db_outbox d) \<Longrightarrow> event_later r (f r)"
    and "\<And>r. r \<in> set (db_outbox d) \<Longrightarrow> in_int4 (or_attempts (f r)) \<and> 0 \<le> sint (or_attempts (f r))"
  shows "sound_step d (d\<lparr>db_outbox := map f (db_outbox d)\<rparr>)"
proof -
  have same: "or_event_id (f r) = or_event_id r" if "r \<in> set (db_outbox d)" for r
    using assms(2) [OF that] by (simp add: event_later_def event_identity_def)
  have "table outbox_clash (map f (db_outbox d))"
    using assms(1) by (intro table_map) (auto simp: db_integrity_def outbox_clash_def same)
  then show ?thesis
    using assms
    by (auto simp: sound_step_def db_integrity_def history_kept_def references_ok_def checked_def
        carried_refl intro!: carried_map)
qed

lemma sound_map_messages:
  assumes "db_integrity d" and "\<And>r. r \<in> set (db_inbox d) \<Longrightarrow> message_later r (f r)"
    and "\<And>r. r \<in> set (db_inbox d) \<Longrightarrow> ir_status (f r) \<in> {''RECEIVED'', ''COMPLETED''}"
  shows "sound_step d (d\<lparr>db_inbox := map f (db_inbox d)\<rparr>)"
proof -
  have same: "ir_id (f r) = ir_id r" "ir_consumer_name (f r) = ir_consumer_name r"
    "ir_message_id (f r) = ir_message_id r" if "r \<in> set (db_inbox d)" for r
    using assms(2) [OF that] by (simp_all add: message_later_def)
  have "table inbox_clash (map f (db_inbox d))"
    using assms(1) by (intro table_map) (auto simp: db_integrity_def inbox_clash_def same)
  then show ?thesis
    using assms
    by (auto simp: sound_step_def db_integrity_def history_kept_def references_ok_def checked_def
        carried_refl intro!: carried_map)
qed

lemma sound_update_wallet:
  assumes "db_integrity d" and "sql_update_wallet i b t v d = Inr (n, d')"
  shows "sound_step d d'"
proof (cases "find (\<lambda>r. wr_id r = i \<and> wr_version r = v) (db_wallets d)")
  case None
  then show ?thesis using assms by (auto simp: sql_update_wallet_def sound_step_def)
next
  case (Some r)
  let ?r' = "r\<lparr>wr_balance_minor := b, wr_version := wr_version r + 1, wr_updated_at := t\<rparr>"
  have r: "r \<in> set (db_wallets d)" "wr_id r = i" "wr_version r = v"
    using Some by (auto simp: find_Some_iff)
  have ok: "wr_version r \<noteq> MaxInt64" "list_all snd (wallet_checks ?r')"
    and d': "d' = d\<lparr>db_wallets := map (\<lambda>q. if wr_id q = i \<and> wr_version q = v then ?r' else q) (db_wallets d)\<rparr>"
    using assms(2) Some by (auto simp: sql_update_wallet_def Let_def violation_passes split: if_splits option.splits)
  have newer: "sint (wr_version r) < sint (wr_version r + 1)"
  proof -
    have "sint (wr_version r) \<noteq> 9223372036854775807"
      using ok(1) by (auto simp: MaxInt64_def simp flip: sint_eq_iff)
    then have "sint (wr_version r + 1) = sint (wr_version r) + 1"
      using sint_lower [of "wr_version r"] sint_upper [of "wr_version r"]
      by (subst sint_add_exact) (simp_all add: in_int64_def)
    then show ?thesis by simp
  qed
  have same: "q = r" if "q \<in> set (db_wallets d)" "wr_id q = i" for q
    using assms(1) that r by (intro table_unique [of wallet_clash "db_wallets d"])
      (auto simp: db_integrity_def wallet_clash_def)
  show ?thesis
    unfolding d'
  proof (rule sound_map_wallets [OF assms(1)])
    show "wallet_later q (if wr_id q = i \<and> wr_version q = v then ?r' else q)" if "q \<in> set (db_wallets d)" for q
      using same [OF that] newer by (auto simp: wallet_later_def)
    show "list_all snd (wallet_checks (if wr_id q = i \<and> wr_version q = v then ?r' else q))"
      if "q \<in> set (db_wallets d)" for q
      using ok(2) assms(1) that by (auto simp: db_integrity_def checked_def)
  qed
qed

lemma sound_claim_outbox:
  assumes "db_integrity d" and "sql_claim_outbox lk pub t cutoff k d = Inr (evs, d')"
  shows "sound_step d d'"
proof -
  let ?ids = "set (candidates lk t cutoff k (db_outbox d))"
  have d': "d' = d\<lparr>db_outbox := map (\<lambda>r. if or_event_id r \<in> ?ids then lock_row pub t r else r) (db_outbox d)\<rparr>"
    using assms(2) by (auto simp: sql_claim_outbox_def Let_def)
  have un: "unpublished r" if "r \<in> set (db_outbox d)" "or_event_id r \<in> ?ids" for r
  proof -
    note hit = that
    obtain q where q: "q \<in> set (db_outbox d)" "or_event_id q = or_event_id r" "unpublished q"
      using candidates_claimable [OF hit(2)] by (metis claimable_def)
    have "q = r"
      using assms(1) q hit(1)
      by (intro table_unique [of outbox_clash "db_outbox d"]) (auto simp: db_integrity_def outbox_clash_def)
    then show ?thesis using q(3) by simp
  qed
  show ?thesis
    unfolding d' using assms(1) un
    by (intro sound_map_events)
      (auto simp: event_later_def event_identity_def lock_row_def db_integrity_def checked_def)
qed

lemma sound_mark_published:
  assumes "db_integrity d" and "sql_mark_published i t d = Inr (n, d')"
  shows "sound_step d d'"
proof -
  have d': "d' = d\<lparr>db_outbox := map (\<lambda>r. if or_event_id r = i \<and> unpublished r then publish_row t r else r) (db_outbox d)\<rparr>"
    using assms(2) by (auto simp: sql_mark_published_def Let_def)
  show ?thesis
    unfolding d' using assms(1)
    by (intro sound_map_events)
      (auto simp: event_later_def event_identity_def publish_row_def db_integrity_def checked_def)
qed

lemma sound_mark_failed:
  assumes "db_integrity d" and "sql_mark_failed i t e d = Inr (n, d')"
  shows "sound_step d d'"
proof -
  have d': "d' = d\<lparr>db_outbox := map (\<lambda>r. if or_event_id r = i \<and> unpublished r then fail_row t e r else r) (db_outbox d)\<rparr>"
    and room: "\<forall>r \<in> set (db_outbox d). or_event_id r = i \<and> unpublished r \<longrightarrow> sint (or_attempts r) \<noteq> 2147483647"
    using assms(2) by (auto simp: sql_mark_failed_def Let_def split: if_splits)
  have next_ok: "in_int4 (a + 1) \<and> 0 \<le> sint (a + 1)"
    if "in_int4 a" "0 \<le> sint a" "sint a \<noteq> 2147483647" for a :: int64
  proof -
    have "sint (a + 1) = sint a + 1"
      using that by (subst sint_add_exact) (simp_all add: in_int64_def in_int4_def)
    then show ?thesis using that by (simp add: in_int4_def)
  qed
  show ?thesis
    unfolding d' using assms(1) room next_ok
    by (intro sound_map_events)
      (auto simp: event_later_def event_identity_def fail_row_def db_integrity_def checked_def)
qed

lemma sound_complete_inbox:
  assumes "db_integrity d" and "sql_complete_inbox cn m t d = Inr (n, d')"
  shows "sound_step d d'"
proof -
  have d': "d' = d\<lparr>db_inbox := map (\<lambda>r. if is_message cn m r then complete_row t r else r) (db_inbox d)\<rparr>"
    using assms(2) by (auto simp: sql_complete_inbox_def)
  show ?thesis
    unfolding d' using assms(1)
    by (intro sound_map_messages)
      (auto simp: message_later_def complete_row_def db_integrity_def checked_def)
qed

lemma tx_later_keys:
  assumes "tx_later r q"
  shows "tr_id q = tr_id r" "tr_origin q = tr_origin r" "tr_provider_id q = tr_provider_id r"
    "tr_external_transaction_id q = tr_external_transaction_id r"
    "tr_idempotency_key q = tr_idempotency_key r" "tr_payload_hash q = tr_payload_hash r"
    "tr_wallet_id q = tr_wallet_id r" "tr_kind q = tr_kind r" "tr_amount_minor q = tr_amount_minor r"
    "tr_currency q = tr_currency r"
  using assms by (cases r; cases q; simp add: tx_later_def tx_identity_def tx_row_set_def)+

lemma sound_map_txs:
  assumes "db_integrity d" and later: "\<And>r. r \<in> set (db_transactions d) \<Longrightarrow> tx_later r (f r)"
    and "\<And>r. r \<in> set (db_transactions d) \<Longrightarrow> list_all snd (tx_checks (f r))"
    and "table tx_clash (map f (db_transactions d))"
    and ref: "\<And>r i. r \<in> set (db_transactions d) \<Longrightarrow> tr_reference_transaction_id (f r) = Some i \<Longrightarrow>
      \<exists>q \<in> set (db_transactions d). tr_id q = i"
  shows "sound_step d (d\<lparr>db_transactions := map f (db_transactions d)\<rparr>)"
proof -
  note same = tx_later_keys [OF later]
  have "references_ok (d\<lparr>db_transactions := map f (db_transactions d)\<rparr>)"
    using assms(1) ref by (force simp: references_ok_def db_integrity_def same)
  then show ?thesis
    using assms
    by (auto simp: sound_step_def db_integrity_def history_kept_def checked_def carried_refl intro!: carried_map)
qed

lemma sound_wake:
  assumes "db_integrity d" and "sql_wake_dependents p x t d = Inr (n, d')"
  shows "sound_step d d'"
proof -
  let ?f = "\<lambda>r. if is_dependent p x r then r\<lparr>tr_next_attempt_at := Some t, tr_updated_at := t\<rparr> else r"
  have d': "d' = d\<lparr>db_transactions := map ?f (db_transactions d)\<rparr>"
    using assms(2) by (auto simp: sql_wake_dependents_def)
  have clash: "tx_clash (?f a) (?f b) = tx_clash a b" for a b
    by (auto simp: tx_clash_def counts_as_reversal_def)
  show ?thesis
    unfolding d'
  proof (rule sound_map_txs [OF assms(1)])
    show "tx_later r (?f r)" for r
      by (simp add: tx_later_def tx_identity_def tx_row_set_def is_dependent_def is_pending_row_def
          pending_statuses_def)
    show "list_all snd (tx_checks (?f r))" if "r \<in> set (db_transactions d)" for r
    proof -
      have "tx_checks (?f r) = tx_checks r" by (simp add: tx_checks_def)
      then show ?thesis using assms(1) that by (simp add: db_integrity_def checked_def)
    qed
    show "table tx_clash (map ?f (db_transactions d))"
      using assms(1) by (intro table_map) (simp_all add: db_integrity_def clash del: if_split)
    show "\<exists>q \<in> set (db_transactions d). tr_id q = i"
      if "r \<in> set (db_transactions d)" "tr_reference_transaction_id (?f r) = Some i" for r i
      using assms(1) that by (auto simp: db_integrity_def references_ok_def split: if_splits)
  qed
qed

lemma sound_update_tx:
  assumes "db_integrity d" and "sql_update_tx i (tx_row_set ref st fc rb att nxt upd) d = Inr (n, d')"
  shows "sound_step d d'"
proof (cases "find (\<lambda>r. tr_id r = i \<and> is_pending_row r) (db_transactions d)")
  case None
  then show ?thesis using assms by (auto simp: sql_update_tx_def sound_step_def)
next
  case (Some r)
  let ?set = "tx_row_set ref st fc rb att nxt upd"
  let ?f = "\<lambda>q. if tr_id q = i \<and> is_pending_row q then ?set q else q"
  have r: "r \<in> set (db_transactions d)" "tr_id r = i" "is_pending_row r"
    using Some by (auto simp: find_Some_iff)
  have v: "list_all snd (tx_checks (?set r))"
      "list_all (\<lambda>u. \<not> snd u) (tx_uniques (filter (\<lambda>q. tr_id q \<noteq> i) (db_transactions d)) (?set r))"
      "list_all snd (tx_fks d (?set r))"
    and d': "d' = d\<lparr>db_transactions := map ?f (db_transactions d)\<rparr>"
    using assms(2) Some
    by (auto simp: sql_update_tx_def Let_def violation_passes split: if_splits option.splits)
  have same: "q = r" if "q \<in> set (db_transactions d)" "tr_id q = i" for q
    using assms(1) that r
    by (intro table_unique [of tx_clash "db_transactions d"]) (auto simp: db_integrity_def tx_clash_def)
  have f: "?f q = (if tr_id q = i then ?set r else q)" if "q \<in> set (db_transactions d)" for q
    using same [OF that] r(3) by auto
  have new: "\<not> tx_clash q (?set r)" "\<not> tx_clash (?set r) q"
    if "q \<in> set (db_transactions d)" "tr_id q \<noteq> i" for q
    using tx_uniques_clash [OF v(2), of q] tx_clash_sym that by auto
  show ?thesis
    unfolding d'
  proof (rule sound_map_txs [OF assms(1)])
    show "tx_later q (?f q)" for q by (simp add: tx_later_def tx_identity_def tx_row_set_def)
    show "list_all snd (tx_checks (?f q))" if "q \<in> set (db_transactions d)" for q
      using v(1) assms(1) that by (simp add: f [OF that] db_integrity_def checked_def)
    show "table tx_clash (map ?f (db_transactions d))"
    proof (rule table_map)
      show "table tx_clash (db_transactions d)" using assms(1) by (simp add: db_integrity_def)
      show "\<not> tx_clash (?f a) (?f b)"
        if "a \<in> set (db_transactions d)" "b \<in> set (db_transactions d)" "\<not> tx_clash a b" for a b
      proof -
        have "tr_id a \<noteq> tr_id b" using that(3) by (auto simp: tx_clash_def)
        then show ?thesis using new that by (auto simp: f)
      qed
    qed
    show "\<exists>q \<in> set (db_transactions d). tr_id q = j"
      if q: "q \<in> set (db_transactions d)" "tr_reference_transaction_id (?f q) = Some j" for q j
    proof (cases "tr_id q = i")
      case True
      have "ref = Some j" using q(2) unfolding f [OF q(1)] by (simp add: True tx_row_set_def)
      then show ?thesis using v(3) r by (auto simp: tx_fks_def tx_row_set_def)
    next
      case False
      then show ?thesis using q assms(1) by (auto simp: db_integrity_def references_ok_def)
    qed
  qed
qed

end
