(* ===== verification/Integrity.thy ===== *)
theory Integrity
  imports Service History
begin

section \<open>What every history of the service keeps\<close>

text \<open>
  The service as a whole, serving any sequence of requests. A property of databases that every
  statement of the repositories keeps is kept by every service, whatever faults, retries and
  rollbacks happen (the locale \<open>maintained\<close>). Two such properties: the integrity of the data
  (no identifier, external transaction, idempotency key, reversal, ledger entry or message
  twice, no dangling reference), and the append-only history (the ledger only grows, terminal
  transactions and published events never change, versions never go back).
\<close>

subsection \<open>A property that the statements keep\<close>

locale maintained =
  fixes J :: "db \<Rightarrow> bool"
  assumes insert_wallet: "J d \<Longrightarrow> sql_insert_wallet wr d = Inr (u, d') \<Longrightarrow> J d'"
    and update_wallet: "J d \<Longrightarrow> sql_update_wallet i b t v d = Inr (n, d') \<Longrightarrow> J d'"
    and insert_tx: "J d \<Longrightarrow> sql_insert_tx tr d = Inr (u, d') \<Longrightarrow> J d'"
    and update_tx: "J d \<Longrightarrow> sql_update_tx i (tx_row_set ref st fc rb att nxt upd) d = Inr (n, d') \<Longrightarrow> J d'"
    and wake: "J d \<Longrightarrow> sql_wake_dependents p x t d = Inr (n, d') \<Longrightarrow> J d'"
    and insert_ledger: "J d \<Longrightarrow> sql_insert_ledger lr d = Inr (u, d') \<Longrightarrow> J d'"
    and insert_outbox: "J d \<Longrightarrow> sql_insert_outbox er d = Inr (u, d') \<Longrightarrow> J d'"
    and claim_outbox: "J d \<Longrightarrow> sql_claim_outbox lk pub t cutoff k d = Inr (evs, d') \<Longrightarrow> J d'"
    and mark_published: "J d \<Longrightarrow> sql_mark_published i t d = Inr (n, d') \<Longrightarrow> J d'"
    and mark_failed: "J d \<Longrightarrow> sql_mark_failed i t e d = Inr (n, d') \<Longrightarrow> J d'"
    and insert_inbox: "J d \<Longrightarrow> ir_status ir = ''RECEIVED'' \<Longrightarrow> sql_insert_inbox ir d = Inr (claimed, d') \<Longrightarrow> J d'"
    and complete_inbox: "J d \<Longrightarrow> sql_complete_inbox cn m t d = Inr (n, d') \<Longrightarrow> J d'"
begin

lemma writes:
  "kept_by (\<lambda>_. J) (sql_insert_wallet wr)" "kept_by (\<lambda>_. J) (sql_update_wallet i b t v)"
  "kept_by (\<lambda>_. J) (sql_insert_tx tr)"
  "kept_by (\<lambda>_. J) (sql_update_tx i (tx_row_set ref st fc rb att nxt upd))"
  "kept_by (\<lambda>_. J) (sql_wake_dependents p x t)" "kept_by (\<lambda>_. J) (sql_insert_ledger lr)"
  "kept_by (\<lambda>_. J) (sql_insert_outbox er)" "kept_by (\<lambda>_. J) (sql_claim_outbox lk pub t cutoff k)"
  "kept_by (\<lambda>_. J) (sql_mark_published i t)" "kept_by (\<lambda>_. J) (sql_mark_failed i t e)"
  "kept_by (\<lambda>_. J) (sql_complete_inbox cn m t)"
  unfolding kept_by_def
  by (intro allI impI; erule (1) insert_wallet update_wallet insert_tx update_tx wake insert_ledger
    insert_outbox claim_outbox mark_published mark_failed complete_inbox)+

lemma receives: "ir_status ir = ''RECEIVED'' \<Longrightarrow> kept_by (\<lambda>_. J) (sql_insert_inbox ir)"
  unfolding kept_by_def by (intro allI impI; erule (2) insert_inbox)

lemma reads_keep:
  "kept_by (\<lambda>_. J) (sql_wallet_by_id i)" "kept_by (\<lambda>_. J) (sql_wallet_by_player_currency pl cu)"
  "kept_by (\<lambda>_. J) (sql_tx_by_id i)" "kept_by (\<lambda>_. J) (sql_tx_by_external p x)"
  "kept_by (\<lambda>_. J) (sql_tx_by_key p x)" "kept_by (\<lambda>_. J) (sql_claim_tx lk t)"
  "kept_by (\<lambda>_. J) sql_count_pending_tx" "kept_by (\<lambda>_. J) (sql_find_reversal i k)"
  "kept_by (\<lambda>_. J) sql_count_outbox" "kept_by (\<lambda>_. J) (sql_inbox_get cn m)"
  "kept_by (\<lambda>_. J) (sql_ledger_page i cs n)" "kept_by (\<lambda>_. J) (sql_ledger_totals i)"
  by (auto intro!: kept_by_read simp: sql_wallet_by_id_def sql_wallet_by_player_currency_def
      sql_tx_by_id_def sql_tx_by_external_def sql_tx_by_key_def sql_claim_tx_def
      sql_count_pending_tx_def sql_find_reversal_def sql_count_outbox_def sql_inbox_get_def
      sql_ledger_page_def sql_ledger_totals_def)

lemmas statements = writes reads_keep

lemma repositories:
  assumes u: "undisturbed L (\<lambda>_. J)"
  shows "preserves (\<lambda>_. J) (wallets_GetByID L i)" "preserves (\<lambda>_. J) (wallets_UpdateBalance L w v)"
    "preserves (\<lambda>_. J) (wallets_GetByPlayerAndCurrency L pl cu)" "preserves (\<lambda>_. J) (wallets_Create L w)"
    "preserves (\<lambda>_. J) (transactions_CountPending L)" "preserves (\<lambda>_. J) (transactions_Insert L t)"
    "preserves (\<lambda>_. J) (transactions_Update L t)" "preserves (\<lambda>_. J) (transactions_GetByID L i)"
    "preserves (\<lambda>_. J) (transactions_GetByProviderExternal L p x)"
    "preserves (\<lambda>_. J) (transactions_GetByProviderIdempotencyKey L p x)"
    "preserves (\<lambda>_. J) (transactions_ClaimOne L now)" "preserves (\<lambda>_. J) (transactions_FindReversal L i k)"
    "preserves (\<lambda>_. J) (transactions_WakeDependents L p x now)"
    "preserves (\<lambda>_. J) (ledgers_Insert L e)" "preserves (\<lambda>_. J) (outbox_Insert L oe)"
  unfolding io_defs
  by (intro preserves_rules preserves_stmt preserves_stmt_locked preserves_NewV7 preserves_clock u statements)+

lemma more_repositories:
  assumes u: "undisturbed L (\<lambda>_. J)"
  shows "preserves (\<lambda>_. J) (outbox_Claim L pub now lim ttl)"
    "preserves (\<lambda>_. J) (outbox_MarkPublished L i now)" "preserves (\<lambda>_. J) (outbox_MarkFailed L i nxt err)"
    "preserves (\<lambda>_. J) (outbox_PendingCount L)" "preserves (\<lambda>_. J) (inbox_get L cn m)"
    "preserves (\<lambda>_. J) (inbox_Claim L cn m h now)" "preserves (\<lambda>_. J) (inbox_Complete L cn m now)"
  unfolding outbox_Claim_def outbox_MarkPublished_def outbox_MarkFailed_def outbox_PendingCount_def
    inbox_get_def inbox_Claim_def inbox_Complete_def Let_def
  by (intro preserves_rules preserves_stmt preserves_stmt_locked preserves_NewV7 preserves_clock u statements
      receives; simp)+

lemma services:
  assumes u: "undisturbed L (\<lambda>_. J)"
  shows "preserves (\<lambda>_. J) (enqueue L a ev)" "preserves (\<lambda>_. J) (insertEvent L s a ty t ev)"
    "preserves (\<lambda>_. J) (replay tr h)" "preserves (\<lambda>_. J) (resolveReference L tr)"
    "preserves (\<lambda>_. J) (note_conflict e)"
  unfolding enqueue_def insertEvent_def replay_def resolveReference_def note_conflict_def
  by (intro preserves_rules repositories more_repositories u)+

lemmas operations = preserves_rules repositories more_repositories services preserves_NewV7 preserves_clock

lemma reject: "undisturbed L (\<lambda>_. J) \<Longrightarrow> preserves (\<lambda>_. J) (reject L tr w code now corr)"
  unfolding reject_def by (intro operations)

lemma markProcessed: "undisturbed L (\<lambda>_. J) \<Longrightarrow> preserves (\<lambda>_. J) (markProcessed L tr b now corr)"
  unfolding markProcessed_def by (intro operations)

lemma move: "undisturbed L (\<lambda>_. J) \<Longrightarrow> preserves (\<lambda>_. J) (move L tr w dir ref now corr)"
  unfolding move_def record_movement_def announce_movement_def
  by (intro operations reject markProcessed)

lemma scheduleReferenceRetry:
  "undisturbed L (\<lambda>_. J) \<Longrightarrow> preserves (\<lambda>_. J) (scheduleReferenceRetry L c tr now corr)"
  unfolding scheduleReferenceRetry_def by (intro operations reject)

lemma applyOperation: "undisturbed L (\<lambda>_. J) \<Longrightarrow> preserves (\<lambda>_. J) (applyOperation L c tr now corr)"
  unfolding applyOperation_def applyReversal_def handleReferenceError_def
  by (intro operations reject markProcessed move scheduleReferenceRetry)

lemma processOnce: "undisturbed L (\<lambda>_. J) \<Longrightarrow> preserves (\<lambda>_. J) (processOnce L c cmd h)"
  unfolding processOnce_def process_new_def by (intro operations applyOperation)

lemma process_loop: "undisturbed L (\<lambda>_. J) \<Longrightarrow> preserves (\<lambda>_. J) (process_loop L c cmd h n e)"
  by (induction n arbitrary: e)
    (auto intro!: operations preserves_WithinTransaction processOnce framed_processOnce)

lemma Process: "undisturbed L (\<lambda>_. J) \<Longrightarrow> preserves (\<lambda>_. J) (Process L c cmd)"
  unfolding Process_def by (intro operations process_loop)

lemma resume_attempts: "undisturbed L (\<lambda>_. J) \<Longrightarrow> preserves (\<lambda>_. J) (resume_attempts L c tr first n e)"
  by (induction n arbitrary: tr first e)
    (auto intro!: operations preserves_WithinTransaction applyOperation framed_rules)

lemma ResumeDue: "undisturbed L (\<lambda>_. J) \<Longrightarrow> preserves (\<lambda>_. J) (ResumeDue L c limit)"
proof -
  assume u: "undisturbed L (\<lambda>_. J)"
  have "preserves (\<lambda>_. J) (resumeOne L c)"
    unfolding resumeOne_def
    by (intro operations preserves_WithinTransaction resume_attempts framed_rules u)
  then have "preserves (\<lambda>_. J) (resume_due L c n k)" for n k
    by (induction n arbitrary: k) (auto intro!: operations)
  then show ?thesis by (simp add: ResumeDue_def)
qed

lemma wallets_Open: "undisturbed L (\<lambda>_. J) \<Longrightarrow> preserves (\<lambda>_. J) (wallets_Open L oc)"
  unfolding wallets_Open_def open_wallet_def credit_opening_def announce_opening_def insertEvent_def Let_def
  by (intro operations preserves_WithinTransaction framed_rules)

lemma Handle: "undisturbed L (\<lambda>_. J) \<Longrightarrow> preserves (\<lambda>_. J) (Handle L c message)"
  unfolding Handle_def handle_once_def Let_def
  by (intro operations preserves_WithinTransaction Process framed_rules)

lemma PublishDue: "undisturbed L (\<lambda>_. J) \<Longrightarrow> preserves (\<lambda>_. J) (PublishDue L q pc)"
proof -
  assume u: "undisturbed L (\<lambda>_. J)"
  have "preserves (\<lambda>_. J) (publish_one L q pc ev)" for ev
    unfolding publish_one_def markFailed_def Let_def
    by (intro operations preserves_sqs preserves_WithinTransaction framed_rules u)
  then have "preserves (\<lambda>_. J) (publish_batch L q pc evs n)" for evs n
    by (induction evs arbitrary: n) (auto intro!: operations)
  then show ?thesis
    unfolding PublishDue_def claim_batch_def
    by (intro operations preserves_WithinTransaction framed_rules u)
qed

lemma processOne: "undisturbed L (\<lambda>_. J) \<Longrightarrow> preserves (\<lambda>_. J) (processOne L c q m)"
  unfolding processOne_def Let_def by (intro operations preserves_sqs Handle)

lemma queries:
  assumes u: "undisturbed L (\<lambda>_. J)"
  shows "preserves (\<lambda>_. J) (GetTransaction L i)" "preserves (\<lambda>_. J) (GetByProviderExternal L p x)"
    "preserves (\<lambda>_. J) (CountPending L)" "preserves (\<lambda>_. J) (wallets_Get L i)"
    "preserves (\<lambda>_. J) (wallets_Ledger L i cu k)" "preserves (\<lambda>_. J) (wallets_Reconcile L i)"
  unfolding GetTransaction_def GetByProviderExternal_def CountPending_def wallets_Get_def wallets_Ledger_def
    wallets_Reconcile_def ledgers_ListByWallet_def ledgers_TotalsByWallet_def Let_def
  by (intro operations preserves_stmt statements u)+

lemma or_writeError:
  "preserves (\<lambda>_. J) m \<Longrightarrow> (\<And>v. preserves (\<lambda>_. J) (k v)) \<Longrightarrow> preserves (\<lambda>_. J) (or_writeError m k)"
  unfolding or_writeError_def writeError_def writeJSON_def Let_def by (intro preserves_rules)

lemma writers:
  "preserves (\<lambda>_. J) (writeJSON s p)" "preserves (\<lambda>_. J) (writeError e)"
  "preserves (\<lambda>_. J) (submit_response L res)"
  unfolding submit_response_def writeRejection_def writeError_def writeJSON_def Let_def by (intro preserves_rules)+

lemma Verify: "preserves (\<lambda>_. J) (Verify v tok)"
  by (rule preservesI) (auto dest: Verify_same_world)

lemma handlers:
  assumes u: "undisturbed L (\<lambda>_. J)"
  shows "preserves (\<lambda>_. J) (submit_handler L c ctx r)" "preserves (\<lambda>_. J) (get_transaction_handler L ctx r)"
    "preserves (\<lambda>_. J) (get_by_external_handler L ctx r)" "preserves (\<lambda>_. J) (open_handler L ctx r)"
    "preserves (\<lambda>_. J) (get_wallet_handler L ctx r)" "preserves (\<lambda>_. J) (ledger_handler L ctx r)"
    "preserves (\<lambda>_. J) (reconcile_handler L ctx r)"
  unfolding submit_handler_def get_transaction_handler_def get_by_external_handler_def open_handler_def
    get_wallet_handler_def ledger_handler_def reconcile_handler_def
  by (intro or_writeError writers preserves_rules Process wallets_Open queries u)+

lemma health:
  "preserves (\<lambda>_. J) (live_handler ctx r)" "preserves (\<lambda>_. J) (ready_handler probes ctx r)"
proof -
  show "preserves (\<lambda>_. J) (live_handler ctx r)" unfolding live_handler_def by (rule writers)
  have "ready_handler probes ctx r w = (case ready_handler probes ctx r w of (x, _) \<Rightarrow> (x, w))" for w
    by (simp add: ready_handler_def writeJSON_def ret_def Let_def)
  then show "preserves (\<lambda>_. J) (ready_handler probes ctx r)"
    by (intro preservesI) (metis (no_types, lifting) case_prod_conv prod.inject)
qed

lemma Authenticate:
  "(\<And>ctx. preserves (\<lambda>_. J) (h ctx r)) \<Longrightarrow> preserves (\<lambda>_. J) (Authenticate v h ctx r)"
  unfolding Authenticate_def by (intro or_writeError preserves_rules Verify)

lemma RequireRoles: "preserves (\<lambda>_. J) (h ctx r) \<Longrightarrow> preserves (\<lambda>_. J) (RequireRoles roles h ctx r)"
  by (simp add: RequireRoles_def writers split: option.split)

lemma ServeHTTP: "undisturbed L (\<lambda>_. J) \<Longrightarrow> preserves (\<lambda>_. J) (ServeHTTP L api r)"
proof -
  assume u: "undisturbed L (\<lambda>_. J)"
  have "preserves (\<lambda>_. J) (route_handler L api route ctx r)" for route ctx
    unfolding route_handler_def internal_only_def provider_or_internal_def
    by (cases route) (auto intro!: Authenticate RequireRoles handlers health writers u)
  then show ?thesis
    unfolding ServeHTTP_def RequestID_def by (intro operations u)
qed

lemma workers:
  assumes u: "undisturbed L (\<lambda>_. J)"
  shows "preserves (\<lambda>_. J) (worker_step (Resolver_iteration L c k))"
    "preserves (\<lambda>_. J) (worker_step (Publisher_iteration L q pc))"
  unfolding worker_step_def Resolver_iteration_def Publisher_iteration_def
  by (intro operations ResumeDue PublishDue queries u)+

lemma perform: "undisturbed L (\<lambda>_. J) \<Longrightarrow> preserves (\<lambda>_. J) (perform L s r)"
  by (cases r) (auto intro!: operations ServeHTTP processOne workers)

lemma serve: "undisturbed L (\<lambda>_. J) \<Longrightarrow> preserves (\<lambda>_. J) (serve L s rs)"
  by (induction rs) (auto intro!: operations perform)

text \<open>At the top level, where there is no snapshot.\<close>

lemma served:
  assumes "\<And>n d. J d \<Longrightarrow> J (lib_others L n d)" and "J (wd_db w)" and "wd_saves w = []"
  shows "J (wd_db (snd (serve L s rs w)))"
proof -
  have u: "undisturbed L (\<lambda>_. J)" unfolding undisturbed_def using assms(1) by blast
  obtain r w' where run: "serve L s rs w = (r, w')" by (metis prod.collapse)
  have "holds (\<lambda>_. J) w" using assms(2,3) by (simp add: holds_def)
  from preservesD [OF serve [OF u] this run] show ?thesis by (simp add: holds_def run)
qed

end

subsection \<open>Both are kept by every service\<close>

lemmas sound_steps = sound_insert_wallet sound_update_wallet sound_insert_tx sound_update_tx sound_wake
  sound_insert_ledger sound_insert_outbox sound_claim_outbox sound_mark_published sound_mark_failed
  sound_insert_inbox sound_complete_inbox

interpretation integrity: maintained db_integrity
  by unfold_locales (blast dest: sound_steps [unfolded sound_step_def])+

interpretation history: maintained "\<lambda>d. db_integrity d \<and> history_kept d0 d" for d0
  by unfold_locales (blast dest: sound_steps [unfolded sound_step_def] intro: history_kept_trans)+


text \<open>What is asked of the other connections.\<close>

definition sound_others :: "lib \<Rightarrow> bool" where
  "sound_others L \<longleftrightarrow> (\<forall>n d. db_integrity d \<longrightarrow> sound_step d (lib_others L n d))"

lemma serve_sound:
  assumes "sound_others L" and "db_integrity (wd_db w)" and "wd_saves w = []"
  shows "sound_step (wd_db w) (wd_db (snd (serve L s rs w)))"
proof -
  have "db_integrity (lib_others L n d) \<and> history_kept (wd_db w) (lib_others L n d)"
    if "db_integrity d \<and> history_kept (wd_db w) d" for n d
    using that assms(1) history_kept_trans by (auto simp: sound_others_def sound_step_def)
  from history.served [of "wd_db w" L w s rs, OF this] show ?thesis
    using assms(2,3) by (simp add: sound_step_def)
qed

end
