(* ===== verification/Http_Properties.thy ===== *)
theory Http_Properties
  imports Http_Api
begin

section \<open>What the HTTP contract promises\<close>

text \<open>
  Every request is answered, with a status that fits its payload; who may do what is a table on
  the roles of the token; a provider sees only its own transactions; the cursor of a page is the
  position of its last entry.
\<close>

subsection \<open>Answers\<close>

definition answers :: "(response \<Rightarrow> bool) \<Rightarrow> response io \<Rightarrow> bool" where
  "answers P m \<longleftrightarrow> (\<forall>w. \<exists>resp w'. m w = (Inr resp, w') \<and> P resp)"

text \<open>
  The status of an answer: of an error by its kind, whose text is not disclosed when it is internal;
  of a success by the route, for a submission by its outcome.
\<close>

definition status_of_kind :: "(error_kind \<times> nat) set" where
  "status_of_kind = {(KindInvalid, 400), (KindUnauthorized, 401), (KindForbidden, 403), (KindNotFound, 404),
     (KindConflict, 409), (KindRejected, 422), (KindUnavailable, 503), (KindInternal, 500)}"

definition submitted_status :: "Result \<Rightarrow> nat" where
  "submitted_status result =
     (case rs_Status result of
        StatusPending \<Rightarrow> 202
      | StatusPendingReference \<Rightarrow> 202
      | _ \<Rightarrow> if rs_IdempotentReplay result then 200 else 201)"

definition fitting :: "lib \<Rightarrow> route \<Rightarrow> response \<Rightarrow> bool" where
  "fitting L route resp \<longleftrightarrow>
     (case rsp_payload resp of
        ErrorBody e \<Rightarrow> (er_Kind e, rsp_status resp) \<in> status_of_kind \<and>
          (er_Kind e = KindInternal \<longrightarrow> er_Message e = FixedMessage ''internal error'')
      | SubmitBody p \<Rightarrow> route = SubmitRoute \<and> (\<exists>result. p = toSubmitResponse L result \<and>
          rs_Status result \<noteq> StatusRejected \<and> rsp_status resp = submitted_status result)
      | WalletBody _ \<Rightarrow> route = OpenWalletRoute \<and> rsp_status resp = 201 \<or> route = GetWalletRoute \<and> rsp_status resp = 200
      | LedgerBody _ \<Rightarrow> route = LedgerRoute \<and> rsp_status resp = 200
      | ReconciliationBody _ \<Rightarrow> route = ReconcileRoute \<and> rsp_status resp = 200
      | TransactionBody _ \<Rightarrow> route \<in> {GetTransactionRoute, GetByExternalRoute} \<and> rsp_status resp = 200
      | HealthBody probed \<Rightarrow>
          route = LiveRoute \<and> rsp_status resp = 200 \<or>
          route = ReadyRoute \<and> rsp_status resp =
            (if (''postgres'', ''ok'') \<in> set probed \<and> (''sqs'', ''ok'') \<in> set probed then 200 else 503)
      | LibraryBody \<Rightarrow> route = MetricsRoute \<and> rsp_status resp = 200 \<or> route = Unrouted (rsp_status resp))"

lemma writeJSON_eq: "writeJSON s p w = (Inr \<lparr>rsp_status = s, rsp_payload = p, rsp_requestID = ''''\<rparr>, w)"
  by (simp add: writeJSON_def ret_def)

lemma answers_writeJSON: "P \<lparr>rsp_status = s, rsp_payload = p, rsp_requestID = ''''\<rparr> \<Longrightarrow> answers P (writeJSON s p)"
  by (simp add: answers_def writeJSON_eq)

lemma statusForKind_table: "(k, statusForKind k) \<in> status_of_kind"
  by (cases k) (simp_all add: statusForKind_def status_of_kind_def)

lemma answers_writeError: "answers (fitting L route) (writeError err)"
  unfolding writeError_def Let_def by (intro answers_writeJSON) (simp add: fitting_def statusForKind_table)

lemma answers_or_writeError_ok:
  assumes "\<And>err. answers P (writeError err)" and "\<And>w v w'. m w = (Inr v, w') \<Longrightarrow> answers P (k v)"
  shows "answers P (or_writeError m k)"
  unfolding answers_def
proof
  fix w
  obtain x w1 where "m w = (x, w1)" by (cases "m w")
  then show "\<exists>resp w'. or_writeError m k w = (Inr resp, w') \<and> P resp"
    using assms by (cases x) (auto simp: or_writeError_def bindM_def attempt_def answers_def)
qed

lemma answers_or_writeError:
  "(\<And>err. answers P (writeError err)) \<Longrightarrow> (\<And>v. answers P (k v)) \<Longrightarrow> answers P (or_writeError m k)"
  by (rule answers_or_writeError_ok)

lemma answers_lift: "answers P (or_writeError (lift x) k)"
  if "\<And>err. x = Inl err \<Longrightarrow> answers P (writeError err)" and "\<And>v. x = Inr v \<Longrightarrow> answers P (k v)"
  using that by (cases x) (auto simp: or_writeError_def bindM_def attempt_def lift_def answers_def)

lemmas answer_rules = answers_or_writeError answers_writeError

lemma answers_submit: "answers (fitting L SubmitRoute) (submit_response L res)"
  unfolding submit_response_def writeRejection_def Let_def
  by (auto intro!: answers_writeJSON exI [of _ res] split: status.split
      simp: fitting_def status_of_kind_def submitted_status_def)

lemma answers_middleware:
  "(\<And>ctx r. answers (fitting L route) (h ctx r)) \<Longrightarrow> answers (fitting L route) (internal_only api h ctx r)"
  "(\<And>ctx r. answers (fitting L route) (h ctx r)) \<Longrightarrow> answers (fitting L route) (provider_or_internal api h ctx r)"
  unfolding internal_only_def provider_or_internal_def Authenticate_def RequireRoles_def
  by (intro answer_rules; simp add: answers_writeError split: option.split)+

lemma answers_handlers:
  "answers (fitting L SubmitRoute) (submit_handler L c ctx r)"
  "answers (fitting L GetTransactionRoute) (get_transaction_handler L ctx r)"
  "answers (fitting L GetByExternalRoute) (get_by_external_handler L ctx r)"
  "answers (fitting L OpenWalletRoute) (open_handler L ctx r)"
  "answers (fitting L GetWalletRoute) (get_wallet_handler L ctx r)"
  "answers (fitting L LedgerRoute) (ledger_handler L ctx r)"
  "answers (fitting L ReconcileRoute) (reconcile_handler L ctx r)"
  "answers (fitting L LiveRoute) (live_handler ctx r)"
  unfolding submit_handler_def get_transaction_handler_def get_by_external_handler_def open_handler_def
    get_wallet_handler_def ledger_handler_def reconcile_handler_def live_handler_def
  by (intro answer_rules answers_submit answers_writeJSON; simp add: fitting_def)+

lemma answers_ready: "answers (fitting L ReadyRoute) (ready_handler probes ctx r)"
  by (simp add: answers_def ready_handler_def Let_def writeJSON_eq fitting_def)

lemma answers_route: "answers (fitting L route) (route_handler L api route ctx r)"
  unfolding route_handler_def
  by (cases route)
    (auto intro!: answers_middleware answers_handlers answers_ready answers_writeJSON simp: fitting_def)

lemma RequestID_eq:
  obtains i w1 where "(w1 = w \<or> w1 = tick L w)"
    and "RequestID L h ctx r w =
      bindM (h (ctx\<lparr>hc_requestID := i\<rparr>) r) (\<lambda>resp. ret (resp\<lparr>rsp_requestID := i\<rparr>)) w1"
proof -
  let ?rest = "\<lambda>i. bindM (h (ctx\<lparr>hc_requestID := i\<rparr>) r) (\<lambda>resp. ret (resp\<lparr>rsp_requestID := i\<rparr>))"
  have "RequestID L h ctx r w = ?rest (hr_header r ''X-Request-Id'') w \<or>
    RequestID L h ctx r w = ?rest (hr_header r ''X-Correlation-Id'') w \<or>
    RequestID L h ctx r w = ?rest (lib_uuid_String L (lib_NewV7 L (wd_step w))) (tick L w)"
    by (simp add: RequestID_def bindM_def [of "if _ then _ else _"] bindM_def [of "uuid_NewV7 L"] ret_def uuid_NewV7_def)
  then show thesis using that by blast
qed

subsection \<open>Access control\<close>

text \<open>Who may do what: public routes, wallets for the internal role, and wager operations for the
  internal role or the provider they belong to.\<close>

definition own_provider :: "Principal \<Rightarrow> string \<Rightarrow> bool" where
  "own_provider p providerID \<longleftrightarrow> pr_ProviderID p \<noteq> '''' \<and> pr_ProviderID p = providerID"

definition public_route :: "route \<Rightarrow> bool" where
  "public_route route \<longleftrightarrow> (case route of LiveRoute \<Rightarrow> True | ReadyRoute \<Rightarrow> True | MetricsRoute \<Rightarrow> True
     | Unrouted _ \<Rightarrow> True | _ \<Rightarrow> False)"

definition permitted :: "Principal \<Rightarrow> http_request \<Rightarrow> bool" where
  "permitted p r \<longleftrightarrow>
     HasRole p RoleInternal \<and> \<not> public_route (hr_route r) \<or>
     HasRole p RoleProvider \<and>
       (hr_route r = GetTransactionRoute \<or>
        hr_route r = GetByExternalRoute \<and> own_provider p (hr_param r ''providerId'') \<or>
        hr_route r = SubmitRoute \<and>
          (case decodeJSON submitTransactionRequest_fields zero_submitRequest (hr_body r) of
             Inl _ \<Rightarrow> False | Inr request \<Rightarrow> own_provider p (sr_ProviderID request)))"

definition refusal :: "response \<Rightarrow> bool" where
  "refusal resp \<longleftrightarrow> rsp_status resp \<in> {400, 401, 403} \<and> (\<exists>e. rsp_payload resp = ErrorBody e)"

text \<open>An answer that refuses and touches nothing.\<close>

definition refuses :: "response io \<Rightarrow> bool" where
  "refuses m \<longleftrightarrow> (\<forall>w. \<exists>resp. m w = (Inr resp, w) \<and> refusal resp)"

lemma refuses_writeError:
  "KindOf err \<in> {KindInvalid, KindUnauthorized, KindForbidden} \<Longrightarrow> refuses (writeError err)"
  by (auto simp: refuses_def refusal_def writeError_def Let_def writeJSON_eq statusForKind_def)

lemma refuses_lift:
  assumes "\<And>err. x = Inl err \<Longrightarrow> KindOf err \<in> {KindInvalid, KindUnauthorized, KindForbidden}"
    and "\<And>v. x = Inr v \<Longrightarrow> refuses (k v)"
  shows "refuses (or_writeError (lift x) k)"
  using assms refuses_writeError
  by (cases x) (auto simp: or_writeError_def bindM_def attempt_def lift_def refuses_def)

lemma error_kinds:
  "idempotency_key r = Inl err \<Longrightarrow> KindOf err = KindInvalid"
  "decodeJSON fs zero body = Inl err \<Longrightarrow> KindOf err = KindInvalid"
  "bearer_token r = Inl err \<Longrightarrow> KindOf err = KindUnauthorized"
  "authorizeProvider ctx pid = Inl err \<Longrightarrow> KindOf err \<in> {KindUnauthorized, KindForbidden}"
  "Verify v tok w = (Inl err, w') \<Longrightarrow> KindOf err = KindUnauthorized"
  by (auto simp: idempotency_key_def decodeJSON_def bearer_token_def authorizeProvider_def Verify_def
      missing_token_def forbidden_def Let_def split: if_splits option.splits prod.splits sum.splits)

lemma authorizeProvider_ok:
  "authorizeProvider (ctx\<lparr>hc_principal := Some p\<rparr>) pid = Inr () \<longleftrightarrow> HasRole p RoleInternal \<or> own_provider p pid"
  by (auto simp: authorizeProvider_def own_provider_def)

text \<open>The handlers a provider may call refuse a principal who is not permitted.\<close>

lemma refuses_provider_handlers:
  assumes "\<not> permitted p r" and "\<not> HasRole p RoleInternal" and "HasRole p RoleProvider"
  shows "hr_route r = SubmitRoute \<Longrightarrow> refuses (submit_handler L c (ctx\<lparr>hc_principal := Some p\<rparr>) r)"
    and "hr_route r = GetByExternalRoute \<Longrightarrow> refuses (get_by_external_handler L (ctx\<lparr>hc_principal := Some p\<rparr>) r)"
proof -
  have stop: "refuses (or_writeError (lift (authorizeProvider (ctx\<lparr>hc_principal := Some p\<rparr>) pid)) k)"
    if "\<not> own_provider p pid" for pid and k :: "unit \<Rightarrow> response io"
    using that assms(2) authorizeProvider_ok
    by (intro refuses_lift) (auto dest: error_kinds(4))
  show "hr_route r = SubmitRoute \<Longrightarrow> refuses (submit_handler L c (ctx\<lparr>hc_principal := Some p\<rparr>) r)"
    unfolding submit_handler_def using assms
    by (intro refuses_lift stop) (auto simp: permitted_def dest: error_kinds(1,2))
  show "hr_route r = GetByExternalRoute \<Longrightarrow> refuses (get_by_external_handler L (ctx\<lparr>hc_principal := Some p\<rparr>) r)"
    unfolding get_by_external_handler_def using assms by (intro stop) (simp add: permitted_def)
qed

text \<open>What is asked of the token of a request: nobody it stands for is permitted.\<close>

definition token_denied :: "http_api \<Rightarrow> http_request \<Rightarrow> bool" where
  "token_denied api r \<longleftrightarrow> (\<forall>tok p w. bearer_token r = Inr tok \<longrightarrow> Verify (ap_verifier api) tok w = (Inr p, w) \<longrightarrow>
     \<not> permitted p r)"

lemma refuses_Authenticate:
  assumes "\<And>tok p w. bearer_token r = Inr tok \<Longrightarrow> Verify v tok w = (Inr p, w) \<Longrightarrow>
      refuses (h (ctx\<lparr>hc_principal := Some p\<rparr>) r)"
  shows "refuses (Authenticate v h ctx r)"
  unfolding Authenticate_def
proof (rule refuses_lift)
  fix err assume "bearer_token r = Inl err"
  then show "KindOf err \<in> {KindInvalid, KindUnauthorized, KindForbidden}" by (simp add: error_kinds(3))
next
  fix tok assume tok: "bearer_token r = Inr tok"
  show "refuses (or_writeError (Verify v tok) (\<lambda>who. h (ctx\<lparr>hc_principal := Some who\<rparr>) r))"
    unfolding refuses_def
  proof
    fix w
    obtain x w1 where v: "Verify v tok w = (x, w1)" by (cases "Verify v tok w")
    have w1: "w1 = w" by (rule Verify_same_world [OF v])
    show "\<exists>resp. or_writeError (Verify v tok) (\<lambda>who. h (ctx\<lparr>hc_principal := Some who\<rparr>) r) w = (Inr resp, w) \<and>
        refusal resp"
    proof (cases x)
      case (Inl err)
      then have "refuses (writeError err)" using error_kinds(5) v by (auto intro: refuses_writeError)
      then show ?thesis using v w1 Inl by (simp add: or_writeError_def bindM_def attempt_def refuses_def)
    next
      case (Inr p)
      then have "refuses (h (ctx\<lparr>hc_principal := Some p\<rparr>) r)" using assms [OF tok] v w1 by simp
      then show ?thesis using v w1 Inr by (simp add: or_writeError_def bindM_def attempt_def refuses_def)
    qed
  qed
qed

lemma refuses_RequireRoles:
  assumes "list_ex (HasRole p) roles \<Longrightarrow> refuses (h (ctx\<lparr>hc_principal := Some p\<rparr>) r)"
  shows "refuses (RequireRoles roles h (ctx\<lparr>hc_principal := Some p\<rparr>) r)"
  using assms by (auto simp: RequireRoles_def forbidden_def intro!: refuses_writeError)

lemma refuses_internal_only:
  assumes "\<And>tok p w. bearer_token r = Inr tok \<Longrightarrow> Verify (ap_verifier api) tok w = (Inr p, w) \<Longrightarrow>
      \<not> HasRole p RoleInternal"
  shows "refuses (internal_only api h ctx r)"
  unfolding internal_only_def
proof (rule refuses_Authenticate)
  fix tok p w assume "bearer_token r = Inr tok" and "Verify (ap_verifier api) tok w = (Inr p, w)"
  then have "\<not> HasRole p RoleInternal" by (rule assms)
  then show "refuses (RequireRoles [RoleInternal] h (ctx\<lparr>hc_principal := Some p\<rparr>) r)"
    by (intro refuses_RequireRoles) simp
qed

lemma refuses_provider_or_internal:
  assumes "token_denied api r" and "\<not> public_route (hr_route r)"
    and "\<And>p. \<not> permitted p r \<Longrightarrow> \<not> HasRole p RoleInternal \<Longrightarrow> HasRole p RoleProvider \<Longrightarrow>
      refuses (h (ctx\<lparr>hc_principal := Some p\<rparr>) r)"
  shows "refuses (provider_or_internal api h ctx r)"
  unfolding provider_or_internal_def
proof (rule refuses_Authenticate)
  fix tok p w assume "bearer_token r = Inr tok" and "Verify (ap_verifier api) tok w = (Inr p, w)"
  then have "\<not> permitted p r" using assms(1) by (auto simp: token_denied_def)
  then show "refuses (RequireRoles [RoleProvider, RoleInternal] h (ctx\<lparr>hc_principal := Some p\<rparr>) r)"
    using assms(2,3) by (intro refuses_RequireRoles) (auto simp: permitted_def)
qed

lemma refuses_route:
  assumes "token_denied api r" and "\<not> public_route (hr_route r)"
  shows "refuses (route_handler L api (hr_route r) ctx r)"
proof -
  have internal: "\<not> HasRole p RoleInternal"
    if "bearer_token r = Inr tok" "Verify (ap_verifier api) tok w = (Inr p, w)" for tok p w
    using assms that by (auto simp: token_denied_def permitted_def)
  note rules = refuses_internal_only [OF internal] refuses_provider_or_internal [OF assms] refuses_provider_handlers
  show ?thesis
    using assms(2)
    by (cases "hr_route r")
      (auto simp: route_handler_def public_route_def intro: rules,
       auto simp: permitted_def intro!: refuses_provider_or_internal [OF assms])
qed

subsection \<open>What a provider sees\<close>

definition not_transaction :: "response \<Rightarrow> bool" where
  "not_transaction resp \<longleftrightarrow> (\<forall>t. rsp_payload resp \<noteq> TransactionBody t)"

definition seen_by_owner :: "http_api \<Rightarrow> http_request \<Rightarrow> response \<Rightarrow> bool" where
  "seen_by_owner api r resp \<longleftrightarrow>
     (\<forall>t. rsp_payload resp = TransactionBody t \<longrightarrow>
        (\<exists>tok p w. bearer_token r = Inr tok \<and> Verify (ap_verifier api) tok w = (Inr p, w) \<and>
           (HasRole p RoleInternal \<or> own_provider p (tp_ProviderID t))))"

lemma answers_mono: "answers P m \<Longrightarrow> (\<And>resp. P resp \<Longrightarrow> Q resp) \<Longrightarrow> answers Q m"
  by (fastforce simp: answers_def)

lemma not_transaction_seen: "answers not_transaction m \<Longrightarrow> answers (seen_by_owner api r) m"
  by (erule answers_mono) (simp add: not_transaction_def seen_by_owner_def)

lemma not_transaction_writeError: "answers not_transaction (writeError err)"
  by (simp add: writeError_def Let_def answers_writeJSON not_transaction_def)

lemma not_transaction_submit: "answers not_transaction (submit_response L res)"
  by (auto simp: submit_response_def writeRejection_def Let_def not_transaction_def intro!: answers_writeJSON)

lemma not_transaction_handlers:
  "answers not_transaction (submit_handler L c ctx r)" "answers not_transaction (open_handler L ctx r)"
  "answers not_transaction (get_wallet_handler L ctx r)" "answers not_transaction (ledger_handler L ctx r)"
  "answers not_transaction (reconcile_handler L ctx r)" "answers not_transaction (live_handler ctx r)"
  unfolding submit_handler_def open_handler_def get_wallet_handler_def ledger_handler_def
    reconcile_handler_def live_handler_def
  by (intro answers_or_writeError not_transaction_writeError not_transaction_submit answers_writeJSON;
      simp add: not_transaction_def)+

lemma not_transaction_ready: "answers not_transaction (ready_handler probes ctx r)"
  by (simp add: answers_def ready_handler_def Let_def writeJSON_eq not_transaction_def)

lemma stmt_Inr: "stmt L f w = (Inr v, w') \<Longrightarrow> \<exists>d. f (wd_db (tick L w)) = Inr (v, d)"
  by (auto simp: stmt_def Let_def split: if_splits option.splits sum.splits)

lemma scanTransaction_provider: "scanTransaction row = Inr t \<Longrightarrow> t_providerID t = derefString (tr_provider_id row)"
  by (auto simp: scanTransaction_def and_then_def tx_Rehydrate_def Let_def split: if_splits sum.splits option.splits)

lemma GetByProviderExternal_provider:
  assumes "GetByProviderExternal L p x w = (Inr t, w')"
  shows "t_providerID t = p"
proof -
  obtain row w1 where q: "stmt L (sql_tx_by_external p x) w = (Inr row, w1)" and s: "scan_tx_row row w1 = (Inr t, w')"
    using assms
    by (auto simp: GetByProviderExternal_def transactions_GetByProviderExternal_def bindM_def scan_error_def
        on_error_def split: prod.splits sum.splits)
  from stmt_Inr [OF q] obtain d where
    f: "row = find (\<lambda>r. tr_provider_id r = Some p \<and> tr_external_transaction_id r = Some x \<and> tr_origin r = ''EXTERNAL'') d"
    by (auto simp: sql_tx_by_external_def)
  from s obtain r where "row = Some r" and t: "scanTransaction r = Inr t"
    by (cases row) (auto simp: scan_tx_row_def throw_def lift_def)
  then have "tr_provider_id r = Some p" using f by (auto simp: find_Some_iff)
  then show ?thesis using scanTransaction_provider [OF t] by (simp add: derefString_def)
qed

lemma answers_transaction_handlers:
  assumes "hc_principal ctx = Some p" and "bearer_token r = Inr tok" and "Verify (ap_verifier api) tok w = (Inr p, w)"
  shows "answers (seen_by_owner api r) (get_transaction_handler L ctx r)"
    and "answers (seen_by_owner api r) (get_by_external_handler L ctx r)"
proof -
  note errors = not_transaction_seen [OF not_transaction_writeError]
  have ok: "HasRole p RoleInternal \<or> own_provider p pid" if "authorizeProvider ctx pid = Inr ()" for pid
    using that assms(1) by (auto simp: authorizeProvider_def own_provider_def split: if_splits)
  have shown: "answers (seen_by_owner api r) (writeJSON s (TransactionBody (toTransactionResponse L t)))"
    if "authorizeProvider ctx (t_providerID t) = Inr ()" for s t
    using ok [OF that] assms(2,3)
    by (intro answers_writeJSON) (auto simp: seen_by_owner_def toTransactionResponse_def)
  show "answers (seen_by_owner api r) (get_transaction_handler L ctx r)"
    unfolding get_transaction_handler_def
    by (intro answers_or_writeError_ok errors shown) (simp add: lift_def)
  show "answers (seen_by_owner api r) (get_by_external_handler L ctx r)"
    unfolding get_by_external_handler_def
    by (intro answers_or_writeError_ok errors shown) (auto simp: lift_def dest: GetByProviderExternal_provider)
qed

lemma answers_Authenticate:
  assumes "\<And>err. answers P (writeError err)"
    and "\<And>tok p w. bearer_token r = Inr tok \<Longrightarrow> Verify v tok w = (Inr p, w) \<Longrightarrow> answers P (h (ctx\<lparr>hc_principal := Some p\<rparr>) r)"
  shows "answers P (Authenticate v h ctx r)"
  unfolding Authenticate_def
  by (intro answers_or_writeError_ok assms) (auto simp: lift_def dest: Verify_same_world)

lemma answers_RequireRoles:
  "(\<And>err. answers P (writeError err)) \<Longrightarrow> answers P (h ctx r) \<Longrightarrow> answers P (RequireRoles roles h ctx r)"
  by (simp add: RequireRoles_def split: option.split)

lemma route_seen_by_owner: "answers (seen_by_owner api r) (route_handler L api route ctx r)"
proof -
  note errors = not_transaction_seen [OF not_transaction_writeError]
  show ?thesis
    unfolding route_handler_def internal_only_def provider_or_internal_def
    by (cases route)
      (auto intro!: answers_Authenticate answers_RequireRoles errors not_transaction_seen [OF not_transaction_handlers(1)]
        not_transaction_seen [OF not_transaction_handlers(2)] not_transaction_seen [OF not_transaction_handlers(3)]
        not_transaction_seen [OF not_transaction_handlers(4)] not_transaction_seen [OF not_transaction_handlers(5)]
        not_transaction_seen [OF not_transaction_handlers(6)] not_transaction_seen [OF not_transaction_ready]
        answers_transaction_handlers answers_writeJSON simp: seen_by_owner_def)
qed

text \<open>The first middleware adds the request identifier to what the route answers.\<close>

lemma ServeHTTP_eq:
  obtains i w1 where "w1 = w \<or> w1 = tick L w"
    and "ServeHTTP L api r w =
      bindM (route_handler L api (hr_route r) \<lparr>hc_principal = None, hc_requestID = i\<rparr> r)
        (\<lambda>resp. ret (resp\<lparr>rsp_requestID := i\<rparr>)) w1"
  unfolding ServeHTTP_def
  using RequestID_eq [of w L "route_handler L api (hr_route r)" "\<lparr>hc_principal = None, hc_requestID = ''''\<rparr>" r]
  by (metis http_context.update_convs(2))

lemma ServeHTTP_answers:
  assumes "\<And>ctx. answers P (route_handler L api (hr_route r) ctx r)"
    and "\<And>resp i. P resp \<Longrightarrow> P (resp\<lparr>rsp_requestID := i\<rparr>)"
  shows "answers P (ServeHTTP L api r)"
  unfolding answers_def
proof
  fix w
  obtain i w1 where q: "ServeHTTP L api r w =
      bindM (route_handler L api (hr_route r) \<lparr>hc_principal = None, hc_requestID = i\<rparr> r)
        (\<lambda>resp. ret (resp\<lparr>rsp_requestID := i\<rparr>)) w1"
    by (rule ServeHTTP_eq)
  obtain resp w2 where "route_handler L api (hr_route r) \<lparr>hc_principal = None, hc_requestID = i\<rparr> r w1 = (Inr resp, w2)"
    and "P resp"
    using assms(1) [unfolded answers_def] by blast
  then show "\<exists>resp w'. ServeHTTP L api r w = (Inr resp, w') \<and> P resp"
    using assms(2) by (auto simp: q bindM_def ret_def)
qed

subsection \<open>A sample interface\<close>

definition sample_api :: http_api where
  "sample_api = \<lparr>ap_config = sample_config,
     ap_verifier = \<lparr>vf_verify = (\<lambda>n tok.
         if tok = ''t'' then Inr (''game'', Some [(''provider_id'', ClaimString ''p''),
           (''realm_access'', ClaimObject [(''roles'', ClaimArray [ClaimString ''provider''])])])
         else Inl (LibError ''oidc: malformed jwt'')),
       vf_rolesClaim = ''realm_access.roles'', vf_providerClaim = ''provider_id''\<rparr>,
     ap_probes = \<lparr>hp_database = (\<lambda>_. True), hp_queue = (\<lambda>_. False)\<rparr>\<rparr>"

definition sample_get :: "string \<Rightarrow> http_request" where
  "sample_get providerID = \<lparr>hr_route = GetByExternalRoute,
     hr_header = (\<lambda>h. if h = ''Authorization'' then ''Bearer t'' else ''''), hr_query = (\<lambda>_. ''''),
     hr_param = (\<lambda>p. if p = ''providerId'' then providerID else ''x''), hr_body = ''''\<rparr>"

definition sample_shown :: world where
  "sample_shown = sample_world\<lparr>wd_db := sample_db\<lparr>db_transactions := [tx_to_row sample_tx]\<rparr>\<rparr>"

definition sample_entry :: entry where
  "sample_entry = \<lparr>e_id = 9, e_walletID = 1, e_transactionID = 3, e_direction = DirectionCredit,
     e_amount = \<lparr>m_amount = 500, m_currency = ''BRL''\<rparr>, e_balanceBefore = \<lparr>m_amount = 0, m_currency = ''BRL''\<rparr>,
     e_balanceAfter = \<lparr>m_amount = 500, m_currency = ''BRL''\<rparr>, e_createdAt = 63800000000123456789\<rparr>"

lemma sample_token: "bearer_token (sample_get pid) = Inr ''t''"
  by code_simp

lemma sample_principal:
  "Verify (ap_verifier sample_api) ''t'' w = (Inr \<lparr>pr_Subject = ''game'', pr_ProviderID = ''p'', pr_Roles = [''provider'']\<rparr>, w)"
proof -
  let ?claims = "[(''provider_id'', ClaimString ''p''),
           (''realm_access'', ClaimObject [(''roles'', ClaimArray [ClaimString ''provider''])])]"
  have "lookupClaim ?claims ''provider_id'' = Some (ClaimString ''p'')" by code_simp
  moreover have "extractRoles ?claims ''realm_access.roles'' = [''provider'']" by code_simp
  ultimately show ?thesis by (simp add: Verify_def sample_api_def)
qed

lemma sample_get_fields [simp]:
  "hr_route (sample_get pid) = GetByExternalRoute" "hr_param (sample_get pid) ''providerId'' = pid"
  "hr_param (sample_get pid) ''externalTransactionId'' = ''x''"
  "hr_header (sample_get pid) ''X-Request-Id'' = ''''" "hr_header (sample_get pid) ''X-Correlation-Id'' = ''''"
  by (simp_all add: sample_get_def)

lemma sample_stored:
  "GetByProviderExternal sample_lib ''p'' ''x'' w = (Inr sample_tx, tick sample_lib w)"
  if "db_transactions (wd_db w) = [tx_to_row sample_tx]" "\<not> wd_aborted w"
proof -
  have row: "scanTransaction (tx_to_row sample_tx) = Inr sample_tx" by code_simp
  have "find (\<lambda>r. tr_provider_id r = Some ''p'' \<and> tr_external_transaction_id r = Some ''x'' \<and> tr_origin r = ''EXTERNAL'')
      [tx_to_row sample_tx] = Some (tx_to_row sample_tx)"
    by (simp add: tx_to_row_def sample_tx_def nullableString_def)
  then show ?thesis
    using that row
    by (simp add: GetByProviderExternal_def transactions_GetByProviderExternal_def scan_error_def on_error_def
        stmt_def sql_tx_by_external_def sample_lib_def tick_def bindM_def lift_def scan_tx_row_def)
qed

lemma sample_answer:
  "\<exists>w'. ServeHTTP sample_lib sample_api (sample_get ''p'') sample_shown =
     (Inr \<lparr>rsp_status = 200, rsp_payload = TransactionBody (toTransactionResponse sample_lib sample_tx),
        rsp_requestID = decimal_uuid 20\<rparr>, w')"
proof -
  have "db_transactions (wd_db (tick sample_lib sample_shown)) = [tx_to_row sample_tx]"
    "\<not> wd_aborted (tick sample_lib sample_shown)"
    by (simp_all add: tick_def sample_shown_def sample_lib_def sample_world_def)
  note stored = sample_stored [OF this]
  have i: "lib_uuid_String sample_lib (lib_NewV7 sample_lib (wd_step sample_shown)) = decimal_uuid 20"
    by (simp add: sample_lib_def sample_shown_def sample_world_def)
  show ?thesis
    by (simp add: ServeHTTP_def RequestID_def route_handler_def provider_or_internal_def Authenticate_def
        or_writeError_def bindM_def attempt_def lift_def sample_token sample_principal RequireRoles_def
        HasRole_def get_by_external_handler_def authorizeProvider_def RoleInternal_def RoleProvider_def
        stored uuid_NewV7_def ret_def writeJSON_eq i)
qed

lemma sample_denied: "token_denied sample_api (sample_get ''q'')"
  by (auto simp: token_denied_def sample_token sample_principal permitted_def own_provider_def HasRole_def
      RoleInternal_def RoleProvider_def)

subsection \<open>Properties\<close>

text \<open>
  (C7) Access is denied before anything happens: a request on a protected route whose token is
  missing, invalid, or stands for nobody who is permitted to make it (an internal identity, or a
  provider acting for itself on an operation of its own) is answered with an error of status 400,
  401 or 403, and the service touches neither the database nor the broker nor a counter.
\<close>

theorem access_denied_changes_nothing:
  assumes "token_denied api r" and "\<not> public_route (hr_route r)"
  shows "\<exists>resp w'. ServeHTTP L api r w = (Inr resp, w') \<and> (w' = w \<or> w' = tick L w) \<and>
    rsp_status resp \<in> {400, 401, 403} \<and> (\<exists>e. rsp_payload resp = ErrorBody e)"
proof -
  obtain i w1 where w1: "w1 = w \<or> w1 = tick L w" and q: "ServeHTTP L api r w =
      bindM (route_handler L api (hr_route r) \<lparr>hc_principal = None, hc_requestID = i\<rparr> r)
        (\<lambda>resp. ret (resp\<lparr>rsp_requestID := i\<rparr>)) w1"
    by (rule ServeHTTP_eq)
  obtain resp where "route_handler L api (hr_route r) \<lparr>hc_principal = None, hc_requestID = i\<rparr> r w1 = (Inr resp, w1)"
    and "refusal resp"
    using refuses_route [OF assms] unfolding refuses_def by blast
  then show ?thesis using w1 by (auto simp: q bindM_def ret_def refusal_def)
qed

theorem access_denied_changes_nothing_witness:
  "\<exists>resp w'. ServeHTTP sample_lib sample_api (sample_get ''q'') sample_shown = (Inr resp, w') \<and>
     rsp_status resp \<in> {400, 401, 403} \<and> db_transactions (wd_db w') = [tx_to_row sample_tx]"
proof -
  have "\<not> public_route (hr_route (sample_get ''q''))" by (simp add: public_route_def)
  from access_denied_changes_nothing [OF sample_denied this, of sample_lib sample_shown] show ?thesis
    by (auto simp: sample_shown_def tick_def sample_lib_def sample_world_def)
qed

text \<open>
  (C9) A provider sees only its own transactions: whenever a response carries a transaction, the
  bearer token of the request was verified and stands for an internal identity or for the
  provider the transaction belongs to.
\<close>

theorem provider_sees_own_transactions:
  assumes "ServeHTTP L api r w = (Inr resp, w')" and "rsp_payload resp = TransactionBody t"
  shows "\<exists>tok p u. bearer_token r = Inr tok \<and> Verify (ap_verifier api) tok u = (Inr p, u) \<and>
    (HasRole p RoleInternal \<or> pr_ProviderID p \<noteq> '''' \<and> tp_ProviderID t = pr_ProviderID p)"
proof -
  have "answers (seen_by_owner api r) (ServeHTTP L api r)"
    by (intro ServeHTTP_answers route_seen_by_owner) (simp add: seen_by_owner_def)
  then obtain resp' w'' where "ServeHTTP L api r w = (Inr resp', w'')" and "seen_by_owner api r resp'"
    unfolding answers_def by blast
  then have "seen_by_owner api r resp" using assms(1) by simp
  then obtain tok p u u' where "bearer_token r = Inr tok" and v: "Verify (ap_verifier api) tok u = (Inr p, u')"
    and "HasRole p RoleInternal \<or> own_provider p (tp_ProviderID t)"
    using assms(2) unfolding seen_by_owner_def by blast
  then show ?thesis using Verify_same_world [OF v] by (auto simp: own_provider_def)
qed

theorem provider_sees_own_transactions_witness:
  "\<exists>tok p u. bearer_token (sample_get ''p'') = Inr tok \<and> Verify (ap_verifier sample_api) tok u = (Inr p, u) \<and>
    (HasRole p RoleInternal \<or> pr_ProviderID p \<noteq> '''' \<and> ''p'' = pr_ProviderID p)"
proof -
  obtain w' where a: "ServeHTTP sample_lib sample_api (sample_get ''p'') sample_shown =
     (Inr \<lparr>rsp_status = 200, rsp_payload = TransactionBody (toTransactionResponse sample_lib sample_tx),
        rsp_requestID = decimal_uuid 20\<rparr>, w')"
    using sample_answer by blast
  have "tp_ProviderID (toTransactionResponse sample_lib sample_tx) = ''p''"
    by (simp add: toTransactionResponse_def sample_tx_def)
  then show ?thesis using provider_sees_own_transactions [OF a] by simp
qed



text \<open>
  (C21) The cursor of a ledger page is read back to exactly the position of the page's last
  entry, so that the next page starts behind it.
\<close>

theorem ledger_cursor_round_trip:
  assumes "lib_uuid_Parse L (lib_uuid_String L (e_id final)) = Inr (e_id final)"
    and "0 \<le> fst (civil_of_day (e_createdAt final div 1000000000 div 86400))"
    and "fst (civil_of_day (e_createdAt final div 1000000000 div 86400)) \<le> 9999"
    and "lp_HasMore page" and "lp_Entries page = es @ [final]"
  shows "decodeCursor (lib_uuid_Parse L) (lgp_NextCursor (toLedgerResponse L page)) =
    Inr (Some \<lparr>lc_CreatedAt = e_createdAt final, lc_ID = e_id final\<rparr>)"
proof -
  let ?raw = "Format_RFC3339Nano (e_createdAt final) @ ''|'' @ lib_uuid_String L (e_id final)"
  have c: "lgp_NextCursor (toLedgerResponse L page) = base64_EncodeToString ?raw"
    using assms(4,5) by (simp add: toLedgerResponse_def encodeCursor_def Let_def)
  have n: "base64_EncodeToString ?raw \<noteq> ''''"
  proof
    assume "base64_EncodeToString ?raw = ''''"
    then have "base64_DecodeString '''' = Some ?raw" using base64_round_trip [of ?raw] by simp
    then show False by (simp add: base64_DecodeString_def)
  qed
  have "CHR ''|'' \<notin> set (Format_RFC3339Nano (e_createdAt final))"
    using set_Format [of "CHR ''|''" "e_createdAt final"] by (auto simp: is_digit_def)
  then have "SplitN2 ?raw (CHR ''|'') = [Format_RFC3339Nano (e_createdAt final), lib_uuid_String L (e_id final)]"
    by (simp add: SplitN2_def Cut_at)
  then show ?thesis
    using assms(1) Parse_Format [OF assms(2,3)] n unfolding c
    by (simp add: decodeCursor_def base64_round_trip)
qed

theorem ledger_cursor_round_trip_witness:
  "decodeCursor parse_decimal_uuid (lgp_NextCursor (toLedgerResponse sample_lib
     \<lparr>lp_Entries = [sample_entry], lp_HasMore = True\<rparr>)) =
   Inr (Some \<lparr>lc_CreatedAt = 63800000000123456789, lc_ID = 9\<rparr>)"
proof -
  have l: "lib_uuid_Parse sample_lib = parse_decimal_uuid" "lib_uuid_String sample_lib = decimal_uuid"
    by (simp_all add: sample_lib_def)
  let ?page = "\<lparr>lp_Entries = [sample_entry], lp_HasMore = True\<rparr>"
  have y: "fst (civil_of_day (e_createdAt sample_entry div 1000000000 div 86400)) = 2022" by code_simp
  have "decodeCursor (lib_uuid_Parse sample_lib) (lgp_NextCursor (toLedgerResponse sample_lib ?page)) =
      Inr (Some \<lparr>lc_CreatedAt = e_createdAt sample_entry, lc_ID = e_id sample_entry\<rparr>)"
    by (rule ledger_cursor_round_trip [where es = "[]"]) (simp_all add: y l parse_decimal_uuid)
  then show ?thesis by (simp only: l) (simp add: sample_entry_def)
qed

end
