(* ===== verification/Idempotency.thy ===== *)
theory Idempotency
  imports Consumer
begin

section \<open>An operation is applied at most once\<close>

text \<open>
  What \<open>Process\<close> does with an operation that is recorded already, under the same external
  identifier or the same idempotency key: nothing, whatever fails and whoever else is writing;
  and it answers with the recorded outcome, or refuses when the payload differs.
\<close>

definition known_by :: "(tx_row \<Rightarrow> bool) \<Rightarrow> db \<Rightarrow> bool" where
  "known_by P d \<longleftrightarrow> (\<exists>r \<in> set (db_transactions d). P r)"

definition is_operation :: "string \<Rightarrow> string \<Rightarrow> tx_row \<Rightarrow> bool" where
  "is_operation p x r \<longleftrightarrow>
     tr_provider_id r = Some p \<and> tr_external_transaction_id r = Some x \<and> tr_origin r = ''EXTERNAL''"

definition is_keyed :: "string \<Rightarrow> string \<Rightarrow> tx_row \<Rightarrow> bool" where
  "is_keyed p k r \<longleftrightarrow>
     tr_provider_id r = Some p \<and> tr_idempotency_key r = Some k \<and> tr_origin r = ''EXTERNAL''"

text \<open>What is asked of the other connections: they do not forget operations.\<close>

definition operations_kept :: "lib \<Rightarrow> bool" where
  "operations_kept L \<longleftrightarrow> (\<forall>n d p x.
     (known_by (is_operation p x) d \<longrightarrow> known_by (is_operation p x) (lib_others L n d)) \<and>
     (known_by (is_keyed p x) d \<longrightarrow> known_by (is_keyed p x) (lib_others L n d)))"

definition known_operation :: "ProcessCommand \<Rightarrow> db \<Rightarrow> bool" where
  "known_operation cmd d \<longleftrightarrow> known_by (is_operation (cmd_ProviderID cmd) (cmd_ExternalTransactionID cmd)) d \<or>
     known_by (is_keyed (cmd_ProviderID cmd) (cmd_IdempotencyKey cmd)) d"

lemma known_others: "operations_kept L \<Longrightarrow> known_operation cmd d \<Longrightarrow> known_operation cmd (lib_others L n d)"
  by (auto simp: operations_kept_def known_operation_def)

lemma known_drift: "operations_kept L \<Longrightarrow> known_operation cmd d \<Longrightarrow> known_operation cmd (drift L i j d)"
proof -
  assume k: "operations_kept L" and d: "known_operation cmd d"
  have "known_operation cmd (fold (lib_others L) ns d)" for ns
    using d by (induction ns arbitrary: d) (auto intro: known_others [OF k])
  then show ?thesis by (simp add: drift_def)
qed

subsection \<open>The look-ups\<close>

lemma KindOf_plain [simp]:
  "KindOf (apperr_New k c m) = k" "KindOf (LibError s) = KindInternal" "KindOf (PgError a b) = KindInternal"
  "KindOf (WrapError s (LibError t)) = KindInternal" "KindOf (WrapError s (PgError a b)) = KindInternal"
  by (simp_all add: KindOf_def errors_As_app_def apperr_New_def is_app_error_def)

lemma parse_errors:
  "NewCurrency c = Inl e \<Longrightarrow> KindOf e = KindInvalid" "FromMinorUnits u c = Inl e \<Longrightarrow> KindOf e = KindInvalid"
  "ParseKind s = Inl e \<Longrightarrow> KindOf e = KindInvalid" "ParseStatus s = Inl e \<Longrightarrow> KindOf e = KindInvalid"
  "tx_Rehydrate t = Inl e \<Longrightarrow> KindOf e = KindInvalid"
  by (auto simp: NewCurrency_def FromMinorUnits_def ParseKind_def ParseStatus_def tx_Rehydrate_def tx_invalid_def
      split: if_splits)

lemma scanTransaction_error: "scanTransaction row = Inl e \<Longrightarrow> KindOf e = KindInvalid"
  unfolding scanTransaction_def and_then_Inl_iff
  by (elim disjE exE conjE; (erule parse_errors)?)
    (auto simp: and_then_Inl_iff dest: parse_errors split: option.splits)

text \<open>A look-up that reports that nothing was found has looked at a database without the row.\<close>

lemma lookup_not_found:
  assumes "bindM (scan_error (stmt L f)) scan_tx_row w = (Inl e, w')" and "KindOf e = KindNotFound"
    and "\<And>d. f d = Inr (find P (db_transactions d), d)"
  shows "\<not> known_by P (lib_others L (wd_step w) (wd_db w))"
proof
  assume "known_by P (lib_others L (wd_step w) (wd_db w))"
  then obtain row where row: "find P (db_transactions (lib_others L (wd_step w) (wd_db w))) = Some row"
    by (cases "find P (db_transactions (lib_others L (wd_step w) (wd_db w)))") (auto simp: known_by_def find_None_iff)
  show False
    using assms row scanTransaction_error [of row]
    by (auto simp: bindM_def scan_error_def on_error_def stmt_def tick_def Let_def scan_tx_row_def lift_def
        aborted_error_def split: if_splits option.splits sum.splits)
qed

lemma lookups_not_found:
  "transactions_GetByProviderExternal L p x w = (Inl e, w') \<Longrightarrow> KindOf e = KindNotFound \<Longrightarrow>
     \<not> known_by (is_operation p x) (lib_others L (wd_step w) (wd_db w))"
  "transactions_GetByProviderIdempotencyKey L p x w = (Inl e, w') \<Longrightarrow> KindOf e = KindNotFound \<Longrightarrow>
     \<not> known_by (is_keyed p x) (lib_others L (wd_step w) (wd_db w))"
  unfolding transactions_GetByProviderExternal_def transactions_GetByProviderIdempotencyKey_def
  by (erule lookup_not_found; simp add: sql_tx_by_external_def sql_tx_by_key_def is_operation_def [abs_def]
      is_keyed_def [abs_def])+

text \<open>A look-up takes one step, so it leaves the database it has looked at.\<close>

lemma lookup_world:
  assumes "bindM (scan_error (stmt L f)) scan_tx_row w = (r, w')" and "\<And>d v d'. f d = Inr (v, d') \<Longrightarrow> d' = d"
  shows "wd_db w' = lib_others L (wd_step w) (wd_db w)"
  using assms
  by (auto simp: bindM_def scan_error_def on_error_def stmt_def tick_def Let_def scan_tx_row_def lift_def throw_def
      fail_world_def split: if_splits option.splits sum.splits prod.splits)

lemma lookups_world:
  "transactions_GetByProviderExternal L p x w = (r, w') \<Longrightarrow> wd_db w' = lib_others L (wd_step w) (wd_db w)"
  "transactions_GetByProviderIdempotencyKey L p x w = (r, w') \<Longrightarrow> wd_db w' = lib_others L (wd_step w) (wd_db w)"
  unfolding transactions_GetByProviderExternal_def transactions_GetByProviderIdempotencyKey_def
  by (erule lookup_world; simp add: sql_tx_by_external_def sql_tx_by_key_def)+

subsection \<open>Nothing is written\<close>

lemma idle_processOnce:
  assumes kept: "operations_kept L"
  shows "idle_when L (known_operation cmd) (processOnce L c cmd h)"
proof -
  have "wd_step w \<le> wd_step w' \<and> wd_db w' = drift L (wd_step w) (wd_step w') (wd_db w)"
    if known: "known_operation cmd (wd_db w)" and run: "processOnce L c cmd h w = (r, w')" for w r w'
  proof -
    let ?ext = "transactions_GetByProviderExternal L (cmd_ProviderID cmd) (cmd_ExternalTransactionID cmd)"
    let ?key = "transactions_GetByProviderIdempotencyKey L (cmd_ProviderID cmd) (cmd_IdempotencyKey cmd)"
    have then_idle: "wd_step w \<le> wd_step w' \<and> wd_db w' = drift L (wd_step w) (wd_step w') (wd_db w)"
      if "wd_step w \<le> wd_step v" "wd_db v = drift L (wd_step w) (wd_step v) (wd_db w)"
        and "reads L m" "m v = (q, w')" for v and m :: "'b io" and q
      using that reads_step [OF that(3,4)] reads_db [OF that(3,4)]
        drift_trans [of "wd_step w" "wd_step v" "wd_step w'" L "wd_db w"] by simp
    obtain x w2 where e: "?ext (tick L w) = (x, w2)" by (cases "?ext (tick L w)")
    have re: "reads L ?ext" by (intro reads_rules)
    have w2: "wd_step w \<le> wd_step w2" "wd_db w2 = drift L (wd_step w) (wd_step w2) (wd_db w)"
      using reads_step [OF re e] reads_db [OF re e] drift_trans [of "wd_step w" "Suc (wd_step w)" "wd_step w2" L "wd_db w"]
      by (simp_all add: drift_Suc)
    show ?thesis
    proof (cases "\<exists>err. x = Inl err \<and> KindOf err = KindNotFound")
      case False
      then have "(case x of Inr existing \<Rightarrow> replay existing h | Inl err \<Rightarrow> throw err) w2 = (r, w')"
        using run e by (auto simp: processOnce_def bindM_def read_clock_def attempt_def split: sum.splits)
      then show ?thesis by (rule then_idle [OF w2, rotated]) (intro reads_rules)
    next
      case True
      then obtain err where x: "x = Inl err" "KindOf err = KindNotFound" by blast
      have "known_operation cmd (wd_db w2)" using known_drift [OF kept known] w2(2) by simp
      moreover have "\<not> known_by (is_operation (cmd_ProviderID cmd) (cmd_ExternalTransactionID cmd)) (wd_db w2)"
        using lookups_not_found(1) [OF e [unfolded x(1)] x(2)] lookups_world(1) [OF e] by simp
      ultimately have "known_by (is_keyed (cmd_ProviderID cmd) (cmd_IdempotencyKey cmd)) (wd_db w2)"
        by (simp add: known_operation_def)
      then have found: "known_by (is_keyed (cmd_ProviderID cmd) (cmd_IdempotencyKey cmd)) (lib_others L (wd_step w2) (wd_db w2))"
        using kept by (simp add: operations_kept_def)
      obtain y w3 where k: "?key w2 = (y, w3)" by (cases "?key w2")
      have rk: "reads L ?key" by (intro reads_rules)
      have w3: "wd_step w \<le> wd_step w3" "wd_db w3 = drift L (wd_step w) (wd_step w3) (wd_db w)"
        using reads_step [OF rk k] reads_db [OF rk k] w2 drift_trans [of "wd_step w" "wd_step w2" "wd_step w3" L "wd_db w"]
        by simp_all
      have "KindOf err' \<noteq> KindNotFound" if "y = Inl err'" for err'
        using lookups_not_found(2) [OF k [unfolded that]] found by blast
      then have "(case y of
          Inr byKey \<Rightarrow> if t_externalTransactionID byKey = cmd_ExternalTransactionID cmd \<and> t_payloadHash byKey = h
            then replay byKey h else throw ErrIdempotencyConflict
        | Inl err \<Rightarrow> throw err) w3 = (r, w')"
        using run e x k by (auto simp: processOnce_def bindM_def read_clock_def attempt_def split: sum.splits if_splits)
      then show ?thesis by (rule then_idle [OF w3, rotated]) (intro reads_rules)
    qed
  qed
  then show ?thesis by (simp add: idle_when_def) (metis prod.collapse)
qed

lemma note_conflict_result:
  "\<exists>w'. note_conflict err w = (Inr (), w') \<and> wd_step w' = wd_step w \<and> wd_db w' = wd_db w \<and> wd_saves w' = wd_saves w"
  by (simp add: note_conflict_def record_metric_def ret_def)

lemma idle_process_loop:
  assumes kept: "operations_kept L"
  shows "wd_saves w = [] \<Longrightarrow> known_operation cmd (wd_db w) \<Longrightarrow> process_loop L c cmd h n prev w = (r, w') \<Longrightarrow>
    wd_step w \<le> wd_step w' \<and> wd_db w' = drift L (wd_step w) (wd_step w') (wd_db w)"
proof (induction n arbitrary: prev w)
  case 0
  then show ?case by (simp add: throw_def)
next
  case (Suc n)
  let ?m = "WithinTransaction L (processOnce L c cmd h)"
  obtain x w1 where m: "?m w = (x, w1)" by (cases "?m w")
  have fr: "framed L ?m" by (intro framed_rules)
  have w1: "wd_step w \<le> wd_step w1" "wd_saves w1 = []"
    using framed_step [OF fr m] framed_saves [OF fr m] Suc.prems(1) by simp_all
  have db: "wd_db w1 = drift L (wd_step w) (wd_step w1) (wd_db w)"
    by (rule idle_WithinTransaction [OF framed_processOnce idle_processOnce [OF kept] _ Suc.prems(1,2) m])
      (rule known_others [OF kept])
  show ?case
  proof (cases "\<exists>err. x = Inl err \<and> isRetryable err")
    case True
    then obtain err where x: "x = Inl err" "isRetryable err" by blast
    obtain w2 where n: "note_conflict err w1 = (Inr (), w2)"
      and w2: "wd_step w2 = wd_step w1" "wd_db w2 = wd_db w1" "wd_saves w2 = []"
      using note_conflict_result [of err w1] w1 by auto
    have rest: "process_loop L c cmd h n (Some err) w2 = (r, w')"
      using Suc.prems(3) m x n by (simp add: bindM_def attempt_def)
    have "known_operation cmd (wd_db w2)" using known_drift [OF kept Suc.prems(2)] db w2 by simp
    from Suc.IH [OF w2(3) this rest] show ?thesis
      using w1 w2 db drift_trans [of "wd_step w" "wd_step w1" "wd_step w'" L "wd_db w"] by simp
  next
    case False
    then have "w' = w1"
      using Suc.prems(3) m by (auto simp: bindM_def attempt_def ret_def throw_def split: sum.splits)
    then show ?thesis using w1 db by simp
  qed
qed

subsection \<open>What is answered\<close>

definition replayed :: "transaction \<Rightarrow> Result" where
  "replayed t = \<lparr>rs_Transaction = t, rs_Status = t_status t,
     rs_Balance = (case t_resultBalance t of Some b \<Rightarrow> b | None \<Rightarrow> money_zero_value),
     rs_HasBalance = (t_resultBalance t \<noteq> None), rs_FailureCode = t_failureCode t, rs_IdempotentReplay = True\<rparr>"

lemma conflict_not_retryable: "\<not> isRetryable ErrIdempotencyConflict"
  by code_simp

lemma quiet_lookup:
  assumes "quiet L" and "\<not> wd_aborted w" and "find (is_operation p x) (db_transactions (wd_db w)) = Some row"
    and "scanTransaction row = Inr t"
  shows "transactions_GetByProviderExternal L p x w = (Inr t, w\<lparr>wd_step := Suc (wd_step w)\<rparr>)"
proof -
  have "sql_tx_by_external p x (wd_db w) = Inr (Some row, wd_db w)"
    using assms(3) by (simp add: sql_tx_by_external_def is_operation_def [abs_def])
  then show ?thesis
    using assms(1,2,4)
    by (simp add: transactions_GetByProviderExternal_def bindM_def scan_error_def on_error_def quiet_stmt quiet_tick
        scan_tx_row_def lift_def)
qed

lemma quiet_lookup_key:
  assumes "quiet L" and "\<not> wd_aborted w" and "find (is_keyed p k) (db_transactions (wd_db w)) = Some row"
    and "scanTransaction row = Inr t"
  shows "transactions_GetByProviderIdempotencyKey L p k w = (Inr t, w\<lparr>wd_step := Suc (wd_step w)\<rparr>)"
proof -
  have "sql_tx_by_key p k (wd_db w) = Inr (Some row, wd_db w)"
    using assms(3) by (simp add: sql_tx_by_key_def is_keyed_def [abs_def])
  then show ?thesis
    using assms(1,2,4)
    by (simp add: transactions_GetByProviderIdempotencyKey_def bindM_def scan_error_def on_error_def quiet_stmt quiet_tick
        scan_tx_row_def lift_def)
qed

lemma quiet_lookup_none:
  assumes "quiet L" and "\<not> wd_aborted w" and "find (is_operation p x) (db_transactions (wd_db w)) = None"
  shows "transactions_GetByProviderExternal L p x w = (Inl transaction_not_found, w\<lparr>wd_step := Suc (wd_step w)\<rparr>)"
proof -
  have "sql_tx_by_external p x (wd_db w) = Inr (None, wd_db w)"
    using assms(3) by (simp add: sql_tx_by_external_def is_operation_def [abs_def])
  then show ?thesis
    using assms(1,2)
    by (simp add: transactions_GetByProviderExternal_def bindM_def scan_error_def on_error_def quiet_stmt quiet_tick
        scan_tx_row_def throw_def)
qed

text \<open>The outcome of the first run of the transaction is the answer, unless it is to be tried again.\<close>

lemma quiet_Process_answer:
  assumes q: "quiet L" and top: "wd_saves w = []" "\<not> wd_aborted w" and valid: "cmd_Validate cmd = Inr ()"
    and n: "0 \<le> sint (cf_MaxWalletRetries c)"
    and once: "processOnce L c cmd (ComputePayloadHash (lib_sha256 L) (lib_uuid_String L) cmd)
        (w\<lparr>wd_step := Suc (wd_step w), wd_saves := [wd_db w]\<rparr>) = (r, v)"
    and v: "\<not> wd_aborted v" "wd_saves v = [d]" and r: "\<And>e. r = Inl e \<Longrightarrow> \<not> isRetryable e"
  shows "fst (Process L c cmd w) = r"
proof -
  let ?f = "WithinTransaction L (processOnce L c cmd (ComputePayloadHash (lib_sha256 L) (lib_uuid_String L) cmd))"
  have "fst (?f w) = r"
    using quiet_WithinTransaction [OF q top, of "processOnce L c cmd _", OF _ v] quiet_WithinTransaction_Inl [OF q top] once
    by (cases r) fastforce+
  then obtain w3 where "?f w = (r, w3)" by (metis prod.collapse)
  moreover obtain k where "attempts_of c = Suc k"
    using n by (cases "attempts_of c") (simp_all add: attempts_of_def)
  ultimately show ?thesis
    using r valid by (auto simp: Process_def bindM_def lift_def attempt_def ret_def throw_def split: sum.split)
qed

lemma quiet_Process_known:
  assumes q: "quiet L" and top: "wd_saves w = []" "\<not> wd_aborted w" and valid: "cmd_Validate cmd = Inr ()"
    and n: "0 \<le> sint (cf_MaxWalletRetries c)" and h: "h = ComputePayloadHash (lib_sha256 L) (lib_uuid_String L) cmd"
    and row: "find (is_operation (cmd_ProviderID cmd) (cmd_ExternalTransactionID cmd)) (db_transactions (wd_db w)) = Some row"
    and t: "scanTransaction row = Inr t"
  shows "fst (Process L c cmd w) = (if t_payloadHash t = h then Inr (replayed t) else Inl ErrIdempotencyConflict)"
proof -
  let ?w = "w\<lparr>wd_step := Suc (wd_step w), wd_saves := [wd_db w]\<rparr>"
  let ?v = "?w\<lparr>wd_step := Suc (Suc (wd_step ?w))\<rparr>"
  let ?r = "if t_payloadHash t = h then Inr (replayed t) else Inl ErrIdempotencyConflict"
  have "transactions_GetByProviderExternal L (cmd_ProviderID cmd) (cmd_ExternalTransactionID cmd)
      (?w\<lparr>wd_step := Suc (wd_step ?w)\<rparr>) = (Inr t, ?v)"
    using quiet_lookup [OF q _ _ t, of "?w\<lparr>wd_step := Suc (wd_step ?w)\<rparr>"] row top by simp
  then have once: "processOnce L c cmd h ?w = replay t h ?v"
    by (simp add: processOnce_def bindM_def read_clock_def quiet_tick [OF q] attempt_def)
  obtain v where "replay t h ?v = (?r, v)" and v: "\<not> wd_aborted v" "wd_saves v = [wd_db w]"
    using top by (cases "t_payloadHash t = h")
      (simp_all add: replay_def replayed_def bindM_def record_metric_def ret_def throw_def)
  with once have "processOnce L c cmd h ?w = (?r, v)" by simp
  from quiet_Process_answer [OF q top valid n this [unfolded h] v] conflict_not_retryable show ?thesis
    by (auto simp: h split: if_splits)
qed

text \<open>Under a key that another operation has used already, nothing is answered but the conflict.\<close>

lemma scanTransaction_external:
  "scanTransaction row = Inr t \<Longrightarrow> t_externalTransactionID t = derefString (tr_external_transaction_id row)"
  by (auto simp: scanTransaction_def and_then_Inr_iff tx_Rehydrate_def split: if_splits)

lemma quiet_Process_used_key:
  assumes q: "quiet L" and top: "wd_saves w = []" "\<not> wd_aborted w" and valid: "cmd_Validate cmd = Inr ()"
    and n: "0 \<le> sint (cf_MaxWalletRetries c)"
    and new: "find (is_operation (cmd_ProviderID cmd) (cmd_ExternalTransactionID cmd)) (db_transactions (wd_db w)) = None"
    and row: "find (is_keyed (cmd_ProviderID cmd) (cmd_IdempotencyKey cmd)) (db_transactions (wd_db w)) = Some row"
    and t: "scanTransaction row = Inr t"
  shows "fst (Process L c cmd w) = Inl ErrIdempotencyConflict"
proof -
  let ?w = "w\<lparr>wd_step := Suc (wd_step w), wd_saves := [wd_db w]\<rparr>"
  let ?v = "?w\<lparr>wd_step := Suc (Suc (wd_step ?w))\<rparr>"
  let ?u = "?v\<lparr>wd_step := Suc (wd_step ?v)\<rparr>"
  have "transactions_GetByProviderExternal L (cmd_ProviderID cmd) (cmd_ExternalTransactionID cmd)
      (?w\<lparr>wd_step := Suc (wd_step ?w)\<rparr>) = (Inl transaction_not_found, ?v)"
    using quiet_lookup_none [OF q, of "?w\<lparr>wd_step := Suc (wd_step ?w)\<rparr>"] new top by simp
  moreover have "transactions_GetByProviderIdempotencyKey L (cmd_ProviderID cmd) (cmd_IdempotencyKey cmd) ?v = (Inr t, ?u)"
    using quiet_lookup_key [OF q _ _ t, of ?v] row top by simp
  moreover have "row \<in> set (db_transactions (wd_db w))"
    and keyed: "is_keyed (cmd_ProviderID cmd) (cmd_IdempotencyKey cmd) row"
    using row by (auto simp: find_Some_iff)
  then have "\<not> is_operation (cmd_ProviderID cmd) (cmd_ExternalTransactionID cmd) row"
    using new by (simp add: find_None_iff)
  then have "t_externalTransactionID t \<noteq> cmd_ExternalTransactionID cmd"
    using keyed valid scanTransaction_external [OF t]
    by (auto simp: is_operation_def is_keyed_def derefString_def cmd_Validate_def split: option.splits if_splits)
  ultimately have "processOnce L c cmd (ComputePayloadHash (lib_sha256 L) (lib_uuid_String L) cmd) ?w =
      (Inl ErrIdempotencyConflict, ?u)"
    by (simp add: processOnce_def bindM_def read_clock_def quiet_tick [OF q] attempt_def transaction_not_found_def throw_def)
  from quiet_Process_answer [OF q top valid n this] top conflict_not_retryable show ?thesis by simp
qed

subsection \<open>Properties\<close>

text \<open>
  (C6) An operation is applied at most once: when a transaction with the operation's external
  identifier or idempotency key is recorded, processing the operation again, under any faults and
  concurrent writers that forget nothing, changes nothing in the database. Without disturbance an
  operation recorded under its external identifier is answered with the recorded outcome, balance
  and failure code when the payload is the same and refused as an idempotency conflict when it is
  not; and one whose external identifier is new but whose idempotency key another operation of the
  provider has used is refused as well, never answered with the other operation's outcome.
\<close>

theorem Process_known_operation:
  assumes "operations_kept L" and "wd_saves w = []" and "known_operation cmd (wd_db w)"
    and "Process L c cmd w = (r, w')"
  shows "wd_db w' = fold (lib_others L) [wd_step w..<wd_step w'] (wd_db w) \<and>
    (quiet L \<and> \<not> wd_aborted w \<and> cmd_Validate cmd = Inr () \<and> 0 \<le> sint (cf_MaxWalletRetries c) \<longrightarrow>
      (\<forall>row t. find (is_operation (cmd_ProviderID cmd) (cmd_ExternalTransactionID cmd)) (db_transactions (wd_db w)) = Some row \<and>
         scanTransaction row = Inr t \<longrightarrow>
         r = (if t_payloadHash t = ComputePayloadHash (lib_sha256 L) (lib_uuid_String L) cmd
           then Inr \<lparr>rs_Transaction = t, rs_Status = t_status t,
             rs_Balance = (case t_resultBalance t of Some b \<Rightarrow> b | None \<Rightarrow> money_zero_value),
             rs_HasBalance = (t_resultBalance t \<noteq> None), rs_FailureCode = t_failureCode t,
             rs_IdempotentReplay = True\<rparr>
           else Inl ErrIdempotencyConflict)) \<and>
      (\<forall>row t. find (is_operation (cmd_ProviderID cmd) (cmd_ExternalTransactionID cmd)) (db_transactions (wd_db w)) = None \<and>
         find (is_keyed (cmd_ProviderID cmd) (cmd_IdempotencyKey cmd)) (db_transactions (wd_db w)) = Some row \<and>
         scanTransaction row = Inr t \<longrightarrow>
         r = Inl ErrIdempotencyConflict))"
proof (intro conjI impI allI; (elim conjE)?)
  have "wd_db w' = drift L (wd_step w) (wd_step w') (wd_db w)"
    using assms(4) idle_process_loop [OF assms(1-3)]
    by (cases "cmd_Validate cmd") (simp_all add: Process_def bindM_def lift_def)
  then show "wd_db w' = fold (lib_others L) [wd_step w..<wd_step w'] (wd_db w)" by (simp add: drift_def)
next
  fix row t
  assume a: "quiet L" "\<not> wd_aborted w" "cmd_Validate cmd = Inr ()" "0 \<le> sint (cf_MaxWalletRetries c)"
    and t: "scanTransaction row = Inr t"
  show "r = (if t_payloadHash t = ComputePayloadHash (lib_sha256 L) (lib_uuid_String L) cmd
      then Inr \<lparr>rs_Transaction = t, rs_Status = t_status t,
        rs_Balance = (case t_resultBalance t of Some b \<Rightarrow> b | None \<Rightarrow> money_zero_value),
        rs_HasBalance = (t_resultBalance t \<noteq> None), rs_FailureCode = t_failureCode t,
        rs_IdempotentReplay = True\<rparr>
      else Inl ErrIdempotencyConflict)"
    if "find (is_operation (cmd_ProviderID cmd) (cmd_ExternalTransactionID cmd)) (db_transactions (wd_db w)) = Some row"
    using quiet_Process_known [OF a(1) assms(2) a(2-4) refl that t] assms(4) by (simp add: replayed_def)
  show "r = Inl ErrIdempotencyConflict"
    if "find (is_operation (cmd_ProviderID cmd) (cmd_ExternalTransactionID cmd)) (db_transactions (wd_db w)) = None"
      "find (is_keyed (cmd_ProviderID cmd) (cmd_IdempotencyKey cmd)) (db_transactions (wd_db w)) = Some row"
    using quiet_Process_used_key [OF a(1) assms(2) a(2-4) that t] assms(4) by simp
qed

definition recorded_tx :: transaction where
  "recorded_tx = sample_tx\<lparr>t_payloadHash := ''68''\<rparr>"

definition recorded_world :: world where
  "recorded_world = sample_world\<lparr>wd_db := sample_db\<lparr>db_transactions := [tx_to_row recorded_tx]\<rparr>\<rparr>"

lemma recorded_row:
  "db_transactions (wd_db recorded_world) = [tx_to_row recorded_tx]" "wd_saves recorded_world = []"
  "\<not> wd_aborted recorded_world" "is_operation ''p'' ''x'' (tx_to_row recorded_tx)"
  "scanTransaction (tx_to_row recorded_tx) = Inr recorded_tx"
  by (simp_all add: recorded_world_def sample_world_def) code_simp+

theorem Process_known_operation_witness:
  "\<exists>result w'. Process sample_lib sample_config sample_cmd recorded_world = (Inr result, w') \<and>
     rs_IdempotentReplay result \<and> rs_Transaction result = recorded_tx \<and> wd_db w' = wd_db recorded_world"
proof -
  obtain r w' where run: "Process sample_lib sample_config sample_cmd recorded_world = (r, w')"
    by (cases "Process sample_lib sample_config sample_cmd recorded_world")
  have cmd: "cmd_ProviderID sample_cmd = ''p''" "cmd_ExternalTransactionID sample_cmd = ''x''"
    by (simp_all add: sample_cmd_def)
  have kept: "operations_kept sample_lib" by (simp add: operations_kept_def sample_lib_def)
  have known: "known_operation sample_cmd (wd_db recorded_world)"
    using recorded_row by (simp add: known_operation_def known_by_def cmd)
  have idle: "fold (lib_others sample_lib) ns d = d" for ns d
    by (induction ns) (simp_all add: sample_lib_def)
  have valid: "cmd_Validate sample_cmd = Inr ()" "0 \<le> sint (cf_MaxWalletRetries sample_config)"
    "t_payloadHash recorded_tx = ''68''"
    by (simp_all add: sample_config_def recorded_tx_def cmd_Validate_def sample_cmd_def uuid_Nil_def money_defs
        IsExternal_def RequiresReference_def)
  show ?thesis
    using Process_known_operation [OF kept recorded_row(2) known run] recorded_row idle valid quiet_sample_lib run
    by (auto simp: cmd)
qed

end
