(* ===== verification/Committed.thy ===== *)
theory Committed
  imports Service
begin

section \<open>Invariants of what is committed\<close>

text \<open>
  An invariant of the committed database need not hold after every statement: a movement writes the
  balance, the ledger and the transaction one after the other. The locale \<open>committed\<close> states what
  has to be shown of the three writers (a new operation, a known operation, an opening) and derives
  from it that the whole service keeps the invariant, with its retries, savepoints, workers,
  handlers and middleware. Its first instance is the balance of the books.
\<close>

subsection \<open>Operations that keep an invariant\<close>

definition safe :: "(db \<Rightarrow> bool) \<Rightarrow> 'a io \<Rightarrow> bool" where
  "safe I m \<longleftrightarrow> (\<forall>n. triple_for I n I m (\<lambda>_. I) I)"

text \<open>The body of a transaction may leave anything behind when it fails.\<close>

definition body :: "(db \<Rightarrow> bool) \<Rightarrow> 'a io \<Rightarrow> bool" where
  "body I m \<longleftrightarrow> (\<forall>n. triple_for I n I m (\<lambda>_. I) (\<lambda>_. True))"

lemma safe_body: "safe I m \<Longrightarrow> body I m"
  unfolding safe_def body_def by (blast intro: triple_conseq)

lemma safe_keeps: "keeps_in F L m \<Longrightarrow> depends F I \<Longrightarrow> stable L I \<Longrightarrow> safe I m"
  by (simp add: safe_def keepsD)

lemma safe_bind: "safe I m \<Longrightarrow> (\<And>v. safe I (k v)) \<Longrightarrow> safe I (bindM m k)"
  unfolding safe_def by (blast intro: triple_bind)

lemma body_bind: "body I m \<Longrightarrow> (\<And>v. body I (k v)) \<Longrightarrow> body I (bindM m k)"
  unfolding body_def by (blast intro: triple_bind)

lemma safe_attempt: "safe I m \<Longrightarrow> safe I (attempt m)"
  unfolding safe_def
proof
  fix n assume "\<forall>n. triple_for I n I m (\<lambda>_. I) I"
  then have t: "triple_for I n I (attempt m) (\<lambda>r. case r of Inl e \<Rightarrow> I | Inr v \<Rightarrow> I) I"
    by (intro triple_attempt) blast
  show "triple_for I n I (attempt m) (\<lambda>_. I) I"
    by (rule triple_conseq [OF t]) (simp_all split: sum.splits)
qed

lemma safe_on_error: "safe I m \<Longrightarrow> safe I (on_error f m)"
  unfolding safe_def by (blast intro: triple_on_error)

lemma safe_transaction: "stable L I \<Longrightarrow> body I m \<Longrightarrow> safe I (WithinTransaction L m)"
  unfolding safe_def body_def by (intro allI triple_WithinTransaction) auto

lemma safe_cases:
  "(\<And>x. safe I (f x)) \<Longrightarrow> (\<And>x. safe I (g x)) \<Longrightarrow> safe I (case s of Inl x \<Rightarrow> f x | Inr x \<Rightarrow> g x)"
  "safe I a \<Longrightarrow> safe I b \<Longrightarrow> safe I (if c then a else b)"
  "(\<And>x y. safe I (k x y)) \<Longrightarrow> safe I (case p of (x, y) \<Rightarrow> k x y)"
  "safe I none \<Longrightarrow> (\<And>x. safe I (some x)) \<Longrightarrow> safe I (case opt of None \<Rightarrow> none | Some x \<Rightarrow> some x)"
  by (auto split: sum.split prod.split option.split)

lemma body_cases:
  "(\<And>x. body I (f x)) \<Longrightarrow> (\<And>x. body I (g x)) \<Longrightarrow> body I (case s of Inl x \<Rightarrow> f x | Inr x \<Rightarrow> g x)"
  "body I a \<Longrightarrow> body I b \<Longrightarrow> body I (if c then a else b)"
  by (auto split: sum.split)

lemmas safe_rules = safe_bind safe_attempt safe_on_error safe_cases

text \<open>An operation that only looks at the world.\<close>

lemma safe_looking: "(\<And>w. \<exists>x. m w = (x, w)) \<Longrightarrow> safe I m"
  unfolding safe_def triple_for_def
proof (intro allI impI, goal_cases)
  case (1 n w)
  then obtain x where "m w = (x, w)" by blast
  then have "m w = lift x w" by (simp add: lift_def)
  then show ?case using 1 by (auto simp: lift_def split: sum.splits)
qed

lemma safe_writers:
  "safe I (writeJSON st p)" "safe I (writeError e)" "safe I (submit_response L res)"
  "safe I (ready_handler probes ctx r)" "safe I (Verify v tok)"
  by (rule safe_looking;
      simp add: writeError_def submit_response_def writeRejection_def ready_handler_def Verify_def
        writeJSON_def ret_def Let_def split: sum.split option.split)+

lemma safe_or_writeError: "safe I m \<Longrightarrow> (\<And>v. safe I (k v)) \<Longrightarrow> safe I (or_writeError m k)"
  unfolding or_writeError_def by (intro safe_rules safe_writers)

lemma safe_middleware:
  "(\<And>ctx. safe I (h ctx r)) \<Longrightarrow> safe I (internal_only api h ctx r)"
  "(\<And>ctx. safe I (h ctx r)) \<Longrightarrow> safe I (provider_or_internal api h ctx r)"
  unfolding internal_only_def provider_or_internal_def Authenticate_def RequireRoles_def
  by (intro safe_or_writeError safe_looking [of "lift _"] safe_writers;
      simp add: lift_def safe_writers split: option.split)+

subsection \<open>Statements on messages and events\<close>

lemma records_same_outbox:
  "only_in records_same (sql_claim_outbox lk pub t cutoff k)" "only_in records_same (sql_mark_published i t)"
  "only_in records_same (sql_mark_failed i t e)" "only_in records_same sql_count_outbox"
  "only_in records_same (sql_ledger_page i cs n)" "only_in records_same (sql_ledger_totals i)"
  by (auto simp: only_in_def records_same_def sql_claim_outbox_def sql_mark_published_def sql_mark_failed_def
      sql_count_outbox_def sql_ledger_page_def sql_ledger_totals_def Let_def split: if_splits)

lemma wide_records_same: "wide records_same"
  by (simp add: wide_def)

lemma keeps_outbox:
  "keeps_in records_same L (outbox_Claim L pub now lim ttl)" "keeps_in records_same L (outbox_MarkPublished L i now)"
  "keeps_in records_same L (outbox_MarkFailed L i nxt err)" "keeps_in records_same L (outbox_PendingCount L)"
  unfolding outbox_Claim_def outbox_MarkPublished_def outbox_MarkFailed_def outbox_PendingCount_def Let_def
  by (intro keeps_rules keeps_stmt keeps_stmt_locked records_same_outbox)+

lemma keeps_pair [keeps_rules]: "(\<And>x y. keeps_in F L (k x y)) \<Longrightarrow> keeps_in F L (case p of (x, y) \<Rightarrow> k x y)"
  by (cases p) simp

lemma keeps_queries:
  "keeps_in records_same L (GetTransaction L i)" "keeps_in records_same L (GetByProviderExternal L p x)"
  "keeps_in records_same L (CountPending L)" "keeps_in records_same L (wallets_Get L i)"
  "keeps_in records_same L (wallets_Ledger L i cu k)" "keeps_in records_same L (wallets_Reconcile L i)"
  unfolding GetTransaction_def GetByProviderExternal_def CountPending_def wallets_Get_def wallets_Ledger_def
    wallets_Reconcile_def ledgers_ListByWallet_def ledgers_TotalsByWallet_def Let_def
  by (intro keeps_rules keeps_look_ups wide_records_same keeps_stmt records_same_outbox)+

lemma first_by_in: "first_by lt rs = Some r \<Longrightarrow> r \<in> set rs"
  by (induction rs arbitrary: r) (auto split: option.splits if_splits)

subsection \<open>The contract and what follows from it\<close>

text \<open>
  \<open>R\<close> is what is asked of the other connections, \<open>I\<close> the invariant, and \<open>K t\<close> what a connection
  knows of a transaction it has read.
\<close>

locale committed =
  fixes R :: "lib \<Rightarrow> bool" and I :: "db \<Rightarrow> bool" and K :: "transaction \<Rightarrow> db \<Rightarrow> bool"
  assumes stable_I: "R L \<Longrightarrow> stable L I"
    and stable_K: "R L \<Longrightarrow> stable L (\<lambda>d. I d \<and> K t d)"
    and on_records: "depends records_same I"
    and known: "I d \<Longrightarrow> row \<in> set (db_transactions d) \<Longrightarrow> scanTransaction row = Inr t \<Longrightarrow> K t d"
    and process_new: "R L \<Longrightarrow> body I (process_new L c cmd h now)"
    and applyOperation: "R L \<Longrightarrow>
      triple_for I n (\<lambda>d. I d \<and> K t d) (applyOperation L c t now corr) (\<lambda>_. I) (\<lambda>_. True)"
    and open_wallet: "R L \<Longrightarrow> body I (open_wallet L oc)"
begin

lemma keeps: "keeps_in records_same L m \<Longrightarrow> R L \<Longrightarrow> safe I m"
  by (rule safe_keeps [OF _ on_records stable_I])

lemma within: "body I m \<Longrightarrow> R L \<Longrightarrow> safe I (WithinTransaction L m)"
  by (rule safe_transaction [OF stable_I])

lemma atoms:
  assumes "R L"
  shows "safe I (ret v)" "safe I (throw e)" "safe I (lift x)" "safe I (record_metric mt)"
    "safe I (read_clock L)" "safe I (uuid_NewV7 L)"
    "safe I (inbox_Claim L cn m h now)" "safe I (inbox_Complete L cn m now)"
    "safe I (outbox_Claim L pub now lim ttl)" "safe I (outbox_MarkPublished L i now)"
    "safe I (outbox_MarkFailed L i nxt err)" "safe I (outbox_PendingCount L)"
    "safe I (sqs_Publish L q ev)" "safe I (sendToDLQ L q b s)" "safe I (deleteMessage L url h)"
    "safe I (replay t h)" "safe I (note_conflict e)"
    "safe I (transactions_GetByProviderExternal L p y)" "safe I (transactions_GetByProviderIdempotencyKey L p y)"
  by (intro keeps [OF _ assms] keeps_rules keeps_outbox keeps_inbox keeps_look_ups wide_records_same)+

lemma queries:
  assumes "R L"
  shows "safe I (GetTransaction L i)" "safe I (GetByProviderExternal L p x)" "safe I (CountPending L)"
    "safe I (wallets_Get L i)" "safe I (wallets_Ledger L i cu k)" "safe I (wallets_Reconcile L i)"
  by (intro keeps [OF _ assms] keeps_queries)+

lemma processOnce: "R L \<Longrightarrow> body I (processOnce L c cmd h)"
  unfolding processOnce_def
  by (intro body_bind body_cases process_new; (assumption | intro safe_body safe_rules atoms)?)

lemma process_loop: "R L \<Longrightarrow> safe I (process_loop L c cmd h n e)"
  by (induction n arbitrary: e) (auto intro!: safe_rules atoms within processOnce)

lemma Process: "R L \<Longrightarrow> safe I (Process L c cmd)"
  unfolding Process_def by (intro safe_rules atoms process_loop)

text \<open>What is read is known.\<close>

lemma triple_scan:
  assumes "R L" and "\<And>n. triple_for I n I m (\<lambda>row d. I d \<and> (\<forall>r. row = Some r \<longrightarrow> r \<in> set (db_transactions d))) I"
  shows "triple_for I n I (bindM (scan_error m) scan_tx_row) (\<lambda>t d. I d \<and> K t d) I"
  unfolding scan_error_def
proof (rule triple_bind [OF triple_on_error [OF assms(2)]])
  show "triple_for I n (\<lambda>d. I d \<and> (\<forall>r. row = Some r \<longrightarrow> r \<in> set (db_transactions d))) (scan_tx_row row)
      (\<lambda>t d. I d \<and> K t d) I" for row
    by (cases row) (auto simp: scan_tx_row_def intro!: triple_throw triple_lift known)
qed

lemma read_GetByID: "R L \<Longrightarrow> triple_for I n I (transactions_GetByID L i) (\<lambda>t d. I d \<and> K t d) I"
  unfolding transactions_GetByID_def
  by (rule triple_scan, assumption, rule triple_stmt)
    (auto simp: sql_tx_by_id_def find_Some_iff intro: stable_I)

lemma read_ClaimOne:
  assumes "R L"
  shows "triple_for I n I (transactions_ClaimOne L now) (\<lambda>claimed d. I d \<and> (\<forall>t. claimed = Some t \<longrightarrow> K t d)) I"
proof -
  let ?m = "bindM (scan_error (stmt_locked L (\<lambda>locked. sql_claim_tx locked now))) scan_tx_row"
  have "triple_for I n I ?m (\<lambda>t d. I d \<and> K t d) I"
  proof (rule triple_scan [OF assms], rule triple_stmt_locked, rule triple_stmt, rule stable_I [OF assms],
      rule stable_I [OF assms])
    fix n locked d v d' assume "I d" and "sql_claim_tx locked now d = Inr (v, d')"
    then show "I d' \<and> (\<forall>r. v = Some r \<longrightarrow> r \<in> set (db_transactions d'))"
      using first_by_in [of due_before] by (fastforce simp: sql_claim_tx_def)
  qed
  from triple_attempt [OF this, where E = I] show ?thesis
    unfolding transactions_ClaimOne_def nil_if_not_found_def
    by (rule triple_bind) (auto intro!: triple_ret triple_throw split: sum.split)
qed

lemma triple_resume_attempts:
  assumes R: "R L"
  shows "triple_for I n (\<lambda>d. I d \<and> (first \<longrightarrow> K t d)) (resume_attempts L c t first k e) (\<lambda>_. I) I"
proof (induction k arbitrary: t first e)
  case 0
  then show ?case by (auto intro: triple_throw)
next
  case (Suc k)
  let ?tx = "\<lambda>t. WithinTransaction L
      (bindM (read_clock L) (\<lambda>now. applyOperation L c t now (correlationOf L '''' (t_id t))))"
  have load: "triple_for I n (\<lambda>d. I d \<and> (first \<longrightarrow> K t d)) (if first then ret t else transactions_GetByID L (t_id t))
      (\<lambda>t d. I d \<and> K t d) I"
    using read_GetByID [OF R] by (auto intro: triple_ret)
  have "triple_for I n (\<lambda>d. I d \<and> K u d) (?tx u) (\<lambda>_. I) I" for u
    by (intro triple_WithinTransaction_from stable_I stable_K R
        triple_bind [OF triple_clock [OF stable_K stable_I] applyOperation]) auto
  then have tx: "triple_for I n (\<lambda>d. I d \<and> K u d) (attempt (?tx u)) (\<lambda>_. I) I" for u
    by (rule triple_conseq [OF triple_attempt]) (auto split: sum.splits)
  have noted: "triple_for I n I (note_conflict err) (\<lambda>_ d. I d \<and> (False \<longrightarrow> K u d)) I" for err u
    using atoms(17) [OF R, of err] by (simp add: safe_def)
  have again: "triple_for I n I (bindM (note_conflict err) (\<lambda>_. resume_attempts L c u False k (Some err)))
      (\<lambda>_. I) I" for err u
    by (rule triple_bind [OF noted Suc.IH])
  show ?case
    unfolding resume_attempts.simps
    by (rule triple_bind [OF load], rule triple_bind [OF tx])
      (auto intro!: again triple_ret triple_throw split: sum.split)
qed

lemma resumeOne: "R L \<Longrightarrow> safe I (resumeOne L c)"
proof -
  assume R: "R L"
  have "triple_for I n I (bindM (transactions_ClaimOne L now) (\<lambda>claimed. case claimed of
          None \<Rightarrow> ret False
        | Some t \<Rightarrow> bindM (resume_attempts L c t True (attempts_of c) None) (\<lambda>_. ret True)))
      (\<lambda>_. I) I" for n now
  proof (rule triple_bind [OF read_ClaimOne [OF R]])
    fix claimed
    have "triple_for I n (\<lambda>d. I d \<and> K t d)
        (bindM (resume_attempts L c t True (attempts_of c) None) (\<lambda>_. ret True)) (\<lambda>_. I) I" for t
      using triple_resume_attempts [OF R, of n True t] by (intro triple_bind triple_ret) auto
    then show "triple_for I n (\<lambda>d. I d \<and> (\<forall>t. claimed = Some t \<longrightarrow> K t d)) (case claimed of
          None \<Rightarrow> ret False
        | Some t \<Rightarrow> bindM (resume_attempts L c t True (attempts_of c) None) (\<lambda>_. ret True)) (\<lambda>_. I) I"
      by (cases claimed) (auto intro: triple_ret)
  qed
  then have "safe I (bindM (read_clock L) (\<lambda>now. bindM (transactions_ClaimOne L now) (\<lambda>claimed. case claimed of
          None \<Rightarrow> ret False
        | Some t \<Rightarrow> bindM (resume_attempts L c t True (attempts_of c) None) (\<lambda>_. ret True))))"
    by (intro safe_bind [OF atoms(5) [OF R]]) (simp add: safe_def)
  then show ?thesis unfolding resumeOne_def by (intro within safe_body R)
qed

lemma ResumeDue: "R L \<Longrightarrow> safe I (ResumeDue L c limit)"
proof -
  assume R: "R L"
  have "safe I (resume_due L c k m)" for k m
    by (induction k arbitrary: m) (auto intro!: safe_rules atoms [OF R] resumeOne R)
  then show ?thesis by (simp add: ResumeDue_def)
qed

lemma wallets_Open: "R L \<Longrightarrow> safe I (wallets_Open L oc)"
  unfolding wallets_Open_def by (intro safe_rules atoms within open_wallet)

lemma PublishDue: "R L \<Longrightarrow> safe I (PublishDue L q pc)"
proof -
  assume R: "R L"
  have one: "safe I (publish_one L q pc ev)" for ev
    unfolding publish_one_def markFailed_def Let_def by (intro safe_rules atoms [OF R] within safe_body R)
  have "safe I (publish_batch L q pc evs n)" for evs n
    by (induction evs arbitrary: n) (auto intro!: safe_rules one atoms [OF R])
  then show ?thesis
    unfolding PublishDue_def claim_batch_def by (intro safe_rules atoms [OF R] within safe_body R)
qed

lemma Handle: "R L \<Longrightarrow> safe I (Handle L c message)"
proof -
  assume R: "R L"
  then show ?thesis
    unfolding Handle_def handle_once_def Let_def
    by (intro safe_rules atoms [OF R] within safe_body Process)
qed

lemma handlers:
  assumes "R L"
  shows "safe I (submit_handler L c ctx r)" "safe I (get_transaction_handler L ctx r)"
    "safe I (get_by_external_handler L ctx r)" "safe I (open_handler L ctx r)"
    "safe I (get_wallet_handler L ctx r)" "safe I (ledger_handler L ctx r)"
    "safe I (reconcile_handler L ctx r)" "safe I (live_handler ctx r)"
  unfolding submit_handler_def get_transaction_handler_def get_by_external_handler_def open_handler_def
    get_wallet_handler_def ledger_handler_def reconcile_handler_def live_handler_def
  by (intro safe_or_writeError safe_writers atoms [OF assms] queries Process wallets_Open assms)+

lemma ServeHTTP: "R L \<Longrightarrow> safe I (ServeHTTP L api r)"
proof -
  assume R: "R L"
  have "safe I (route_handler L api route ctx r)" for route ctx
    unfolding route_handler_def
    by (cases route) (auto intro!: safe_middleware handlers safe_writers R)
  then show ?thesis
    unfolding ServeHTTP_def RequestID_def by (intro safe_rules atoms [OF R])
qed

lemma perform: "R L \<Longrightarrow> safe I (perform L s r)"
  by (cases r)
    (auto simp: processOne_def Let_def worker_step_def Resolver_iteration_def Publisher_iteration_def
      intro!: safe_rules atoms Handle ServeHTTP ResumeDue PublishDue queries)

lemma serve: "R L \<Longrightarrow> safe I (serve L s rs)"
  by (induction rs) (auto intro!: safe_rules perform atoms)

lemma served:
  assumes "R L" and "I (wd_db w)" and "wd_saves w = []" and "\<not> wd_aborted w"
  shows "I (wd_db (snd (serve L s rs w)))"
  by (rule triple_top) (use serve [OF assms(1)] assms(2-4) in \<open>auto simp: safe_def\<close>)

end

subsection \<open>The books balance\<close>

interpretation balances: committed rely ledger_balanced "\<lambda>_ _. True"
proof
  show "depends records_same ledger_balanced"
    using on_balances_balanced by (simp add: depends_def records_same_def money_untouched_def)
qed (simp_all add: stable_balanced body_def triple_process_new triple_applyOperation triple_open_wallet)

text \<open>
  Money is neither created nor lost: if every wallet's balance equals the sum of its
  ledger entries, it still does after \<open>Process\<close>, whether it succeeds or fails, for any command,
  any faults of the connection, any number of retries, and any concurrent commits of other
  connections that themselves keep balance and ledger together and follow the version protocol.
\<close>

theorem Process_keeps_ledger_balanced:
  assumes "rely L" and "ledger_balanced (wd_db w)" and "wd_saves w = []" and "\<not> wd_aborted w"
  shows "ledger_balanced (wd_db (snd (Process L c cmd w)))"
  by (rule triple_top) (use balances.Process [OF assms(1)] assms(2-4) in \<open>auto simp: safe_def\<close>)

text \<open>The same holds of resuming parked operations, of openings, and of queue messages.\<close>

theorem ResumeDue_keeps_ledger_balanced:
  assumes "rely L" and "ledger_balanced (wd_db w)" and "wd_saves w = []" and "\<not> wd_aborted w"
  shows "ledger_balanced (wd_db (snd (ResumeDue L c limit w)))"
  by (rule triple_top) (use balances.ResumeDue [OF assms(1)] assms(2-4) in \<open>auto simp: safe_def\<close>)

theorem Open_keeps_ledger_balanced:
  assumes "rely L" and "ledger_balanced (wd_db w)" and "wd_saves w = []" and "\<not> wd_aborted w"
  shows "ledger_balanced (wd_db (snd (wallets_Open L cmd w)))"
  by (rule triple_top) (use balances.wallets_Open [OF assms(1)] assms(2-4) in \<open>auto simp: safe_def\<close>)

theorem Handle_keeps_ledger_balanced:
  assumes "rely L" and "ledger_balanced (wd_db w)" and "wd_saves w = []" and "\<not> wd_aborted w"
  shows "ledger_balanced (wd_db (snd (Handle L c message w)))"
  by (rule triple_top) (use balances.Handle [OF assms(1)] assms(2-4) in \<open>auto simp: safe_def\<close>)

end
