(* ===== verification/Booking.thy ===== *)
theory Booking
  imports Committed History
begin

section \<open>Every processed transaction is booked exactly once\<close>

text \<open>
  The transactions and the ledger agree: a processed transaction that moves money has exactly one
  ledger entry, on its wallet, of its amount, in the direction of its kind; a reversal moves the
  amount of the processed transaction it references the other way; every other transaction (a
  loss, a pending, rejected or failed one) has no entry. The service keeps this, whatever fails
  and whoever else commits, if the other connections keep it too and leave alone what is not yet
  consistent (rows that this connection has locked).
\<close>

subsection \<open>The invariant\<close>

definition entries_of :: "db \<Rightarrow> uuid \<Rightarrow> ledger_row list" where
  "entries_of d i = filter (\<lambda>e. lr_transaction_id e = i) (db_ledger d)"

text \<open>The row \<open>r\<close> reverses the row \<open>q\<close>.\<close>

definition reverses :: "tx_row \<Rightarrow> tx_row \<Rightarrow> bool" where
  "reverses q r \<longleftrightarrow>
     tr_reference_transaction_id r = Some (tr_id q) \<and> tr_status q = ''PROCESSED'' \<and>
     tr_wallet_id q = tr_wallet_id r \<and> tr_amount_minor q = tr_amount_minor r \<and> tr_currency q = tr_currency r"

definition moves :: "tx_row list \<Rightarrow> tx_row \<Rightarrow> string \<Rightarrow> bool" where
  "moves rs r dir \<longleftrightarrow>
     (if tr_kind r = ''BET'' then dir = ''DEBIT''
      else if tr_kind r = ''REFUND''
      then dir = ''CREDIT'' \<and> (\<exists>q \<in> set rs. reverses q r \<and> tr_kind q = ''BET'')
      else if tr_kind r = ''ROLLBACK''
      then (\<exists>q \<in> set rs. reverses q r \<and>
        (tr_kind q = ''BET'' \<and> dir = ''CREDIT'' \<or> (tr_kind q = ''WIN'' \<or> tr_kind q = ''REFUND'') \<and> dir = ''DEBIT''))
      else dir = ''CREDIT'')"

definition books :: "tx_row list \<Rightarrow> tx_row \<Rightarrow> ledger_row \<Rightarrow> bool" where
  "books rs r e \<longleftrightarrow>
     lr_wallet_id e = tr_wallet_id r \<and> lr_amount_minor e = tr_amount_minor r \<and>
     lr_currency e = tr_currency r \<and> moves rs r (lr_direction e)"

definition well_booked :: "db \<Rightarrow> tx_row \<Rightarrow> bool" where
  "well_booked d r \<longleftrightarrow>
     (if tr_status r = ''PROCESSED'' \<and> tr_kind r \<noteq> ''LOSS''
      then \<exists>e. entries_of d (tr_id r) = [e] \<and> books (db_transactions d) r e
      else entries_of d (tr_id r) = [])"

definition keys_ok :: "db \<Rightarrow> bool" where
  "keys_ok d \<longleftrightarrow> distinct (map tr_id (db_transactions d)) \<and>
     (\<forall>e \<in> set (db_ledger d). \<exists>r \<in> set (db_transactions d). tr_id r = lr_transaction_id e)"

definition booked :: "db \<Rightarrow> bool" where
  "booked d \<longleftrightarrow> keys_ok d \<and> (\<forall>r \<in> set (db_transactions d). well_booked d r)"

text \<open>
  What is asked of a commit of another connection: it keeps the keys and the history of the
  transactions, it leaves alone a transaction that is not consistent with the ledger, and whatever
  else is there afterwards is booked.
\<close>

definition book_step :: "db \<Rightarrow> db \<Rightarrow> bool" where
  "book_step d d' \<longleftrightarrow> keys_ok d' \<and> carried tx_later (db_transactions d) (db_transactions d') \<and>
     (\<forall>r \<in> set (db_transactions d). \<not> well_booked d r \<longrightarrow>
        r \<in> set (db_transactions d') \<and> entries_of d' (tr_id r) = entries_of d (tr_id r)) \<and>
     (\<forall>r \<in> set (db_transactions d'). well_booked d' r \<or> r \<in> set (db_transactions d) \<and> \<not> well_booked d r)"

definition books_kept :: "lib \<Rightarrow> bool" where
  "books_kept L \<longleftrightarrow> (\<forall>n d. keys_ok d \<longrightarrow> book_step d (lib_others L n d))"

lemma tx_identity_fields:
  "tr_id (tx_identity r) = tr_id r" "tr_kind (tx_identity r) = tr_kind r" "tr_wallet_id (tx_identity r) = tr_wallet_id r"
  "tr_amount_minor (tx_identity r) = tr_amount_minor r" "tr_currency (tx_identity r) = tr_currency r"
  by (simp_all add: tx_identity_def tx_row_set_def)

lemma tx_later_fields:
  assumes "tx_later a b"
  shows "tr_id b = tr_id a" "tr_kind b = tr_kind a" "tr_wallet_id b = tr_wallet_id a"
    "tr_amount_minor b = tr_amount_minor a" "tr_currency b = tr_currency a"
  using assms tx_identity_fields [of a] tx_identity_fields [of b] by (simp_all add: tx_later_def)

lemma processed_carried:
  "carried tx_later rs rs' \<Longrightarrow> q \<in> set rs \<Longrightarrow> tr_status q = ''PROCESSED'' \<Longrightarrow> q \<in> set rs'"
  by (auto simp: carried_def tx_later_def is_pending_row_def pending_statuses_def)

lemma moves_carried:
  assumes "carried tx_later rs rs'" and "moves rs r dir"
  shows "moves rs' r dir"
proof -
  have "reverses q r \<Longrightarrow> q \<in> set rs \<Longrightarrow> q \<in> set rs'" for q
    using processed_carried [OF assms(1)] by (simp add: reverses_def)
  then show ?thesis using assms(2) unfolding moves_def by (auto split: if_splits)
qed

lemma well_booked_carried:
  "carried tx_later (db_transactions d) (db_transactions d') \<Longrightarrow> entries_of d' (tr_id r) = entries_of d (tr_id r) \<Longrightarrow>
     well_booked d r \<Longrightarrow> well_booked d' r"
  using moves_carried by (auto simp: well_booked_def books_def)

lemma book_step_refl: "keys_ok d \<Longrightarrow> book_step d d"
  by (auto simp: book_step_def carried_def tx_later_def)

lemma tx_row_unique: "keys_ok d \<Longrightarrow> a \<in> set (db_transactions d) \<Longrightarrow> b \<in> set (db_transactions d) \<Longrightarrow> tr_id a = tr_id b \<Longrightarrow> a = b"
  by (auto simp: keys_ok_def distinct_map inj_on_def)

subsection \<open>The statements\<close>

lemma keys_ok_ids:
  "keys_ok d \<longleftrightarrow> distinct (map tr_id (db_transactions d)) \<and>
     lr_transaction_id ` set (db_ledger d) \<subseteq> set (map tr_id (db_transactions d))"
  unfolding keys_ok_def by (auto simp: image_iff) (metis imageE imageI subsetD)+

lemma keys_same_ids:
  "keys_ok d \<Longrightarrow> map tr_id (db_transactions d') = map tr_id (db_transactions d) \<Longrightarrow> db_ledger d' = db_ledger d \<Longrightarrow>
     keys_ok d'"
  unfolding keys_ok_ids by simp

text \<open>A new transaction has no entries.\<close>

lemma insert_tx_books:
  assumes "keys_ok d" and "sql_insert_tx r d = Inr (u, d')"
  shows "keys_ok d'" "db_transactions d' = db_transactions d @ [r]" "entries_of d' = entries_of d"
    "entries_of d (tr_id r) = []" "tr_id r \<notin> tr_id ` set (db_transactions d)"
    "\<And>q. well_booked d q \<Longrightarrow> well_booked d' q"
proof -
  have d': "d' = d\<lparr>db_transactions := db_transactions d @ [r]\<rparr>"
    and new: "tr_id r \<notin> tr_id ` set (db_transactions d)"
    using assms(2) by (auto simp: sql_insert_tx_def violation_passes tx_uniques_def split: if_splits option.splits)
  show "db_transactions d' = db_transactions d @ [r]" "entries_of d' = entries_of d"
    by (simp_all add: d' entries_of_def fun_eq_iff)
  show "tr_id r \<notin> tr_id ` set (db_transactions d)" by (rule new)
  show "keys_ok d'" using assms(1) new by (auto simp: keys_ok_def d')
  show "entries_of d (tr_id r) = []"
    using assms(1) new unfolding keys_ok_ids by (auto simp: entries_of_def filter_empty_conv) (metis subsetD imageI)
  show "well_booked d' q" if "well_booked d q" for q
    using that by (rule well_booked_carried [rotated 2]) (auto simp: d' entries_of_def carried_def tx_later_def)
qed

text \<open>The UPDATE of a transaction changes one pending row.\<close>

lemma update_tx_books:
  assumes "keys_ok d" and "sql_update_tx i (tx_row_set ref st fc rb att nxt upd) d = Inr (Suc n, d')"
  obtains r where "r \<in> set (db_transactions d)" "tr_id r = i" "is_pending_row r" "keys_ok d'"
    "set (db_transactions d') = insert (tx_row_set ref st fc rb att nxt upd r) {q \<in> set (db_transactions d). tr_id q \<noteq> i}"
    "entries_of d' = entries_of d" "carried tx_later (db_transactions d) (db_transactions d')"
proof -
  let ?set = "tx_row_set ref st fc rb att nxt upd"
  let ?f = "\<lambda>q. if tr_id q = i \<and> is_pending_row q then ?set q else q"
  obtain r where r: "r \<in> set (db_transactions d)" "tr_id r = i" "is_pending_row r"
    and d': "d' = d\<lparr>db_transactions := map ?f (db_transactions d)\<rparr>"
  proof (cases "find (\<lambda>r. tr_id r = i \<and> is_pending_row r) (db_transactions d)")
    case None
    then show ?thesis using assms(2) by (simp add: sql_update_tx_def)
  next
    case (Some r)
    then have "r \<in> set (db_transactions d)" "tr_id r = i" "is_pending_row r"
      by (metis (mono_tags, lifting) find_Some_iff nth_mem)+
    then show ?thesis
      using assms(2) Some by (intro that) (auto simp: sql_update_tx_def Let_def split: option.splits if_splits)
  qed
  have same: "q = r" if "q \<in> set (db_transactions d)" "tr_id q = i" for q
    using tx_row_unique [OF assms(1) that(1) r(1)] that(2) r(2) by simp
  have ids: "map tr_id (map ?f (db_transactions d)) = map tr_id (db_transactions d)"
    by (simp add: tx_row_set_def)
  have "set (map ?f (db_transactions d)) = insert (?set r) {q \<in> set (db_transactions d). tr_id q \<noteq> i}"
  proof -
    have f: "?f q = (if tr_id q = i then ?set r else q)" if "q \<in> set (db_transactions d)" for q
      using same [OF that] r(3) by auto
    have "set (map ?f (db_transactions d)) = (\<lambda>q. if tr_id q = i then ?set r else q) ` set (db_transactions d)"
      unfolding set_map by (rule image_cong [OF refl f])
    also have "\<dots> = insert (?set r) {q \<in> set (db_transactions d). tr_id q \<noteq> i}"
      using r(1,2) by (auto intro!: image_eqI [of _ _ r])
    finally show ?thesis .
  qed
  moreover have "keys_ok d'" by (rule keys_same_ids [OF assms(1)]) (simp_all add: d' tx_row_set_def)
  moreover have "carried tx_later (db_transactions d) (db_transactions d')"
    unfolding d' by (simp add: carried_map tx_later_def tx_identity_def tx_row_set_def)
  ultimately show thesis
    using r by (intro that [of r]) (simp_all add: d' entries_of_def fun_eq_iff)
qed

text \<open>Waking a dependent changes nothing that is booked.\<close>

lemma wake_books:
  assumes "booked d" and "sql_wake_dependents p x t d = Inr (n, d')"
  shows "booked d'"
proof -
  let ?f = "\<lambda>r. if is_dependent p x r then r\<lparr>tr_next_attempt_at := Some t, tr_updated_at := t\<rparr> else r"
  have d': "d' = d\<lparr>db_transactions := map ?f (db_transactions d)\<rparr>"
    using assms(2) by (auto simp: sql_wake_dependents_def)
  have ids: "map tr_id (db_transactions d') = map tr_id (db_transactions d)" by (simp add: d')
  have carried: "carried tx_later (db_transactions d) (db_transactions d')"
    unfolding d'
    by (simp add: carried_map tx_later_def tx_identity_def tx_row_set_def is_dependent_def is_pending_row_def
        pending_statuses_def)
  have row: "well_booked d' (?f r)" if "r \<in> set (db_transactions d)" for r
  proof -
    have "well_booked d r" using assms(1) that by (simp add: booked_def)
    then have "well_booked d' r" by (rule well_booked_carried [OF carried, rotated]) (simp add: d' entries_of_def)
    then show ?thesis by (simp add: well_booked_def is_dependent_def)
  qed
  have "keys_ok d'" by (rule keys_same_ids [of d]) (use assms(1) ids in \<open>simp_all add: booked_def d'\<close>)
  moreover have "well_booked d' q" if "q \<in> set (db_transactions d')" for q
  proof -
    have "q \<in> ?f ` set (db_transactions d)" using that by (simp add: d')
    then obtain r where "r \<in> set (db_transactions d)" "q = ?f r" by blast
    then show ?thesis using row by simp
  qed
  ultimately show ?thesis by (simp add: booked_def)
qed

text \<open>A ledger entry refers to a transaction that has none on the same wallet.\<close>

lemma insert_ledger_books:
  assumes "sql_insert_ledger e d = Inr (u, d')"
  shows "db_transactions d' = db_transactions d"
    "entries_of d' i = (if i = lr_transaction_id e then entries_of d i @ [e] else entries_of d i)"
    "keys_ok d \<Longrightarrow> keys_ok d'"
    "\<And>q. q \<in> set (db_ledger d) \<Longrightarrow> lr_transaction_id q = lr_transaction_id e \<Longrightarrow> lr_wallet_id q \<noteq> lr_wallet_id e"
  using assms
  by (auto simp: sql_insert_ledger_def violation_passes ledger_uniques_def ledger_fks_def entries_of_def keys_ok_def
      split: option.splits)

end
