(* ===== verification/Booked_Once.thy ===== *)
theory Booked_Once
  imports Booking
begin

section \<open>The service books every processed transaction exactly once\<close>

text \<open>
  The writers of the service keep the agreement of transactions and ledger: triples for a new
  operation, a known operation and an opening, and from them, through the locale of committed
  invariants, the whole service.
\<close>

subsection \<open>Assertions\<close>

text \<open>The row that stands for a transaction read or made by this connection.\<close>

definition records :: "transaction \<Rightarrow> tx_row \<Rightarrow> bool" where
  "records t r \<longleftrightarrow> tr_id r = t_id t \<and> tr_kind r = kind_string (t_kind t) \<and> tr_wallet_id r = t_walletID t \<and>
     tr_amount_minor r = m_amount (t_amount t) \<and> tr_currency r = m_currency (t_amount t)"

definition known_row :: "transaction \<Rightarrow> db \<Rightarrow> bool" where
  "known_row t d \<longleftrightarrow> (\<exists>r \<in> set (db_transactions d). records t r)"

definition processed_row :: "transaction \<Rightarrow> db \<Rightarrow> bool" where
  "processed_row t d \<longleftrightarrow> (\<exists>r \<in> set (db_transactions d). records t r \<and> tr_status r = ''PROCESSED'')"

text \<open>
  Everything is booked but the row of \<open>t\<close>: it has the entries \<open>es\<close> although it is not processed, or
  none although it is.
\<close>

definition half :: "transaction \<Rightarrow> ledger_row list \<Rightarrow> db \<Rightarrow> bool" where
  "half t es d \<longleftrightarrow> keys_ok d \<and> (\<forall>r \<in> set (db_transactions d). tr_id r \<noteq> t_id t \<longrightarrow> well_booked d r) \<and>
     (\<exists>r \<in> set (db_transactions d). records t r \<and> entries_of d (t_id t) = es \<and>
       (tr_status r = ''PROCESSED'' \<and> tr_kind r \<noteq> ''LOSS'' \<longleftrightarrow> es = []))"

text \<open>The direction in which the row of \<open>t\<close> will move money once it has the reference of \<open>t\<close>.\<close>

definition due :: "transaction \<Rightarrow> string \<Rightarrow> db \<Rightarrow> bool" where
  "due t dir d \<longleftrightarrow> (\<forall>r. records t r \<longrightarrow> tr_reference_transaction_id r = t_referenceTransactionID t \<longrightarrow>
     moves (db_transactions d) r dir)"

abbreviation ready :: "transaction \<Rightarrow> db \<Rightarrow> bool" where
  "ready t \<equiv> \<lambda>d. booked d \<and> known_row t d"

lemma records_later: "records t r \<Longrightarrow> tx_later r r' \<Longrightarrow> records t r'"
  by (simp add: records_def tx_later_fields)

lemma booked_step: "booked d \<Longrightarrow> book_step d d' \<Longrightarrow> booked d'"
  by (auto simp: booked_def book_step_def)

lemma known_step: "known_row t d \<Longrightarrow> book_step d d' \<Longrightarrow> known_row t d'"
  unfolding known_row_def book_step_def carried_def using records_later by blast

lemma processed_step: "processed_row t d \<Longrightarrow> book_step d d' \<Longrightarrow> processed_row t d'"
  unfolding processed_row_def book_step_def using processed_carried by blast

lemma due_step: "due t dir d \<Longrightarrow> book_step d d' \<Longrightarrow> due t dir d'"
  unfolding due_def book_step_def using moves_carried by blast

lemma half_step:
  assumes "half t es d" and "book_step d d'"
  shows "half t es d'"
proof -
  obtain r where r: "r \<in> set (db_transactions d)" "records t r" "entries_of d (t_id t) = es"
      "tr_status r = ''PROCESSED'' \<and> tr_kind r \<noteq> ''LOSS'' \<longleftrightarrow> es = []"
    and others: "\<And>q. q \<in> set (db_transactions d) \<Longrightarrow> tr_id q \<noteq> t_id t \<Longrightarrow> well_booked d q"
    using assms(1) unfolding half_def by blast
  have i: "tr_id r = t_id t" using r(2) by (simp add: records_def)
  then have "\<not> well_booked d r" using r(3,4) by (auto simp: well_booked_def)
  then have "r \<in> set (db_transactions d')" "entries_of d' (t_id t) = es"
    using assms(2) r i unfolding book_step_def by auto
  moreover have "keys_ok d'" using assms(2) by (simp add: book_step_def)
  moreover have "well_booked d' q" if "q \<in> set (db_transactions d')" "tr_id q \<noteq> t_id t" for q
    using assms(2) others that unfolding book_step_def by blast
  ultimately show ?thesis using r(2,4) unfolding half_def by blast
qed

lemma stable_if:
  assumes "books_kept L" and "\<And>d. P d \<Longrightarrow> keys_ok d" and "\<And>d d'. P d \<Longrightarrow> book_step d d' \<Longrightarrow> P d'"
  shows "stable L P"
  using assms unfolding stable_def books_kept_def by blast

lemma booked_keys: "booked d \<Longrightarrow> keys_ok d"
  by (simp add: booked_def)

lemma half_keys: "half t es d \<Longrightarrow> keys_ok d"
  by (simp add: half_def)

lemma stable_assertions:
  assumes "books_kept L"
  shows "stable L booked" "stable L (ready t)" "stable L (\<lambda>d. ready t d \<and> processed_row q d)"
    "stable L (\<lambda>d. ready t d \<and> due u dir d)" "stable L (\<lambda>d. half t es d \<and> due u dir d)"
    "stable L (\<lambda>d. half t es d \<and> processed_row t d)"
  by (rule stable_if [OF assms]; blast intro: booked_keys half_keys booked_step known_step processed_step due_step half_step)+

text \<open>A change of neither transactions nor ledger.\<close>

definition books_untouched :: "db \<Rightarrow> db \<Rightarrow> bool" where
  "books_untouched d d' \<longleftrightarrow> db_transactions d' = db_transactions d \<and> db_ledger d' = db_ledger d"

lemma untouched_books:
  assumes "books_untouched d d'"
  shows "keys_ok d' = keys_ok d" "well_booked d' = well_booked d" "booked d' = booked d" "known_row t d' = known_row t d"
    "processed_row t d' = processed_row t d" "half t es d' = half t es d" "due t dir d' = due t dir d"
  using assms
  by (simp_all add: books_untouched_def keys_ok_def well_booked_def entries_of_def booked_def known_row_def
      processed_row_def half_def due_def fun_eq_iff)

lemma wide_books: "wide books_untouched"
  by (simp add: wide_def records_same_def books_untouched_def)

lemma on_books:
  "depends books_untouched booked" "depends books_untouched (ready t)"
  "depends books_untouched (\<lambda>d. ready t d \<and> processed_row q d)"
  "depends books_untouched (\<lambda>d. ready t d \<and> due u dir d)" "depends books_untouched (\<lambda>d. half t es d \<and> due u dir d)"
  "depends books_untouched (\<lambda>d. half t es d \<and> processed_row t d)"
  by (simp_all add: depends_def untouched_books)

subsection \<open>The writers\<close>

lemma keeps_books:
  assumes "keeps_in books_untouched L m" and "books_kept L" and "stable L P" and "depends books_untouched P"
  shows "triple_for booked n P m (\<lambda>_. P) anything"
  by (rule triple_conseq [OF keepsD [OF assms(1,3,4) stable_assertions(1) [OF assms(2)]]]) simp_all

lemma same_records:
  assumes "t_id t' = t_id t" and "t_kind t' = t_kind t" and "t_walletID t' = t_walletID t" and "t_amount t' = t_amount t"
  shows "records t' = records t" "known_row t' = known_row t" "half t' = half t"
  using assms by (simp_all add: records_def known_row_def half_def fun_eq_iff)

lemma same_due:
  "records t' = records t \<Longrightarrow> t_referenceTransactionID t' = t_referenceTransactionID t \<Longrightarrow> due t' = due t"
  by (simp add: due_def fun_eq_iff)

text \<open>What a transition of an aggregate and a stored reference leave.\<close>

lemma marked:
  "MarkProcessed t b now = Inr t' \<Longrightarrow> known_row t' = known_row t \<and> half t' = half t \<and> due t' = due t \<and>
     t_kind t' = t_kind t \<and> t_amount t' = t_amount t \<and> t_walletID t' = t_walletID t \<and> t_status t' = StatusProcessed"
  "MarkRejected t c m now = Inr t' \<Longrightarrow> known_row t' = known_row t \<and> t_status t' = StatusRejected"
  "MarkPendingReference t now = Inr t' \<Longrightarrow> known_row t' = known_row t"
  "ScheduleRetry t nxt now = Inr t' \<Longrightarrow>
     known_row t' = known_row t \<and> (t_status t' = StatusPending \<or> t_status t' = StatusPendingReference)"
  "records (SetReferenceResolution t i now) = records t" "known_row (SetReferenceResolution t i now) = known_row t"
  using same_records [of t' t] same_due [of t' t] same_records [of "SetReferenceResolution t i now" t]
  by (auto simp: tx_ops SetReferenceResolution_def)

text \<open>A transaction whose update moves no money.\<close>

lemma book_update_idle:
  assumes L: "books_kept L"
    and idle: "status_string (t_status t) \<noteq> ''PROCESSED'' \<or> t_kind t = KindLoss"
  shows "triple_for booked n (ready t) (transactions_Update L t) (\<lambda>_. booked) anything"
  unfolding transactions_Update_def
proof (rule triple_bind [where R = "\<lambda>k d. k = 0 \<or> booked d"], intro triple_on_error triple_stmt stable_assertions L)
  let ?set = "tx_row_set (t_referenceTransactionID t) (status_string (t_status t)) (nullableString (t_failureCode t))
    (map_option m_amount (t_resultBalance t)) (t_attempts t) (nullableTime (t_nextAttemptAt t)) (t_updatedAt t)"
  fix d k d' assume pre: "ready t d" and run: "sql_update_tx (t_id t) ?set d = Inr (k, d')"
  show "k = 0 \<or> booked d'"
  proof (cases k)
    case (Suc m)
    have keys: "keys_ok d" using pre by (simp add: booked_def)
    obtain r where r: "r \<in> set (db_transactions d)" "tr_id r = t_id t" "is_pending_row r" "keys_ok d'"
      and rows: "set (db_transactions d') = insert (?set r) {q \<in> set (db_transactions d). tr_id q \<noteq> t_id t}"
      and e: "entries_of d' = entries_of d" and c: "carried tx_later (db_transactions d) (db_transactions d')"
      by (rule update_tx_books [OF keys run [unfolded Suc]])
    have "records t r"
      using pre tx_row_unique [OF keys _ r(1)] r(2) by (auto simp: known_row_def records_def)
    then have "tr_kind r = kind_string (t_kind t)" by (simp add: records_def)
    moreover have "entries_of d (t_id t) = []"
      using pre r by (auto simp: booked_def well_booked_def is_pending_row_def pending_statuses_def)
    ultimately have "well_booked d' (?set r)"
      using idle r(2) by (auto simp: well_booked_def e tx_row_set_def)
    moreover have "well_booked d' q" if "q \<in> set (db_transactions d)" for q
      using pre that by (intro well_booked_carried [OF c]) (simp_all add: e booked_def)
    ultimately show ?thesis using rows r(4) by (auto simp: booked_def)
  qed simp
qed (auto intro: triple_throw triple_ret)

text \<open>The update that completes a transaction whose entry is there.\<close>

lemma book_update_moved:
  assumes L: "books_kept L" and t: "t_status t = StatusProcessed" "kind_string (t_kind t) \<noteq> ''LOSS''"
    and e: "lr_wallet_id e = t_walletID t" "lr_amount_minor e = m_amount (t_amount t)"
      "lr_currency e = m_currency (t_amount t)"
  shows "triple_for booked n (\<lambda>d. half t [e] d \<and> due t (lr_direction e) d) (transactions_Update L t) (\<lambda>_. booked) anything"
  unfolding transactions_Update_def
proof (rule triple_bind [where R = "\<lambda>k d. k = 0 \<or> booked d"], intro triple_on_error triple_stmt stable_assertions L)
  let ?set = "tx_row_set (t_referenceTransactionID t) (status_string (t_status t)) (nullableString (t_failureCode t))
    (map_option m_amount (t_resultBalance t)) (t_attempts t) (nullableTime (t_nextAttemptAt t)) (t_updatedAt t)"
  fix d k d' assume pre: "half t [e] d \<and> due t (lr_direction e) d" and run: "sql_update_tx (t_id t) ?set d = Inr (k, d')"
  show "k = 0 \<or> booked d'"
  proof (cases k)
    case (Suc m)
    have keys: "keys_ok d" using pre by (simp add: half_def)
    obtain r where r: "r \<in> set (db_transactions d)" "tr_id r = t_id t" "is_pending_row r" "keys_ok d'"
      and rows: "set (db_transactions d') = insert (?set r) {q \<in> set (db_transactions d). tr_id q \<noteq> t_id t}"
      and e': "entries_of d' = entries_of d" and c: "carried tx_later (db_transactions d) (db_transactions d')"
      by (rule update_tx_books [OF keys run [unfolded Suc]])
    have rec: "records t r" and es: "entries_of d (t_id t) = [e]"
      using pre tx_row_unique [OF keys _ r(1)] r(2) by (auto simp: half_def records_def)
    have "moves (db_transactions d) (?set r) (lr_direction e)"
      using pre rec by (auto simp: due_def records_def tx_row_set_def)
    then have "moves (db_transactions d') (?set r) (lr_direction e)" by (rule moves_carried [OF c])
    then have "well_booked d' (?set r)"
      using rec t e es r(2) by (auto simp: well_booked_def books_def records_def e' tx_row_set_def)
    moreover have "well_booked d' q" if "q \<in> set (db_transactions d)" "tr_id q \<noteq> t_id t" for q
      using pre that by (intro well_booked_carried [OF c]) (simp_all add: e' half_def)
    ultimately show ?thesis using rows r(4) by (auto simp: booked_def)
  qed simp
qed (auto intro: triple_throw triple_ret)

text \<open>A new transaction, pending or already processed.\<close>

lemma records_row: "records t (tx_to_row t)"
  by (simp add: records_def tx_to_row_def)

lemma insert_row_status: "tr_status (tx_to_row t) = status_string (t_status t)" "tr_id (tx_to_row t) = t_id t"
  by (simp_all add: tx_to_row_def)

lemma book_insert_pending:
  assumes L: "books_kept L" and t: "t_status t = StatusPending"
  shows "triple_for booked n booked (transactions_Insert L t) (\<lambda>_. ready t) anything"
  unfolding transactions_Insert_def
proof (intro triple_on_error triple_stmt stable_assertions L)
  fix d v d' assume pre: "booked d" and run: "sql_insert_tx (tx_to_row t) d = Inr (v, d')"
  have "keys_ok d" using pre by (simp add: booked_def)
  note ins = insert_tx_books [OF this run]
  have "well_booked d' (tx_to_row t)"
    using ins(3,4) t by (simp add: well_booked_def insert_row_status)
  then show "ready t d'"
    using pre ins(1,6) records_row by (auto simp: booked_def known_row_def ins(2))
qed simp

lemma book_insert_processed:
  assumes L: "books_kept L" and t: "t_status t = StatusProcessed" "t_kind t = KindOpening"
  shows "triple_for booked n booked (transactions_Insert L t) (\<lambda>_ d. half t [] d \<and> processed_row t d) anything"
  unfolding transactions_Insert_def
proof (intro triple_on_error triple_stmt stable_assertions L)
  fix d v d' assume pre: "booked d" and run: "sql_insert_tx (tx_to_row t) d = Inr (v, d')"
  have "keys_ok d" using pre by (simp add: booked_def)
  note ins = insert_tx_books [OF this run]
  have row: "tr_status (tx_to_row t) = ''PROCESSED''" "tr_kind (tx_to_row t) = ''OPENING''"
    using t by (simp_all add: tx_to_row_def)
  have "entries_of d' (t_id t) = []" using ins(3,4) by (simp add: insert_row_status)
  moreover have "\<forall>q \<in> set (db_transactions d'). tr_id q \<noteq> t_id t \<longrightarrow> well_booked d' q"
    using pre ins(6) by (auto simp: booked_def ins(2) insert_row_status)
  ultimately show "half t [] d' \<and> processed_row t d'"
    using ins(1) row records_row unfolding half_def processed_row_def ins(2) by auto
qed simp

text \<open>The entry of a pending transaction, and the entry of an opening.\<close>

lemma book_entry_pending:
  assumes L: "books_kept L" and e: "e_transactionID e = t_id t" "e_walletID e = t_walletID t"
  shows "triple_for booked n (\<lambda>d. ready t d \<and> due t dir d) (ledgers_Insert L e)
    (\<lambda>_ d. half t [entry_to_row e] d \<and> due t dir d) anything"
  unfolding ledgers_Insert_def
proof (intro triple_on_error triple_stmt stable_assertions L)
  fix d v d' assume pre: "ready t d \<and> due t dir d" and run: "sql_insert_ledger (entry_to_row e) d = Inr (v, d')"
  note ins = insert_ledger_books [OF run]
  have i: "lr_transaction_id (entry_to_row e) = t_id t" "lr_wallet_id (entry_to_row e) = t_walletID t"
    using e by (simp_all add: entry_to_row_def)
  obtain r where r: "r \<in> set (db_transactions d)" "records t r" using pre by (auto simp: known_row_def)
  have id: "tr_id r = t_id t" "tr_wallet_id r = t_walletID t" using r(2) by (simp_all add: records_def)
  have wb: "well_booked d r" using pre r(1) by (simp add: booked_def)
  have none: "\<not> (tr_status r = ''PROCESSED'' \<and> tr_kind r \<noteq> ''LOSS'')"
  proof
    assume "tr_status r = ''PROCESSED'' \<and> tr_kind r \<noteq> ''LOSS''"
    with wb obtain q where q: "entries_of d (t_id t) = [q]" "lr_wallet_id q = t_walletID t"
      by (auto simp: well_booked_def books_def id)
    then have "q \<in> set (entries_of d (t_id t))" by simp
    then show False using ins(4) [of q] q(2) i by (simp add: entries_of_def)
  qed
  then have "entries_of d (t_id t) = []" using wb id by (simp add: well_booked_def split: if_splits)
  then have es: "entries_of d' (t_id t) = [entry_to_row e]" using ins(2) i by simp
  have "well_booked d' q" if "q \<in> set (db_transactions d)" "tr_id q \<noteq> t_id t" for q
    using pre that ins(1,2) i by (simp add: booked_def well_booked_def)
  moreover have "keys_ok d'" using ins(3) pre by (simp add: booked_def)
  ultimately have "half t [entry_to_row e] d'" using r none es unfolding half_def ins(1) by blast
  then show "half t [entry_to_row e] d' \<and> due t dir d'" using pre ins(1) by (simp add: due_def)
qed simp

lemma book_entry_opening:
  assumes L: "books_kept L" and t: "t_kind t = KindOpening"
    and e: "e_transactionID e = t_id t" "e_walletID e = t_walletID t" "e_amount e = t_amount t"
      "e_direction e = DirectionCredit"
  shows "triple_for booked n (\<lambda>d. half t [] d \<and> processed_row t d) (ledgers_Insert L e) (\<lambda>_. booked) anything"
  unfolding ledgers_Insert_def
proof (intro triple_on_error triple_stmt stable_assertions L)
  fix d v d' assume pre: "half t [] d \<and> processed_row t d" and run: "sql_insert_ledger (entry_to_row e) d = Inr (v, d')"
  note ins = insert_ledger_books [OF run]
  have i: "lr_transaction_id (entry_to_row e) = t_id t" using e by (simp add: entry_to_row_def)
  have keys: "keys_ok d" using pre by (simp add: half_def)
  have "entries_of d (t_id t) = []" using pre by (auto simp: half_def)
  then have es: "entries_of d' (t_id t) = [entry_to_row e]" using ins(2) i by simp
  have "well_booked d' q" if q: "q \<in> set (db_transactions d)" for q
  proof (cases "tr_id q = t_id t")
    case True
    obtain r where "r \<in> set (db_transactions d)" "records t r" "tr_status r = ''PROCESSED''"
      using pre by (auto simp: processed_row_def)
    then have "records t q" "tr_status q = ''PROCESSED''"
      using tx_row_unique [OF keys q] True by (auto simp: records_def)
    then show ?thesis
      using es t e by (auto simp: well_booked_def books_def moves_def records_def entry_to_row_def)
  next
    case False
    then show ?thesis using pre q ins(1,2) i by (simp add: half_def well_booked_def)
  qed
  then show "booked d'" using ins(1,3) keys by (simp add: booked_def)
qed simp

subsection \<open>Statements that leave transactions and ledger alone\<close>

lemma keeps_wallets [keeps_rules]:
  "keeps_in books_untouched L (wallets_UpdateBalance L w v)" "keeps_in books_untouched L (wallets_Create L w)"
proof -
  have "only_in books_untouched (sql_update_wallet i b u v)" "only_in books_untouched (sql_insert_wallet r)" for i b u v r
    by (auto simp: only_in_def books_untouched_def sql_update_wallet_def sql_insert_wallet_def Let_def
        split: option.splits if_splits)
  then show "keeps_in books_untouched L (wallets_UpdateBalance L w v)" "keeps_in books_untouched L (wallets_Create L w)"
    unfolding wallets_UpdateBalance_def wallets_Create_def by (intro keeps_rules keeps_stmt; simp)+
qed

lemma keeps_book_ups [keeps_rules]:
  "keeps_in books_untouched L (enqueue L a ev)" "keeps_in books_untouched L (outbox_Insert L oe)"
  "keeps_in books_untouched L (wallets_GetByID L i)" "keeps_in books_untouched L (wallets_GetByPlayerAndCurrency L pl cu)"
  "keeps_in books_untouched L (transactions_FindReversal L i k)"
  by (intro keeps_enqueue_in keeps_look_ups wide_books)+

lemma keeps_announce [keeps_rules]: "keeps_in books_untouched L (announce_opening L oc w t z c now)"
  unfolding announce_opening_def insertEvent_def by (intro keeps_rules)

lemma keeps_booked: "keeps_in books_untouched L m \<Longrightarrow> books_kept L \<Longrightarrow> triple_for booked n booked m (\<lambda>_. booked) anything"
  by (rule keeps_books) (auto intro: stable_assertions on_books)

lemma book_wake:
  assumes "books_kept L"
  shows "triple_for booked n booked (transactions_WakeDependents L p x now) (\<lambda>_. booked) anything"
  unfolding transactions_WakeDependents_def
  by (intro triple_on_error triple_stmt stable_assertions assms) (auto intro: wake_books)

subsection \<open>The steps of the service\<close>

lemma triple_then_keeps:
  assumes "books_kept L" and "triple_for booked n P m (\<lambda>_. booked) anything" and "\<And>v. keeps_in books_untouched L (k v)"
  shows "triple_for booked n P (bindM m k) (\<lambda>_. booked) anything"
  by (rule triple_bind [OF assms(2)]) (rule keeps_booked [OF assms(3,1)])

lemma book_markProcessed:
  assumes L: "books_kept L"
    and upd: "\<And>t'. MarkProcessed t b now = Inr t' \<Longrightarrow> triple_for booked n P (transactions_Update L t') (\<lambda>_. booked) anything"
  shows "triple_for booked n P (markProcessed L t b now corr) (\<lambda>_. booked) anything"
proof -
  note k = keeps_booked [OF _ L]
  have wake: "triple_for booked n booked (if c then bindM (transactions_WakeDependents L p x now) (\<lambda>_. ret ()) else ret ())
      (\<lambda>_. booked) anything" for c p x
    by (auto intro!: triple_bind [OF book_wake [OF L]] triple_ret)
  show ?thesis
    unfolding markProcessed_def
    by (rule triple_lift_bind, rule triple_bind [OF upd], assumption)
      (intro triple_bind [OF k] triple_then_keeps [OF L wake] keeps_rules)
qed

lemma book_reject:
  assumes L: "books_kept L"
  shows "triple_for booked n (ready t) (reject L t w code now corr) (\<lambda>_. booked) anything"
proof -
  have upd: "triple_for booked n (ready t) (transactions_Update L t') (\<lambda>_. booked) anything"
    if "MarkRejected t code (map_option w_balance w) now = Inr t'" for t'
    using book_update_idle [OF L, of t' n] marked(2) [OF that] by simp
  show ?thesis
    unfolding reject_def
    by (rule triple_lift_bind, rule triple_then_keeps [OF L upd], assumption) (intro keeps_rules)
qed

text \<open>A parked operation.\<close>

lemma book_scheduleReferenceRetry:
  assumes L: "books_kept L"
  shows "triple_for booked n (ready t) (scheduleReferenceRetry L c t now corr) (\<lambda>_. booked) anything"
proof -
  have upd: "triple_for booked n (ready t) (transactions_Update L t2) (\<lambda>_. booked) anything"
    if "(if t_status t = StatusPending then MarkPendingReference t now else Inr t) = Inr t1"
      and "ScheduleRetry t1 nxt now = Inr t2" for t1 t2 nxt
  proof -
    have "known_row t1 = known_row t" using that(1) marked(3) by (auto split: if_splits)
    with marked(4) [OF that(2)] have "known_row t2 = known_row t"
        "t_status t2 = StatusPending \<or> t_status t2 = StatusPendingReference" by auto
    then show ?thesis using book_update_idle [OF L, of t2 n] by auto
  qed
  show ?thesis
    unfolding scheduleReferenceRetry_def Let_def
    by (rule triple_if, rule book_reject [OF L], rule triple_lift_bind, rule triple_lift_bind,
        rule triple_then_keeps [OF L upd], assumption+) (intro keeps_rules)
qed

lemma book_handleReferenceError:
  "books_kept L \<Longrightarrow> triple_for booked n (ready t) (handleReferenceError L c t w e now corr) (\<lambda>_. booked) anything"
  unfolding handleReferenceError_def by (auto intro: book_scheduleReferenceRetry book_reject triple_throw)

text \<open>A movement: its entry, then its status.\<close>

lemma book_announce_movement:
  assumes L: "books_kept L" and t: "kind_string (t_kind t) \<noteq> ''LOSS''"
    and e: "lr_wallet_id e = t_walletID t" "lr_amount_minor e = m_amount (t_amount t)"
      "lr_currency e = m_currency (t_amount t)"
  shows "triple_for booked n (\<lambda>d. half t [e] d \<and> due t (lr_direction e) d) (announce_movement L t w d ch now corr)
    (\<lambda>_. booked) anything"
proof -
  let ?P = "\<lambda>d. half t [e] d \<and> due t (lr_direction e) d"
  have k: "triple_for booked n ?P m (\<lambda>_. ?P) anything" if "keeps_in books_untouched L m" for m :: "'x io"
    by (rule keeps_books [OF that L stable_assertions(5) [OF L] on_books(5)])
  have "triple_for booked n ?P (markProcessed L t b now corr) (\<lambda>_. booked) anything" for b
  proof (rule book_markProcessed [OF L])
    fix t' assume "MarkProcessed t b now = Inr t'"
    from marked(1) [OF this] show "triple_for booked n ?P (transactions_Update L t') (\<lambda>_. booked) anything"
      using book_update_moved [OF L, of t' e n] t e by simp
  qed
  then show ?thesis
    unfolding announce_movement_def by (intro triple_bind [OF k] keeps_rules)
qed

lemma book_record_movement:
  assumes L: "books_kept L" and t: "kind_string (t_kind t) \<noteq> ''LOSS''" and w: "w_id w = t_walletID t"
  shows "triple_for booked n (\<lambda>db. ready t db \<and> due t (direction_string d) db) (record_movement L t w d ch now corr)
    (\<lambda>_. booked) anything"
proof -
  let ?P = "\<lambda>db. ready t db \<and> due t (direction_string d) db"
  have "triple_for booked n ?P (uuid_NewV7 L) (\<lambda>_. ?P) anything"
    by (rule keeps_books [OF keeps_NewV7 L stable_assertions(4) [OF L] on_books(4)])
  moreover have "triple_for booked n ?P
      (bindM (ledgers_Insert L e) (\<lambda>_. announce_movement L t w d ch now corr)) (\<lambda>_. booked) anything"
    if "ledger_New i (w_id w) (t_id t) d (t_amount t) (bc_Before ch) (bc_After ch) now = Inr e" for i e
  proof (rule triple_bind [OF book_entry_pending [OF L]])
    show "e_transactionID e = t_id t" "e_walletID e = t_walletID t"
      using that w by (auto simp: ledger_New_ok_iff)
    have "direction_string d = lr_direction (entry_to_row e)" "lr_wallet_id (entry_to_row e) = t_walletID t"
      "lr_amount_minor (entry_to_row e) = m_amount (t_amount t)" "lr_currency (entry_to_row e) = m_currency (t_amount t)"
      using that w by (auto simp: ledger_New_ok_iff entry_to_row_def)
    with book_announce_movement [OF L t, of "entry_to_row e"]
    show "triple_for booked n (\<lambda>db. half t [entry_to_row e] db \<and> due t (direction_string d) db)
        (announce_movement L t w d ch now corr) (\<lambda>_. booked) anything" by simp
  qed
  ultimately show ?thesis
    unfolding record_movement_def by (intro triple_bind [where m = "uuid_NewV7 L"] triple_lift_bind)
qed

lemma book_move:
  assumes L: "books_kept L" and t: "kind_string (t_kind t) \<noteq> ''LOSS''"
    and w: "w_id w = t_walletID t" "wallet_inv w" and d: "d = DirectionDebit \<or> d = DirectionCredit"
    and P: "\<And>db. P db \<Longrightarrow> ready t db" "stable L P" "depends books_untouched P"
    and due: "\<And>db. P db \<Longrightarrow> due (case ref of Some r \<Rightarrow> SetReferenceResolution t (t_id r) now | None \<Rightarrow> t) (direction_string d) db"
  shows "triple_for booked n P (move L t w d ref now corr) (\<lambda>_. booked) anything"
proof (cases "wallet_Move d w (t_amount t) now")
  case (Inl err)
  have "triple_for booked n (ready t) (move L t w d ref now corr) (\<lambda>_. booked) anything"
    unfolding move_def Inl sum.case by (auto intro: book_reject [OF L] triple_throw)
  then show ?thesis by (rule triple_conseq) (auto dest: P(1))
next
  case (Inr p)
  obtain ch w' where p: "p = (ch, w')" by (cases p)
  note mv = wallet_Move_ok [OF Inr [unfolded p] w(2) d]
  let ?t = "case ref of Some r \<Rightarrow> SetReferenceResolution t (t_id r) now | None \<Rightarrow> t"
  have t': "kind_string (t_kind ?t) \<noteq> ''LOSS''" "w_id w' = t_walletID ?t" "known_row ?t = known_row t"
    using t w mv(4) marked(6)
    by (auto simp: SetReferenceResolution_def wallet_apply_def split: option.split)
  have "triple_for booked n P (record_movement L ?t w' d ch now corr) (\<lambda>_. booked) anything"
    by (rule triple_conseq [OF book_record_movement [OF L t'(1,2)]]) (use P(1) due t'(3) in auto)
  then show ?thesis
    unfolding move_def Inr p sum.case prod.case
    by (rule triple_bind [OF keeps_books [OF keeps_wallets(1) L P(2,3)]])
qed

text \<open>A movement that references nothing, or anything.\<close>

lemma due_plain:
  "kind_string (t_kind t) = ''BET'' \<Longrightarrow> due t (direction_string DirectionDebit) d"
  "kind_string (t_kind t) = ''WIN'' \<Longrightarrow> due t (direction_string DirectionCredit) d"
  by (auto simp: due_def records_def moves_def)

text \<open>The reference that a reversal names.\<close>

lemma check_reference_ok:
  assumes "check_reference t ref = Inr u"
  shows "t_status ref = StatusProcessed" "t_walletID ref = t_walletID t"
    "m_currency (t_amount ref) = m_currency (t_amount t)"
    "IsReversal (t_kind t) \<Longrightarrow> m_amount (t_amount ref) = m_amount (t_amount t)"
    "t_kind t = KindRefund \<Longrightarrow> t_kind ref = KindBet"
  using assms
  by (auto simp: check_reference_def reference_kind_error_def and_then_Inr_iff money_Equal_ok_iff
      split: if_splits option.splits)

lemma due_reversal:
  assumes check: "check_reference t ref = Inr u" and rev: "IsReversal (t_kind t)" and ref: "processed_row ref d"
    and dir: "t_kind ref = KindBet \<and> dir = ''CREDIT'' \<or> (t_kind ref = KindWin \<or> t_kind ref = KindRefund) \<and> dir = ''DEBIT''"
  shows "due (SetReferenceResolution t (t_id ref) now) dir d"
  unfolding due_def
proof (intro allI impI)
  fix r assume "records (SetReferenceResolution t (t_id ref) now) r"
    and i: "tr_reference_transaction_id r = t_referenceTransactionID (SetReferenceResolution t (t_id ref) now)"
  then have r: "records t r" by (simp add: marked)
  obtain q where q: "q \<in> set (db_transactions d)" "records ref q" "tr_status q = ''PROCESSED''"
    using ref by (auto simp: processed_row_def)
  have "reverses q r"
    using check_reference_ok [OF check] rev q r i by (auto simp: reverses_def records_def SetReferenceResolution_def)
  moreover have "tr_kind q = kind_string (t_kind ref)" "tr_kind r = kind_string (t_kind t)"
    using q r by (simp_all add: records_def)
  moreover have "t_kind t = KindRefund \<or> t_kind t = KindRollback" using rev by (simp add: IsReversal_def)
  ultimately show "moves (db_transactions d) r dir"
    using q(1) dir check_reference_ok(5) [OF check] by (auto simp: moves_def)
qed

lemma scanTransaction_records:
  "scanTransaction row = Inr t \<Longrightarrow> records t row \<and> tr_status row = status_string (t_status t)"
  by (auto simp: scanTransaction_def and_then_Inr_iff NewCurrency_ok_iff FromMinorUnits_ok_iff ParseKind_ok_iff
      ParseStatus_ok_iff tx_Rehydrate_ok_iff records_def)

definition seen_row :: "transaction \<Rightarrow> db \<Rightarrow> bool" where
  "seen_row t d \<longleftrightarrow> (\<exists>r \<in> set (db_transactions d). records t r \<and> tr_status r = status_string (t_status t))"

lemma book_GetByProviderExternal:
  assumes L: "books_kept L"
  shows "triple_for booked n (ready t) (transactions_GetByProviderExternal L p x) (\<lambda>ref d. ready t d \<and> seen_row ref d) (ready t)"
  unfolding transactions_GetByProviderExternal_def scan_error_def
proof (rule triple_bind [OF triple_on_error [OF triple_stmt]])
  fix d row d' assume "ready t d" and "sql_tx_by_external p x d = Inr (row, d')"
  then show "ready t d' \<and> (\<forall>r. row = Some r \<longrightarrow> r \<in> set (db_transactions d'))"
    by (auto simp: sql_tx_by_external_def find_Some_iff)
next
  fix row
  show "triple_for booked n (\<lambda>d. ready t d \<and> (\<forall>r. row = Some r \<longrightarrow> r \<in> set (db_transactions d))) (scan_tx_row row)
      (\<lambda>ref d. ready t d \<and> seen_row ref d) (ready t)"
    using scanTransaction_records
    by (cases row) (auto simp: scan_tx_row_def seen_row_def intro!: triple_throw triple_lift)
qed (simp_all add: stable_assertions [OF L])

abbreviation resolved :: "transaction \<Rightarrow> transaction \<Rightarrow> db \<Rightarrow> bool" where
  "resolved t ref \<equiv> \<lambda>d. ready t d \<and> processed_row ref d \<and> check_reference t ref = Inr ()"

lemma resolved:
  assumes "books_kept L"
  shows "stable L (resolved t ref)" "depends books_untouched (resolved t ref)"
  using stable_assertions(3) [OF assms, of t ref] on_books(3) [of t ref] unfolding stable_def depends_def by blast+

lemma book_resolveReference:
  assumes L: "books_kept L"
  shows "triple_for booked n (ready t) (resolveReference L t)
    (resolved t) (ready t)"
  unfolding resolveReference_def
proof (rule triple_bind [OF triple_attempt [OF book_GetByProviderExternal [OF L]]])
  fix r
  have find: "triple_for booked n (resolved t ref) (transactions_FindReversal L i k) (\<lambda>_. resolved t ref) (ready t)" for ref i k
    by (rule triple_conseq [OF keepsD [OF keeps_book_ups(5) resolved [OF L] stable_assertions(1) [OF L]]]) auto
  show "triple_for booked n (case r of Inl _ \<Rightarrow> ready t | Inr ref \<Rightarrow> \<lambda>d. ready t d \<and> seen_row ref d) (case r of
       Inl err \<Rightarrow> if KindOf err = KindNotFound then throw errReferencePending else throw err
     | Inr ref \<Rightarrow>
         bindM (lift (check_reference t ref)) (\<lambda>_.
         bindM (transactions_FindReversal L (t_id ref) (t_kind t)) (\<lambda>existing.
         if existing \<noteq> None
         then throw (apperr_New KindRejected FailureReversalConflict
                (Sprintf ''reference already has a successful %s'' [SArg (kind_string (t_kind t))]))
         else if t_kind ref = KindBet
         then (let crossKind = (if t_kind t = KindRollback then KindRefund else KindRollback) in
               bindM (transactions_FindReversal L (t_id ref) crossKind) (\<lambda>cross.
               if cross \<noteq> None
               then throw (apperr_New KindRejected FailureReversalConflict
                      (Sprintf ''bet already has a successful %s; it cannot be reversed again''
                        [SArg (kind_string crossKind)]))
               else ret ref))
         else ret ref))) (resolved t) (ready t)"
  proof (cases r)
    case (Inl err)
    then show ?thesis by (auto intro: triple_throw)
  next
    case (Inr ref)
    have "triple_for booked n (\<lambda>d. ready t d \<and> seen_row ref d) (lift (check_reference t ref)) (\<lambda>_. resolved t ref) (ready t)"
      using check_reference_ok(1) [of t ref] by (intro triple_lift) (auto simp: seen_row_def processed_row_def)
    then show ?thesis
      unfolding Inr sum.case Let_def
      by (rule triple_bind) (intro triple_bind [OF find] triple_if triple_throw triple_ret; simp)
  qed
qed

text \<open>A reversal, an operation, a new operation.\<close>

lemma book_applyReversal:
  assumes L: "books_kept L" and w: "w_id w = t_walletID t" "wallet_inv w" and rev: "IsReversal (t_kind t)"
  shows "triple_for booked n (resolved t ref) (applyReversal L t w ref now corr) (\<lambda>_. booked) anything"
proof -
  have mv: "triple_for booked n (resolved t ref) (move L t w dir (Some ref) now corr) (\<lambda>_. booked) anything"
    if "t_kind ref = KindBet \<and> dir = DirectionCredit \<or> (t_kind ref = KindWin \<or> t_kind ref = KindRefund) \<and> dir = DirectionDebit" for dir
    by (rule book_move [OF L _ w])
      (use that rev resolved [OF L] in \<open>auto intro: due_reversal simp: IsReversal_def\<close>)
  have "triple_for booked n (resolved t ref) (reject L t v c now corr) (\<lambda>_. booked) anything" for v c
    by (rule triple_conseq [OF book_reject [OF L, of n t]]) auto
  then show ?thesis using mv by (simp add: applyReversal_def)
qed

lemma GetByID_id:
  assumes "on_error f (wallets_GetByID L i) x = (Inr w, x')"
  shows "w_id w = i"
proof -
  from assms have "wallets_GetByID L i x = (Inr w, x')"
    by (auto simp: on_error_def split: prod.splits sum.splits)
  then obtain r y where st: "stmt L (sql_wallet_by_id i) x = (Inr (Some r), y)" and w: "scanWallet r = Inr w"
    unfolding wallets_GetByID_def
    by (cases rule: bindM_cases)
      (auto simp: scan_wallet_row_def throw_def lift_def on_error_def split: option.splits prod.splits sum.splits)
  have "wr_id r = i"
    using st by (auto simp: stmt_def Let_def sql_wallet_by_id_def find_Some_iff split: if_splits option.splits)
  then show ?thesis using w by (auto simp: scanWallet_ok_iff wallet_to_row_def)
qed

lemma book_referenced:
  assumes L: "books_kept L" and w: "wallet_inv w" "w_id w = t_walletID t"
    and k: "t_kind t = KindWin \<or> t_kind t = KindRefund \<or> t_kind t = KindRollback"
  shows "triple_for booked n (ready t) (bindM (attempt (resolveReference L t)) (\<lambda>r. case r of
       Inl err \<Rightarrow> handleReferenceError L c t w err now corr
     | Inr ref \<Rightarrow> if t_kind t = KindWin then move L t w DirectionCredit (Some ref) now corr
         else applyReversal L t w ref now corr)) (\<lambda>_. booked) anything"
proof (rule triple_bind [OF triple_attempt [OF book_resolveReference [OF L]]])
  have win: "triple_for booked n (resolved t ref)
      (move L t w DirectionCredit (Some ref) now corr) (\<lambda>_. booked) anything" if k: "t_kind t = KindWin" for ref
  proof (rule triple_conseq)
    show "triple_for booked n (ready t) (move L t w DirectionCredit (Some ref) now corr) (\<lambda>_. booked) anything"
      by (rule book_move [OF L])
        (use k w stable_assertions(2) [OF L] on_books(2) due_plain(2) [of "SetReferenceResolution t (t_id ref) now"]
          in \<open>auto simp: SetReferenceResolution_def\<close>)
  qed auto
  have reversal: "IsReversal (t_kind t)" if "t_kind t \<noteq> KindWin" using k that by (auto simp: IsReversal_def)
  fix r :: "transaction result"
  show "triple_for booked n (case r of Inl _ \<Rightarrow> ready t | Inr ref \<Rightarrow> resolved t ref)
      (case r of Inl err \<Rightarrow> handleReferenceError L c t w err now corr
        | Inr ref \<Rightarrow> if t_kind t = KindWin then move L t w DirectionCredit (Some ref) now corr
            else applyReversal L t w ref now corr) (\<lambda>_. booked) anything"
    using book_handleReferenceError [OF L] win book_applyReversal [OF L w(2,1)] reversal
    by (cases r; cases "t_kind t = KindWin") simp_all
qed

lemma book_loss:
  assumes L: "books_kept L" and k: "t_kind t = KindLoss"
  shows "triple_for booked n (ready t) (markProcessed L t bal now corr) (\<lambda>_. booked) anything"
proof (rule book_markProcessed [OF L])
  fix t' assume "MarkProcessed t bal now = Inr t'"
  from marked(1) [OF this] show "triple_for booked n (ready t) (transactions_Update L t') (\<lambda>_. booked) anything"
    using book_update_idle [OF L, of t' n] k by simp
qed

lemma book_applyOperation:
  assumes L: "books_kept L"
  shows "triple_for booked n (ready t) (applyOperation L c t now corr) (\<lambda>_. booked) anything"
  unfolding applyOperation_def
proof (rule triple_bind_fact [where F = "\<lambda>w. wallet_inv w \<and> w_id w = t_walletID t"])
  show "triple_for booked n (ready t)
      (on_error (\<lambda>err. if KindOf err = KindNotFound
          then apperr_Wrap KindRejected FailureWalletNotFound (Text ''wallet does not exist'') err
          else err) (wallets_GetByID L (t_walletID t))) (\<lambda>_. ready t) anything"
    by (rule triple_on_error, rule keeps_books [OF keeps_book_ups(3) L stable_assertions(2) [OF L] on_books(2)])
  fix w assume w: "wallet_inv w \<and> w_id w = t_walletID t"
  have plain: "triple_for booked n (ready t) (move L t w d None now corr) (\<lambda>_. booked) anything"
    if "t_kind t = KindBet \<and> d = DirectionDebit \<or> t_kind t = KindWin \<and> d = DirectionCredit" for d
    by (rule book_move [OF L]) (use that w stable_assertions(2) [OF L] on_books(2) due_plain [of t] in auto)
  show "triple_for booked n (ready t)
     (if w_playerID w \<noteq> t_playerID t then reject L t (Some w) FailureWalletPlayerMismatch now corr
      else if w_currency w \<noteq> m_currency (t_amount t)
      then reject L t (Some w) FailureCurrencyMismatch now corr
      else if t_kind t = KindLoss then markProcessed L t (w_balance w) now corr
      else if t_kind t = KindBet then move L t w DirectionDebit None now corr
      else if t_kind t = KindWin \<and> t_referenceExternalTransactionID t = ''''
      then move L t w DirectionCredit None now corr
      else if t_kind t = KindWin \<or> t_kind t = KindRefund \<or> t_kind t = KindRollback
      then bindM (attempt (resolveReference L t)) (\<lambda>r. case r of
          Inl err \<Rightarrow> handleReferenceError L c t w err now corr
        | Inr ref \<Rightarrow> if t_kind t = KindWin then move L t w DirectionCredit (Some ref) now corr
            else applyReversal L t w ref now corr)
      else throw (apperr_New KindInvalid FailureUnsupportedKind
             (Sprintf ''kind %s cannot be processed'' [SArg (kind_string (t_kind t))])))
     (\<lambda>_. booked) anything"
    using book_loss [OF L] plain book_referenced [OF L conjunct1 [OF w] conjunct2 [OF w]] book_reject [OF L]
    by (simp add: triple_throw split: if_split)
qed (use GetByID_inv GetByID_id in blast)

lemma book_process_new:
  assumes L: "books_kept L"
  shows "triple_for booked n booked (process_new L c cmd h now) (\<lambda>_. booked) anything"
proof -
  have "triple_for booked n booked (bindM (transactions_Insert L t)
      (\<lambda>_. applyOperation L c t now (correlationOf L (cmd_CorrelationID cmd) (t_id t)))) (\<lambda>_. booked) anything"
    if "NewExternal i (params_of cmd h) now = Inr t" for i t
    using that by (intro triple_bind [OF book_insert_pending [OF L]] book_applyOperation L) (auto simp: NewExternal_ok_iff)
  then show ?thesis
    unfolding process_new_def by (intro triple_bind [OF keeps_booked [OF keeps_NewV7 L]] triple_lift_bind)
qed

text \<open>An opening.\<close>

lemma book_credit_opening:
  assumes L: "books_kept L"
  shows "triple_for booked n booked (credit_opening L cmd w now) (\<lambda>_. booked) anything"
proof -
  let ?H = "\<lambda>t d. half t [] d \<and> processed_row t d"
  have k: "triple_for booked n (?H t) m (\<lambda>_. ?H t) anything" if "keeps_in books_untouched L m" for t and m :: "'x io"
    by (rule keeps_books [OF that L stable_assertions(6) [OF L] on_books(6)])
  have entry: "triple_for booked n (?H t) (bindM (ledgers_Insert L e) (\<lambda>_.
      bindM (announce_opening L cmd w t z cc now) (\<lambda>_. ret w))) (\<lambda>_. booked) anything"
    if "NewOpening i \<lparr>op_WalletID = w_id w, op_PlayerID = w_playerID w, op_Money = oc_InitialBalance cmd\<rparr> now = Inr t"
      and "ledger_New j (w_id w) (t_id t) DirectionCredit (oc_InitialBalance cmd) z (oc_InitialBalance cmd) now = Inr e"
    for i j z t e cc
  proof (rule triple_then_keeps [OF L book_entry_opening [OF L]])
    show "t_kind t = KindOpening" "e_transactionID e = t_id t" "e_walletID e = t_walletID t" "e_amount e = t_amount t"
      "e_direction e = DirectionCredit"
      using that by (auto simp: NewOpening_ok_iff ledger_New_ok_iff)
  qed (intro keeps_rules)
  have opened: "triple_for booked n booked (transactions_Insert L t) (\<lambda>_. ?H t) anything"
    if "NewOpening i \<lparr>op_WalletID = w_id w, op_PlayerID = w_playerID w, op_Money = oc_InitialBalance cmd\<rparr> now = Inr t" for i t
    using that by (intro book_insert_processed L) (auto simp: NewOpening_ok_iff)
  show ?thesis
    unfolding credit_opening_def Let_def
    by (rule triple_bind [OF keeps_booked [OF keeps_NewV7 L]], rule triple_lift_bind, rule triple_bind [OF opened], assumption,
        rule triple_lift_bind, rule triple_bind [OF k [OF keeps_NewV7]], rule triple_lift_bind, rule entry)
qed

lemma book_open_wallet:
  assumes L: "books_kept L"
  shows "triple_for booked n booked (open_wallet L cmd) (\<lambda>_. booked) anything"
proof -
  note k = keeps_booked [OF _ L]
  have "triple_for booked n booked (case r of Inr existing \<Rightarrow> throw ErrWalletExists
      | Inl err \<Rightarrow> if KindOf err \<noteq> KindNotFound then throw err
          else bindM (uuid_NewV7 L) (\<lambda>i. bindM (lift (wallet_Open i (oc_PlayerID cmd) (oc_InitialBalance cmd) now))
            (\<lambda>w. bindM (wallets_Create L w) (\<lambda>_. if \<not> money_IsPositive (oc_InitialBalance cmd) then ret w
              else credit_opening L cmd w now))))
      (\<lambda>_. booked) anything" for r :: "wallet result" and now
    by (cases r)
      (auto intro!: triple_if triple_throw triple_bind [OF k] triple_ret book_credit_opening L keeps_rules)
  then show ?thesis
    unfolding open_wallet_def by (intro triple_bind [OF k] keeps_rules)
qed

subsection \<open>The whole service\<close>

interpretation booking: committed books_kept booked known_row
proof
  show "depends records_same booked"
    using wide_books untouched_books(3) unfolding depends_def wide_def by blast
  show "known_row t d" if "row \<in> set (db_transactions d)" "scanTransaction row = Inr t" for row t d
    using that scanTransaction_records by (auto simp: known_row_def)
qed (simp_all add: stable_assertions body_def book_process_new book_applyOperation book_open_wallet)

subsection \<open>What the invariant says of a state\<close>

lemma booked_entry:
  assumes "booked d" and "t \<in> set (db_transactions d)" and "tr_status t = ''PROCESSED''" and "tr_kind t \<noteq> ''LOSS''"
  obtains e where "entries_of d (tr_id t) = [e]" "e \<in> set (db_ledger d)" "lr_transaction_id e = tr_id t"
    "books (db_transactions d) t e"
proof -
  have "well_booked d t" using assms by (simp add: booked_def)
  then obtain e where e: "entries_of d (tr_id t) = [e]" "books (db_transactions d) t e"
    using assms(3,4) by (auto simp: well_booked_def)
  then have "e \<in> set (entries_of d (tr_id t))" by simp
  then show thesis using e by (intro that) (simp_all add: entries_of_def)
qed

text \<open>The entry of a reversal is opposite to the entry of its reference.\<close>

lemma booked_reversal:
  assumes d: "booked d" and t: "moves (db_transactions d) t dir" "tr_kind t = ''REFUND'' \<or> tr_kind t = ''ROLLBACK''"
  obtains f where "f \<in> set (db_ledger d)" "tr_reference_transaction_id t = Some (lr_transaction_id f)"
    "lr_wallet_id f = tr_wallet_id t" "lr_amount_minor f = tr_amount_minor t" "lr_currency f = tr_currency t"
    "dir = ''DEBIT'' \<and> lr_direction f = ''CREDIT'' \<or> dir = ''CREDIT'' \<and> lr_direction f = ''DEBIT''"
proof -
  obtain q where q: "q \<in> set (db_transactions d)" "reverses q t"
    and k: "tr_kind q = ''BET'' \<and> dir = ''CREDIT'' \<or> (tr_kind q = ''WIN'' \<or> tr_kind q = ''REFUND'') \<and> dir = ''DEBIT''"
    using t by (auto simp: moves_def split: if_splits)
  have "tr_status q = ''PROCESSED''" "tr_kind q \<noteq> ''LOSS''" using q k by (auto simp: reverses_def)
  then obtain f where f: "f \<in> set (db_ledger d)" "lr_transaction_id f = tr_id q" "books (db_transactions d) q f"
    using booked_entry [OF d q(1)] by metis
  from f(3) k have "lr_direction f = (if tr_kind q = ''BET'' then ''DEBIT'' else ''CREDIT'')"
    by (auto simp: books_def moves_def)
  with f q(2) k show thesis by (intro that [of f]) (auto simp: books_def reverses_def)
qed

lemma booked_ledger:
  assumes "booked d" and "e \<in> set (db_ledger d)"
  obtains t where "t \<in> set (db_transactions d)" "tr_id t = lr_transaction_id e" "tr_status t = ''PROCESSED''" "tr_kind t \<noteq> ''LOSS''"
proof -
  obtain t where t: "t \<in> set (db_transactions d)" "tr_id t = lr_transaction_id e"
    using assms by (auto simp: booked_def keys_ok_def)
  have "e \<in> set (entries_of d (tr_id t))" using assms(2) t(2) by (simp add: entries_of_def)
  moreover have "well_booked d t" using assms(1) t(1) by (simp add: booked_def)
  ultimately show thesis using t by (intro that [of t]) (auto simp: well_booked_def split: if_splits)
qed

subsection \<open>A sample environment with a concurrent writer\<close>

text \<open>Another connection that credits a win to wallet 1, when it can.\<close>

definition win_row :: tx_row where
  "win_row = \<lparr>tr_id = 901, tr_origin = ''EXTERNAL'', tr_provider_id = Some ''q'',
     tr_external_transaction_id = Some ''w1'', tr_idempotency_key = Some ''w1'', tr_payload_hash = Some ''h'',
     tr_wallet_id = 1, tr_player_id = 2, tr_round_id = Some ''r'', tr_game_id = Some ''g'', tr_kind = ''WIN'',
     tr_amount_minor = 5, tr_currency = ''BRL'', tr_reference_external_transaction_id = None,
     tr_reference_transaction_id = None, tr_status = ''PROCESSED'', tr_failure_code = None,
     tr_result_balance_minor = Some 10005, tr_attempts = 0, tr_next_attempt_at = None,
     tr_created_at = 50, tr_updated_at = 50\<rparr>"

definition credit_win :: "db \<Rightarrow> db" where
  "credit_win d =
     (case sql_insert_tx win_row d of
        Inl _ \<Rightarrow> d
      | Inr (_, d1) \<Rightarrow> (case sql_insert_ledger deposit_row d1 of Inl _ \<Rightarrow> d | Inr (_, d2) \<Rightarrow> d2))"

lemma book_step_credit_win:
  assumes "keys_ok d" shows "book_step d (credit_win d)"
proof (cases "credit_win d = d")
  case True
  then show ?thesis using assms by (simp add: book_step_refl)
next
  case False
  then obtain u d1 v d2 where tx: "sql_insert_tx win_row d = Inr (u, d1)"
    and le: "sql_insert_ledger deposit_row d1 = Inr (v, d2)" and d2: "credit_win d = d2"
    by (auto simp: credit_win_def split: sum.splits prod.splits)
  note t = insert_tx_books [OF assms tx]
  note l = insert_ledger_books [OF le]
  have dep: "lr_transaction_id deposit_row = tr_id win_row" by (simp add: deposit_row_def win_row_def)
  have old: "entries_of d2 (tr_id q) = entries_of d (tr_id q)" if "q \<in> set (db_transactions d)" for q
  proof -
    have "tr_id q \<noteq> tr_id win_row" using t(5) that by (metis imageI)
    then show ?thesis using t(3) l(2) dep by simp
  qed
  have c: "carried tx_later (db_transactions d) (db_transactions d2)"
    using t(2) l(1) by (auto simp: carried_def tx_later_def)
  have "entries_of d2 (tr_id win_row) = [deposit_row]" using t(3,4) l(2) dep by simp
  then have "well_booked d2 win_row"
    by (simp add: well_booked_def books_def moves_def win_row_def deposit_row_def)
  then show ?thesis
    using t(1,2) l(1,3) old c well_booked_carried [OF c old]
    by (auto simp: book_step_def d2)
qed

definition winning_lib :: lib where
  "winning_lib = sample_lib\<lparr>lib_others := (\<lambda>n d. if n = 7 then credit_win d else d),
     lib_fault := (\<lambda>n. if n = 30 then Some ''connection reset'' else None)\<rparr>"

lemma books_kept_winning_lib: "books_kept winning_lib"
  by (simp add: books_kept_def winning_lib_def book_step_credit_win book_step_refl)

text \<open>A wallet with its opening.\<close>

definition booked_world :: world where
  "booked_world = sample_world\<lparr>wd_db := sample_db\<lparr>db_ledger := [opening_row],
     db_transactions := [win_row\<lparr>tr_id := 50, tr_origin := ''INTERNAL'', tr_kind := ''OPENING'', tr_amount_minor := 10000\<rparr>]\<rparr>\<rparr>"

lemma booked_world: "booked (wd_db booked_world)" "wd_saves booked_world = []" "\<not> wd_aborted booked_world"
  by (simp_all add: booked_world_def sample_world_def booked_def keys_ok_def well_booked_def entries_of_def books_def
      moves_def win_row_def opening_row_def)

end
