(* ===== verification/Durations.thy ===== *)
theory Durations
  imports Go_Text
begin

section \<open>Durations as text and as seconds (package time)\<close>

text \<open>
  \<open>time.ParseDuration\<close>, with which the configuration is read, and \<open>Duration.Seconds\<close>, which the
  SQS adapter truncates to whole seconds. Both compute with float64, so rounding to 53 bits is
  modelled; all numbers that occur are far inside the range of normal floats. The lemmas show
  that whole numbers of a unit are parsed exactly.
\<close>

subsection \<open>Non-negative float64 values as fractions\<close>

fun bit_length :: "nat \<Rightarrow> nat" where
  "bit_length n = (if n = 0 then 0 else Suc (bit_length (n div 2)))"

declare bit_length.simps [simp del]

definition half_even :: "nat \<Rightarrow> nat \<Rightarrow> nat" where
  "half_even p q =
     (let m = p div q; r = p mod q in if q < 2 * r \<or> 2 * r = q \<and> odd m then Suc m else m)"

text \<open>The float nearest to p/q (ties to even), as a fraction.\<close>

definition round_double :: "nat \<Rightarrow> nat \<Rightarrow> nat \<times> nat" where
  "round_double p q =
     (if p = 0 then (0, 1)
      else
        let e0 = int (bit_length p) - int (bit_length q) - 53;
            e = (if p * 2 ^ nat (- e0) div (q * 2 ^ nat e0) < 2 ^ 53 then e0 else e0 + 1);
            m = half_even (p * 2 ^ nat (- e)) (q * 2 ^ nat e)
        in (m * 2 ^ nat e, 2 ^ nat (- e)))"

definition double_mult :: "nat \<times> nat \<Rightarrow> nat \<times> nat \<Rightarrow> nat \<times> nat" where
  "double_mult x y = round_double (fst x * fst y) (snd x * snd y)"

definition double_add :: "nat \<times> nat \<Rightarrow> nat \<times> nat \<Rightarrow> nat \<times> nat" where
  "double_add x y = round_double (fst x * snd y + fst y * snd x) (snd x * snd y)"

definition double_trunc :: "nat \<times> nat \<Rightarrow> nat" where
  "double_trunc x = fst x div snd x"

subsection \<open>ParseDuration\<close>

fun leadingInt :: "nat \<Rightarrow> string \<Rightarrow> (nat \<times> string) option" where
  "leadingInt x [] = Some (x, [])"
| "leadingInt x (c # s) =
     (if \<not> is_digit c then Some (x, c # s)
      else if 2 ^ 63 div 10 < x then None
      else if 2 ^ 63 < x * 10 + digit_val c then None
      else leadingInt (x * 10 + digit_val c) s)"

text \<open>The digits read, how many of them there are (the scale is that power of ten), the rest.\<close>

fun leadingFraction :: "nat \<Rightarrow> nat \<Rightarrow> bool \<Rightarrow> string \<Rightarrow> nat \<times> nat \<times> string" where
  "leadingFraction x k overflow [] = (x, k, [])"
| "leadingFraction x k overflow (c # s) =
     (if \<not> is_digit c then (x, k, c # s)
      else if overflow \<or> (2 ^ 63 - 1) div 10 < x \<or> 2 ^ 63 < x * 10 + digit_val c
      then leadingFraction x k True s
      else leadingFraction (x * 10 + digit_val c) (Suc k) False s)"

definition unitMap :: "(string \<times> nat) list" where
  "unitMap =
     [(''ns'', 1), (''us'', 1000), ([CHR 0xC2, CHR 0xB5, CHR ''s''], 1000),
      ([CHR 0xCE, CHR 0xBC, CHR ''s''], 1000), (''ms'', 1000000), (''s'', 1000000000),
      (''m'', 60000000000), (''h'', 3600000000000)]"

definition fraction_nanos :: "nat \<Rightarrow> nat \<Rightarrow> nat \<Rightarrow> nat" where
  "fraction_nanos f k unit = double_trunc (double_mult (round_double f 1) (round_double unit (10 ^ k)))"

text \<open>A number with its unit, in nanoseconds, and the rest of the text.\<close>

definition parse_component :: "string \<Rightarrow> (nat \<times> string) option" where
  "parse_component s =
     (if s = '''' \<or> \<not> (hd s = CHR ''.'' \<or> is_digit (hd s)) then None
      else case leadingInt 0 s of
        None \<Rightarrow> None
      | Some (v, s1) \<Rightarrow>
          (let (f, k, s2) = (if take 1 s1 = ''.'' then leadingFraction 0 0 False (drop 1 s1) else (0, 0, s1));
               pre = length s1 \<noteq> length s;
               post = take 1 s1 = ''.'' \<and> length s2 \<noteq> length (drop 1 s1);
               u = takeWhile (\<lambda>c. c \<noteq> CHR ''.'' \<and> \<not> is_digit c) s2
           in if \<not> pre \<and> \<not> post \<or> u = '''' then None
              else case map_of unitMap u of
                None \<Rightarrow> None
              | Some unit \<Rightarrow>
                  if 2 ^ 63 div unit < v then None
                  else if 0 < f \<and> 2 ^ 63 < v * unit + fraction_nanos f k unit then None
                  else Some (if 0 < f then v * unit + fraction_nanos f k unit else v * unit,
                         dropWhile (\<lambda>c. c \<noteq> CHR ''.'' \<and> \<not> is_digit c) s2)))"

lemma leadingInt_length: "leadingInt x s = Some (v, r) \<Longrightarrow> length r \<le> length s"
  by (induction x s rule: leadingInt.induct) (auto split: if_splits)

lemma leadingFraction_length: "leadingFraction x k b s = (f, k', r) \<Longrightarrow> length r \<le> length s"
  by (induction x k b s rule: leadingFraction.induct) (auto split: if_splits)

lemma parse_component_length: "parse_component s = Some (v, r) \<Longrightarrow> length r < length s"
proof -
  assume p: "parse_component s = Some (v, r)"
  then obtain v0 s1 where l: "leadingInt 0 s = Some (v0, s1)"
    by (auto simp: parse_component_def split: if_splits option.splits)
  obtain f k s2 where f: "(if take 1 s1 = ''.'' then leadingFraction 0 0 False (drop 1 s1) else (0, 0, s1)) = (f, k, s2)"
    by (cases "if take 1 s1 = ''.'' then leadingFraction 0 0 False (drop 1 s1) else (0, 0, s1)")
  let ?P = "\<lambda>c. c \<noteq> CHR ''.'' \<and> \<not> is_digit c"
  have u: "takeWhile ?P s2 \<noteq> ''''" and r: "r = dropWhile ?P s2"
    using p l f by (auto simp: parse_component_def Let_def split: if_splits option.splits)
  have "length s2 \<le> length s1"
    using f leadingFraction_length [of 0 0 False "drop 1 s1" f k s2] by (auto split: if_splits)
  moreover have "length s1 \<le> length s" by (rule leadingInt_length [OF l])
  moreover have "length r < length s2"
  proof -
    have "length (takeWhile ?P s2) + length (dropWhile ?P s2) = length s2"
      by (metis length_append takeWhile_dropWhile_id)
    moreover have "0 < length (takeWhile ?P s2)" using u by simp
    ultimately show ?thesis unfolding r by linarith
  qed
  ultimately show ?thesis by linarith
qed

text \<open>The sum \<open>d\<close> is a uint64.\<close>

function parse_components :: "nat \<Rightarrow> string \<Rightarrow> nat option" where
  "parse_components d s =
     (if s = '''' then Some d
      else case parse_component s of
        None \<Rightarrow> None
      | Some (v, r) \<Rightarrow>
          if 2 ^ 63 < (d + v) mod 2 ^ 64 then None else parse_components ((d + v) mod 2 ^ 64) r)"
  by pat_completeness auto
termination
  by (relation "measure (\<lambda>(d, s). length s)") (auto dest: parse_component_length)

declare parse_components.simps [simp del]

definition ParseDuration :: "string \<Rightarrow> duration option" where
  "ParseDuration orig =
     (let neg = take 1 orig = ''-'';
          s = (if neg \<or> take 1 orig = ''+'' then drop 1 orig else orig)
      in if s = ''0'' then Some 0
         else if s = '''' then None
         else case parse_components 0 s of
           None \<Rightarrow> None
         | Some d \<Rightarrow>
             if neg then Some (- of_nat d)
             else if 2 ^ 63 - 1 < d then None
             else Some (of_nat d))"

subsection \<open>Seconds\<close>

text \<open>\<open>int(d.Seconds())\<close>: the whole and the fractional seconds are added as floats.\<close>

definition whole_seconds :: "duration \<Rightarrow> int" where
  "whole_seconds d =
     (let a = nat \<bar>sint d\<bar>;
          t = double_trunc (double_add (round_double (a div 1000000000) 1)
                (round_double (a mod 1000000000) 1000000000))
      in if sint d < 0 then - int t else int t)"

subsection \<open>Whole numbers\<close>

lemma digits_value_append: "digits_value (s @ t) = foldl (\<lambda>v c. 10 * v + digit_val c) (digits_value s) t"
  by (simp add: digits_value_def)

lemma leadingInt_digits:
  "list_all is_digit ds \<Longrightarrow> r = '''' \<or> \<not> is_digit (hd r) \<Longrightarrow>
   foldl (\<lambda>v c. 10 * v + digit_val c) x ds \<le> 2 ^ 63 \<Longrightarrow>
   leadingInt x (ds @ r) = Some (foldl (\<lambda>v c. 10 * v + digit_val c) x ds, r)"
proof (induction ds arbitrary: x)
  case Nil
  then show ?case by (cases r) auto
next
  case (Cons c ds)
  let ?f = "\<lambda>v c. 10 * v + digit_val c"
  have mono: "y \<le> foldl ?f y cs" for y cs
  proof (induction cs arbitrary: y)
    case (Cons a cs)
    have "y \<le> ?f y a" by simp
    also have "\<dots> \<le> foldl ?f (?f y a) cs" by (rule Cons)
    finally show ?case by simp
  qed simp
  have "?f x c \<le> 2 ^ 63" using mono [of "?f x c" ds] Cons.prems(3) by simp
  then show ?case using Cons by (simp add: mult.commute)
qed

lemma ParseDuration_whole:
  assumes "(u, unit) \<in> set unitMap" and "n * unit < 2 ^ 63"
  shows "ParseDuration (nat_str n @ u) = Some (of_nat (n * unit))"
proof -
  have u: "map_of unitMap u = Some unit" "u \<noteq> ''''" "\<forall>c \<in> set u. c \<noteq> CHR ''.'' \<and> \<not> is_digit c" "0 < unit" "take 1 u \<noteq> ''.''"
    using assms(1) by (auto simp: unitMap_def is_digit_def)
  let ?P = "\<lambda>c. c \<noteq> CHR ''.'' \<and> \<not> is_digit c"
  have "n \<le> n * unit" using u(4) by simp
  then have n: "n \<le> 2 ^ 63" using assms(2) by linarith
  have l: "leadingInt 0 (nat_str n @ u) = Some (n, u)"
    using leadingInt_digits [of "nat_str n" u 0] u(2,3) n digits_value_nat_str [of n]
    by (cases u) (simp_all add: digits_value_def)
  have w: "takeWhile ?P u = u" "dropWhile ?P u = ''''" using u(3) by simp_all
  have h: "nat_str n @ u \<noteq> ''''" "is_digit (hd (nat_str n @ u))"
    using nat_str_digits [of n] by (simp_all add: list_all_iff)
  have b: "n \<le> 2 ^ 63 div unit" using assms(2) u(4) by (simp add: less_eq_div_iff_mult_less_eq)
  have "parse_component (nat_str n @ u) = Some (n * unit, '''')"
    using h l u w b by (simp add: parse_component_def Let_def del: takeWhile_eq_all_conv dropWhile_eq_Nil_conv)
  then have c: "parse_components 0 (nat_str n @ u) = Some (n * unit)"
    using h assms(2) by (simp add: parse_components.simps)
  have "take 1 (nat_str n @ u) \<noteq> ''-''" "take 1 (nat_str n @ u) \<noteq> ''+''" "nat_str n @ u \<noteq> ''0''"
    using h u(2) by (auto simp: is_digit_def take_Suc append_eq_Cons_conv split: if_splits)
  then show ?thesis using c h(1) assms(2) by (simp add: ParseDuration_def Let_def)
qed

end
