(* ===== verification/Configuration.thy ===== *)
theory Configuration
  imports Durations Apperr
begin

section \<open>Configuration from the environment (internal/config/config.go)\<close>

text \<open>
  The runtime configuration, read from environment variables with defaults and then validated.
  The environment is a function to the value of a variable, the host name and the process
  number are the operating system's. The lemmas say what a variable's value means to each of the
  getters.
\<close>

type_synonym environment = "string \<Rightarrow> string option"

record HTTPConfig =
  hc_Addr :: string
  hc_ReadTimeout :: duration
  hc_WriteTimeout :: duration
  hc_ShutdownTimeout :: duration

record DatabaseConfig =
  dc_URL :: string
  dc_MaxConns :: "32 word"
  dc_MinConns :: "32 word"
  dc_ConnectTimeout :: duration

record SQSConfig =
  qc_Region :: string
  qc_Endpoint :: string
  qc_AccessKeyID :: string
  qc_SecretAccessKey :: string
  qc_QueueName :: string
  qc_DLQName :: string
  qc_OutboxQueueName :: string
  qc_OutboxDLQName :: string
  qc_VisibilityTimeout :: duration
  qc_WaitTime :: duration
  qc_MaxMessages :: "32 word"
  qc_MaxReceiveCount :: "32 word"

record OIDCConfig =
  ic_IssuerURL :: string
  ic_Audience :: string
  ic_RolesClaim :: string
  ic_ProviderClaim :: string
  ic_HTTPTimeout :: duration

record WorkerConfig =
  wc_PollInterval :: duration
  wc_ReferenceMaxAttempts :: int64
  wc_ReferenceBaseBackoff :: duration
  wc_ReferenceMaxBackoff :: duration
  wc_ReferenceBatchSize :: int64
  wc_OutboxPollInterval :: duration
  wc_OutboxBatchSize :: int64
  wc_OutboxMaxAttempts :: int64
  wc_OutboxBaseBackoff :: duration
  wc_OutboxMaxBackoff :: duration
  wc_OutboxLockTTL :: duration
  wc_PublisherID :: string

record app_config =
  ac_Env :: string
  ac_LogLevel :: string
  ac_HTTP :: HTTPConfig
  ac_Database :: DatabaseConfig
  ac_SQS :: SQSConfig
  ac_OIDC :: OIDCConfig
  ac_Workers :: WorkerConfig
  ac_MigrationsEnabled :: bool

subsection \<open>Getters\<close>

definition getString :: "environment \<Rightarrow> string \<Rightarrow> string \<Rightarrow> string" where
  "getString env key def =
     (case env key of Some v \<Rightarrow> if TrimSpace v \<noteq> '''' then TrimSpace v else def | None \<Rightarrow> def)"

text \<open>The common shape of the other getters: a missing, blank or malformed value is the default.\<close>

definition get_parsed :: "(string \<Rightarrow> 'a option) \<Rightarrow> environment \<Rightarrow> string \<Rightarrow> 'a \<Rightarrow> 'a" where
  "get_parsed parse env key def =
     (case env key of
        None \<Rightarrow> def
      | Some raw \<Rightarrow>
          if TrimSpace raw = '''' then def
          else case parse (TrimSpace raw) of None \<Rightarrow> def | Some v \<Rightarrow> v)"

definition getInt :: "environment \<Rightarrow> string \<Rightarrow> int64 \<Rightarrow> int64" where
  "getInt = get_parsed (\<lambda>s. map_option word_of_int (Atoi s))"

definition getBool :: "environment \<Rightarrow> string \<Rightarrow> bool \<Rightarrow> bool" where
  "getBool = get_parsed ParseBool"

definition getDuration :: "environment \<Rightarrow> string \<Rightarrow> duration \<Rightarrow> duration" where
  "getDuration = get_parsed ParseDuration"

text \<open>\<open>int32(n)\<close> keeps the low 32 bits.\<close>

definition int32 :: "int64 \<Rightarrow> 32 word" where
  "int32 n = ucast n"

abbreviation Second :: duration where "Second \<equiv> 1000000000"

definition defaultPublisherID :: "string option \<Rightarrow> nat \<Rightarrow> string" where
  "defaultPublisherID hostname pid =
     (case hostname of
        Some host \<Rightarrow>
          if host = '''' then ''publisher-unknown'' else ''publisher-'' @ host @ ''-'' @ nat_str pid
      | None \<Rightarrow> ''publisher-unknown'')"

subsection \<open>Loading\<close>

definition read_http :: "environment \<Rightarrow> HTTPConfig" where
  "read_http env =
     \<lparr>hc_Addr = getString env ''HTTP_ADDR'' '':8080'',
      hc_ReadTimeout = getDuration env ''HTTP_READ_TIMEOUT'' (10 * Second),
      hc_WriteTimeout = getDuration env ''HTTP_WRITE_TIMEOUT'' (30 * Second),
      hc_ShutdownTimeout = getDuration env ''HTTP_SHUTDOWN_TIMEOUT'' (25 * Second)\<rparr>"

definition read_database :: "environment \<Rightarrow> DatabaseConfig" where
  "read_database env =
     \<lparr>dc_URL = getString env ''DATABASE_URL'' '''',
      dc_MaxConns = int32 (getInt env ''DB_MAX_CONNS'' 20),
      dc_MinConns = int32 (getInt env ''DB_MIN_CONNS'' 2),
      dc_ConnectTimeout = getDuration env ''DB_CONNECT_TIMEOUT'' (5 * Second)\<rparr>"

definition read_sqs :: "environment \<Rightarrow> SQSConfig" where
  "read_sqs env =
     \<lparr>qc_Region = getString env ''AWS_REGION'' ''us-east-1'',
      qc_Endpoint = getString env ''SQS_ENDPOINT'' '''',
      qc_AccessKeyID = getString env ''AWS_ACCESS_KEY_ID'' '''',
      qc_SecretAccessKey = getString env ''AWS_SECRET_ACCESS_KEY'' '''',
      qc_QueueName = getString env ''SQS_QUEUE_NAME'' ''wager-transactions.fifo'',
      qc_DLQName = getString env ''SQS_DLQ_NAME'' ''wager-transactions-dlq.fifo'',
      qc_OutboxQueueName = getString env ''SQS_OUTBOX_QUEUE_NAME'' ''wager-events.fifo'',
      qc_OutboxDLQName = getString env ''SQS_OUTBOX_DLQ_NAME'' ''wager-events-dlq.fifo'',
      qc_VisibilityTimeout = getDuration env ''SQS_VISIBILITY_TIMEOUT'' (30 * Second),
      qc_WaitTime = getDuration env ''SQS_WAIT_TIME'' (20 * Second),
      qc_MaxMessages = int32 (getInt env ''SQS_MAX_MESSAGES'' 10),
      qc_MaxReceiveCount = int32 (getInt env ''SQS_MAX_RECEIVE_COUNT'' 5)\<rparr>"

definition read_oidc :: "environment \<Rightarrow> OIDCConfig" where
  "read_oidc env =
     \<lparr>ic_IssuerURL = getString env ''OIDC_ISSUER_URL'' '''',
      ic_Audience = getString env ''OIDC_AUDIENCE'' '''',
      ic_RolesClaim = getString env ''OIDC_ROLES_CLAIM'' ''realm_access.roles'',
      ic_ProviderClaim = getString env ''OIDC_PROVIDER_CLAIM'' ''provider_id'',
      ic_HTTPTimeout = getDuration env ''OIDC_HTTP_TIMEOUT'' (10 * Second)\<rparr>"

definition read_workers :: "environment \<Rightarrow> string option \<Rightarrow> nat \<Rightarrow> WorkerConfig" where
  "read_workers env hostname pid =
     \<lparr>wc_PollInterval = getDuration env ''WORKER_POLL_INTERVAL'' Second,
      wc_ReferenceMaxAttempts = getInt env ''REFERENCE_MAX_ATTEMPTS'' 10,
      wc_ReferenceBaseBackoff = getDuration env ''REFERENCE_BASE_BACKOFF'' (2 * Second),
      wc_ReferenceMaxBackoff = getDuration env ''REFERENCE_MAX_BACKOFF'' (5 * 60 * Second),
      wc_ReferenceBatchSize = getInt env ''REFERENCE_BATCH_SIZE'' 20,
      wc_OutboxPollInterval = getDuration env ''OUTBOX_POLL_INTERVAL'' Second,
      wc_OutboxBatchSize = getInt env ''OUTBOX_BATCH_SIZE'' 20,
      wc_OutboxMaxAttempts = getInt env ''OUTBOX_MAX_ATTEMPTS'' 10,
      wc_OutboxBaseBackoff = getDuration env ''OUTBOX_BASE_BACKOFF'' (2 * Second),
      wc_OutboxMaxBackoff = getDuration env ''OUTBOX_MAX_BACKOFF'' (5 * 60 * Second),
      wc_OutboxLockTTL = getDuration env ''OUTBOX_LOCK_TTL'' (30 * Second),
      wc_PublisherID = getString env ''PUBLISHER_ID'' (defaultPublisherID hostname pid)\<rparr>"

definition read_config :: "environment \<Rightarrow> string option \<Rightarrow> nat \<Rightarrow> app_config" where
  "read_config env hostname pid =
     \<lparr>ac_Env = getString env ''APP_ENV'' ''development'',
      ac_LogLevel = getString env ''LOG_LEVEL'' ''info'',
      ac_HTTP = read_http env, ac_Database = read_database env, ac_SQS = read_sqs env,
      ac_OIDC = read_oidc env, ac_Workers = read_workers env hostname pid,
      ac_MigrationsEnabled = getBool env ''MIGRATIONS_ENABLED'' True\<rparr>"

definition config_validate :: "app_config \<Rightarrow> unit result" where
  "config_validate c =
     (if dc_URL (ac_Database c) = '''' then Inl (LibError ''config: DATABASE_URL is required'')
      else if ic_IssuerURL (ac_OIDC c) = '''' then Inl (LibError ''config: OIDC_ISSUER_URL is required'')
      else if ic_Audience (ac_OIDC c) = '''' then Inl (LibError ''config: OIDC_AUDIENCE is required'')
      else if \<not> HasSuffix (qc_QueueName (ac_SQS c)) ''.fifo'' \<or> \<not> HasSuffix (qc_DLQName (ac_SQS c)) ''.fifo''
      then Inl (LibError ''config: SQS_QUEUE_NAME and SQS_DLQ_NAME must end with .fifo'')
      else if \<not> HasSuffix (qc_OutboxQueueName (ac_SQS c)) ''.fifo'' \<or> \<not> HasSuffix (qc_OutboxDLQName (ac_SQS c)) ''.fifo''
      then Inl (LibError ''config: SQS_OUTBOX_QUEUE_NAME and SQS_OUTBOX_DLQ_NAME must end with .fifo'')
      else if sint (dc_MaxConns (ac_Database c)) < 1 \<or> sint (dc_MinConns (ac_Database c)) < 0 \<or>
          sint (dc_MaxConns (ac_Database c)) < sint (dc_MinConns (ac_Database c))
      then Inl (LibError ''config: invalid database connection bounds'')
      else if sint (wc_ReferenceMaxAttempts (ac_Workers c)) < 1 \<or> sint (wc_OutboxMaxAttempts (ac_Workers c)) < 1
      then Inl (LibError ''config: worker max attempts must be >= 1'')
      else if sint (wc_ReferenceBatchSize (ac_Workers c)) < 1 \<or> sint (wc_OutboxBatchSize (ac_Workers c)) < 1
      then Inl (LibError ''config: worker batch sizes must be >= 1'')
      else Inr ())"

definition config_Load :: "environment \<Rightarrow> string option \<Rightarrow> nat \<Rightarrow> app_config result" where
  "config_Load env hostname pid =
     (let cfg = read_config env hostname pid in
      and_then (config_validate cfg) (\<lambda>_. Inr cfg))"

definition IsProduction :: "app_config \<Rightarrow> bool" where
  "IsProduction c \<longleftrightarrow> ac_Env c = ''production''"

subsection \<open>Lemmas\<close>

lemma get_parsed_eq:
  "get_parsed parse env key def =
     (case Option.bind (env key) (\<lambda>raw. if TrimSpace raw = '''' then None else parse (TrimSpace raw)) of
        None \<Rightarrow> def | Some v \<Rightarrow> v)"
  by (simp add: get_parsed_def split: option.split)

lemma config_validate_ok:
  "config_validate c = Inr () \<longleftrightarrow>
     dc_URL (ac_Database c) \<noteq> '''' \<and> ic_IssuerURL (ac_OIDC c) \<noteq> '''' \<and> ic_Audience (ac_OIDC c) \<noteq> '''' \<and>
     (\<forall>q \<in> {qc_QueueName, qc_DLQName, qc_OutboxQueueName, qc_OutboxDLQName}. HasSuffix (q (ac_SQS c)) ''.fifo'') \<and>
     0 \<le> sint (dc_MinConns (ac_Database c)) \<and> 1 \<le> sint (dc_MaxConns (ac_Database c)) \<and>
     sint (dc_MinConns (ac_Database c)) \<le> sint (dc_MaxConns (ac_Database c)) \<and>
     (\<forall>n \<in> {wc_ReferenceMaxAttempts, wc_OutboxMaxAttempts, wc_ReferenceBatchSize, wc_OutboxBatchSize}.
        1 \<le> sint (n (ac_Workers c)))"
  by (auto simp: config_validate_def not_less)

lemma config_Load_ok:
  "config_Load env hostname pid = Inr c \<longleftrightarrow> c = read_config env hostname pid \<and> config_validate c = Inr ()"
  by (auto simp: config_Load_def Let_def and_then_Inr_iff)

text \<open>Durations given as whole numbers of a unit are read exactly.\<close>

lemma getDuration_whole:
  assumes "env key = Some raw" and "TrimSpace raw = nat_str n @ u" and "(u, unit) \<in> set unitMap" and "n * unit < 2 ^ 63"
  shows "getDuration env key def = of_nat (n * unit)"
  using assms ParseDuration_whole [OF assms(3,4)] by (simp add: getDuration_def get_parsed_def)

end
