(* ===== verification/Sqs_Queues.thy ===== *)
theory Sqs_Queues
  imports Sqs_Client Configuration
begin

section \<open>Provisioning the queues (internal/adapters/sqs/client.go)\<close>

text \<open>
  The four FIFO queues and their redrive policies, as the requests the client makes and what it
  keeps of the answers. The SDK's answers are a parameter: to each request, after the requests
  made so far. A pointer to a string is an option. The retries while the broker starts are in
  \<open>Startup\<close>.
\<close>

datatype queue_request =
    CreateQueue string "(string \<times> string) list"
  | GetQueueUrl string
  | GetQueueAttributes string

text \<open>The answers: a queue URL, or the attributes asked for.\<close>

datatype queue_answer =
    QueueUrl "string option"
  | QueueAttributes "string \<Rightarrow> string option"

type_synonym queue_api = "queue_request list \<Rightarrow> queue_request \<Rightarrow> queue_answer result"

type_synonym 'a provisioning = "queue_request list \<Rightarrow> 'a result \<times> queue_request list"

definition pbind :: "'a provisioning \<Rightarrow> ('a \<Rightarrow> 'b provisioning) \<Rightarrow> 'b provisioning" where
  "pbind m k rs = (case m rs of (Inl e, rs') \<Rightarrow> (Inl e, rs') | (Inr v, rs') \<Rightarrow> k v rs')"

definition request :: "queue_api \<Rightarrow> queue_request \<Rightarrow> queue_answer provisioning" where
  "request api r rs = (api rs r, rs @ [r])"

definition preturn :: "'a \<Rightarrow> 'a provisioning" where
  "preturn v rs = (Inr v, rs)"

definition pwrap :: "(goerror \<Rightarrow> goerror) \<Rightarrow> 'a provisioning \<Rightarrow> 'a provisioning" where
  "pwrap f m rs = (case m rs of (Inl e, rs') \<Rightarrow> (Inl (f e), rs') | (Inr v, rs') \<Rightarrow> (Inr v, rs'))"

text \<open>\<open>aws.ToString\<close>: a missing answer is the empty string.\<close>

definition url_of :: "queue_answer \<Rightarrow> string" where
  "url_of a = (case a of QueueUrl (Some u) \<Rightarrow> u | _ \<Rightarrow> '''')"

definition arn_of :: "queue_answer \<Rightarrow> string" where
  "arn_of a = (case a of QueueAttributes f \<Rightarrow> (case f ''QueueArn'' of Some s \<Rightarrow> s | None \<Rightarrow> '''') | _ \<Rightarrow> '''')"

record queueInfo =
  qi_url :: string
  qi_arn :: string

definition queue_info :: "queue_api \<Rightarrow> string \<Rightarrow> queueInfo provisioning" where
  "queue_info api url =
     pbind (pwrap (WrapError ''sqs: get queue attributes'') (request api (GetQueueAttributes url)))
       (\<lambda>a. preturn \<lparr>qi_url = url, qi_arn = arn_of a\<rparr>)"

definition queueURL :: "queue_api \<Rightarrow> string \<Rightarrow> string provisioning" where
  "queueURL api nm = pbind (request api (GetQueueUrl nm)) (\<lambda>a. preturn (url_of a))"

text \<open>The redrive policy; \<open>json.Marshal\<close> writes the keys of a map in order.\<close>

definition redrivePolicy :: "SQSConfig \<Rightarrow> string \<Rightarrow> (string \<times> string) list" where
  "redrivePolicy cfg dlqARN =
     [(''deadLetterTargetArn'', dlqARN), (''maxReceiveCount'', int_str (sint (qc_MaxReceiveCount cfg)))]"

definition queue_attributes :: "SQSConfig \<Rightarrow> (string \<times> string) list option \<Rightarrow> (string \<times> string) list" where
  "queue_attributes cfg redrive =
     [(''FifoQueue'', ''true''),
      (''VisibilityTimeout'', int_str (whole_seconds (qc_VisibilityTimeout cfg))),
      (''MessageRetentionPeriod'', ''1209600''),
      (''ReceiveMessageWaitTimeSeconds'', int_str (whole_seconds (qc_WaitTime cfg)))] @
     (case redrive of
        None \<Rightarrow> []
      | Some policy \<Rightarrow> [(''RedrivePolicy'', json_object (map (\<lambda>(k, v). (k, json_string v)) policy))])"

text \<open>When the queue cannot be created another instance may have created it.\<close>

definition ensureQueue ::
  "queue_api \<Rightarrow> SQSConfig \<Rightarrow> string \<Rightarrow> (string \<times> string) list option \<Rightarrow> queueInfo provisioning" where
  "ensureQueue api cfg nm redrive rs =
     (case request api (CreateQueue nm (queue_attributes cfg redrive)) rs of
        (Inr out, rs') \<Rightarrow> queue_info api (url_of out) rs'
      | (Inl err, rs') \<Rightarrow>
          (case queueURL api nm rs' of
             (Inl _, rs'') \<Rightarrow> (Inl (WrapError ''sqs: create queue'' err), rs'')
           | (Inr url, rs'') \<Rightarrow> queue_info api url rs''))"

definition EnsureQueues :: "queue_api \<Rightarrow> SQSConfig \<Rightarrow> sqs_client provisioning" where
  "EnsureQueues api cfg =
     pbind (ensureQueue api cfg (qc_DLQName cfg) None) (\<lambda>transactionsDLQ.
     pbind (ensureQueue api cfg (qc_OutboxDLQName cfg) None) (\<lambda>eventsDLQ.
     pbind (ensureQueue api cfg (qc_QueueName cfg) (Some (redrivePolicy cfg (qi_arn transactionsDLQ)))) (\<lambda>transactions.
     pbind (ensureQueue api cfg (qc_OutboxQueueName cfg) (Some (redrivePolicy cfg (qi_arn eventsDLQ)))) (\<lambda>events.
     preturn \<lparr>cl_transactionsQueueURL = qi_url transactions, cl_transactionsDLQURL = qi_url transactionsDLQ,
       cl_eventsQueueURL = qi_url events, cl_eventsDLQURL = qi_url eventsDLQ,
       cl_DLQName = qc_DLQName cfg\<rparr>))))"

definition sqs_Ping :: "queue_api \<Rightarrow> sqs_client \<Rightarrow> unit provisioning" where
  "sqs_Ping api c =
     pbind (pwrap (WrapError ''sqs: ping'') (request api (GetQueueAttributes (cl_transactionsQueueURL c))))
       (\<lambda>_. preturn ())"

text \<open>The request of a poll; \<open>int32\<close> of a float keeps whole seconds that fit.\<close>

record receive_request =
  rq_QueueUrl :: string
  rq_MaxNumberOfMessages :: "32 word"
  rq_WaitTimeSeconds :: "32 word"
  rq_VisibilityTimeout :: "32 word"

definition receive_input :: "sqs_client \<Rightarrow> SQSConfig \<Rightarrow> receive_request" where
  "receive_input c cfg =
     \<lparr>rq_QueueUrl = cl_transactionsQueueURL c, rq_MaxNumberOfMessages = qc_MaxMessages cfg,
      rq_WaitTimeSeconds = word_of_int (whole_seconds (qc_WaitTime cfg)),
      rq_VisibilityTimeout = word_of_int (whole_seconds (qc_VisibilityTimeout cfg))\<rparr>"

subsection \<open>What is provisioned\<close>

definition is_create :: "queue_request \<Rightarrow> bool" where
  "is_create r = (case r of CreateQueue _ _ \<Rightarrow> True | _ \<Rightarrow> False)"

text \<open>A request was made in a run, and answered so.\<close>

definition answered :: "queue_api \<Rightarrow> queue_request list \<Rightarrow> queue_request \<Rightarrow> queue_answer \<Rightarrow> bool" where
  "answered api rs r a \<longleftrightarrow> (\<exists>before after. rs = before @ r # after \<and> api before r = Inr a)"

text \<open>In a run the broker has given this ARN to the queue at a URL, and this URL to the queue of a name.\<close>

definition has_arn :: "queue_api \<Rightarrow> queue_request list \<Rightarrow> string \<Rightarrow> string \<Rightarrow> bool" where
  "has_arn api rs url arn \<longleftrightarrow> (\<exists>a. answered api rs (GetQueueAttributes url) a \<and> arn_of a = arn)"

definition has_url :: "queue_api \<Rightarrow> queue_request list \<Rightarrow> string \<Rightarrow> string \<Rightarrow> bool" where
  "has_url api rs nm url \<longleftrightarrow>
     (\<exists>r a. (r = GetQueueUrl nm \<or> (\<exists>attributes. r = CreateQueue nm attributes)) \<and> answered api rs r a \<and> url_of a = url)"

lemma answered_later: "answered api rs r a \<Longrightarrow> answered api (rs @ rest) r a"
  unfolding answered_def by (metis append.assoc append_Cons)

lemma answered_now: "api rs r = Inr a \<Longrightarrow> answered api (rs @ [r]) r a"
  unfolding answered_def by blast

lemma has_later:
  "has_arn api rs url arn \<Longrightarrow> has_arn api (rs @ rest) url arn"
  "has_url api rs nm url \<Longrightarrow> has_url api (rs @ rest) nm url"
  unfolding has_arn_def has_url_def by (blast intro: answered_later)+

lemma pbind_Inr: "pbind m k rs = (Inr v, rs') \<longleftrightarrow> (\<exists>u rs1. m rs = (Inr u, rs1) \<and> k u rs1 = (Inr v, rs'))"
  by (auto simp: pbind_def split: prod.splits sum.splits)

lemma queue_info_Inr:
  "queue_info api url rs = (Inr i, rs') \<Longrightarrow>
     rs' = rs @ [GetQueueAttributes url] \<and> qi_url i = url \<and> has_arn api rs' url (qi_arn i)"
  by (auto simp: queue_info_def pbind_Inr pwrap_def request_def preturn_def has_arn_def split: sum.splits
      intro!: answered_now)

text \<open>What ensuring a queue has done: one request to create it, and the answers that are kept.\<close>

lemma ensureQueue_Inr:
  assumes "ensureQueue api cfg nm redrive rs = (Inr i, rs')"
  shows "\<exists>rest. rs' = rs @ rest \<and> filter is_create rest = [CreateQueue nm (queue_attributes cfg redrive)] \<and>
    has_url api rs' nm (qi_url i) \<and> has_arn api rs' (qi_url i) (qi_arn i)"
proof (cases "request api (CreateQueue nm (queue_attributes cfg redrive)) rs")
  case (Pair r rs1)
  let ?create = "CreateQueue nm (queue_attributes cfg redrive)"
  have rs1: "rs1 = rs @ [?create]" "r = api rs ?create" using Pair by (auto simp: request_def)
  show ?thesis
  proof (cases r)
    case (Inr out)
    then have "queue_info api (url_of out) rs1 = (Inr i, rs')" using assms Pair by (simp add: ensureQueue_def)
    note i = queue_info_Inr [OF this]
    have "has_url api rs1 nm (url_of out)"
      using rs1 Inr answered_now [of api rs ?create out] unfolding has_url_def by auto
    then show ?thesis
      using i rs1 has_later(2) [of api rs1 nm "qi_url i"]
      by (intro exI [of _ "[?create, GetQueueAttributes (url_of out)]"]) (auto simp: is_create_def)
  next
    case (Inl err)
    then obtain url rs2 where q: "queueURL api nm rs1 = (Inr url, rs2)" "queue_info api url rs2 = (Inr i, rs')"
      using assms Pair by (auto simp: ensureQueue_def split: prod.splits sum.splits)
    note i = queue_info_Inr [OF q(2)]
    have "rs2 = rs1 @ [GetQueueUrl nm]" "has_url api rs2 nm url"
      using q(1) answered_now [of api rs1 "GetQueueUrl nm"]
      by (auto simp: queueURL_def pbind_Inr request_def preturn_def has_url_def)
    then show ?thesis
      using i rs1 has_later(2) [of api rs2 nm url]
      by (intro exI [of _ "[?create, GetQueueUrl nm, GetQueueAttributes url]"]) (auto simp: is_create_def)
  qed
qed

text \<open>
  (C35) Failed messages end where the service looks for them. When the queues are ready, exactly four
  were requested, the dead letter queues before the queues that use them: each is first-in first-out
  with the configured visibility timeout and waiting time and keeps its messages for 1209600 seconds (14 days), and the
  two main queues have a redrive policy with the configured number of receives, whose target is the
  ARN that the broker gave in this run to the dead letter queue at the URL that the client keeps. The
  URLs that the client keeps, of the main queues and of the dead letter queues, are those the broker
  gave for the configured names.
\<close>

theorem EnsureQueues_redrive:
  assumes "EnsureQueues api cfg [] = (Inr c, rs)"
  shows "has_url api rs (qc_QueueName cfg) (cl_transactionsQueueURL c) \<and>
    has_url api rs (qc_OutboxQueueName cfg) (cl_eventsQueueURL c) \<and>
    has_url api rs (qc_DLQName cfg) (cl_transactionsDLQURL c) \<and>
    has_url api rs (qc_OutboxDLQName cfg) (cl_eventsDLQURL c) \<and> cl_DLQName c = qc_DLQName cfg \<and>
    (\<exists>transactionsARN eventsARN attributes policy.
      has_arn api rs (cl_transactionsDLQURL c) transactionsARN \<and> has_arn api rs (cl_eventsDLQURL c) eventsARN \<and>
      attributes =
        [(''FifoQueue'', ''true''),
         (''VisibilityTimeout'', int_str (whole_seconds (qc_VisibilityTimeout cfg))),
         (''MessageRetentionPeriod'', ''1209600''),
         (''ReceiveMessageWaitTimeSeconds'', int_str (whole_seconds (qc_WaitTime cfg)))] \<and>
      policy = (\<lambda>arn. (''RedrivePolicy'', ''{\"deadLetterTargetArn\":'' @ json_string arn @
        '',\"maxReceiveCount\":'' @ json_string (int_str (sint (qc_MaxReceiveCount cfg))) @ ''}'')) \<and>
      filter is_create rs =
        [CreateQueue (qc_DLQName cfg) attributes, CreateQueue (qc_OutboxDLQName cfg) attributes,
         CreateQueue (qc_QueueName cfg) (attributes @ [policy transactionsARN]),
         CreateQueue (qc_OutboxQueueName cfg) (attributes @ [policy eventsARN])])"
proof -
  obtain q1 q2 q3 q4 r1 r2 r3 where
    1: "ensureQueue api cfg (qc_DLQName cfg) None [] = (Inr q1, r1)" and
    2: "ensureQueue api cfg (qc_OutboxDLQName cfg) None r1 = (Inr q2, r2)" and
    3: "ensureQueue api cfg (qc_QueueName cfg) (Some (redrivePolicy cfg (qi_arn q1))) r2 = (Inr q3, r3)" and
    4: "ensureQueue api cfg (qc_OutboxQueueName cfg) (Some (redrivePolicy cfg (qi_arn q2))) r3 = (Inr q4, rs)" and
    c: "c = \<lparr>cl_transactionsQueueURL = qi_url q3, cl_transactionsDLQURL = qi_url q1,
      cl_eventsQueueURL = qi_url q4, cl_eventsDLQURL = qi_url q2, cl_DLQName = qc_DLQName cfg\<rparr>"
    using assms by (auto simp: EnsureQueues_def pbind_Inr preturn_def)
  note parts = ensureQueue_Inr [OF 1] ensureQueue_Inr [OF 2] ensureQueue_Inr [OF 3] ensureQueue_Inr [OF 4]
  have kept: "has_url api rs (qc_DLQName cfg) (qi_url q1) \<and> has_url api rs (qc_OutboxDLQName cfg) (qi_url q2) \<and>
    has_url api rs (qc_QueueName cfg) (qi_url q3) \<and> has_url api rs (qc_OutboxQueueName cfg) (qi_url q4) \<and>
    has_arn api rs (qi_url q1) (qi_arn q1) \<and> has_arn api rs (qi_url q2) (qi_arn q2)"
  proof -
    obtain b d e where later: "r2 = r1 @ b" "r3 = r2 @ d" "rs = r3 @ e" using parts by blast
    then have "rs = r1 @ b @ d @ e" "rs = r2 @ d @ e" by simp_all
    then show ?thesis
      using parts later(3) has_later(1) [of api r1 _ _ "b @ d @ e"] has_later(2) [of api r1 _ _ "b @ d @ e"]
        has_later(1) [of api r2 _ _ "d @ e"] has_later(2) [of api r2 _ _ "d @ e"] has_later(2) [of api r3 _ _ e]
      by metis
  qed
  have created: "filter is_create rs =
      [CreateQueue (qc_DLQName cfg) (queue_attributes cfg None),
       CreateQueue (qc_OutboxDLQName cfg) (queue_attributes cfg None),
       CreateQueue (qc_QueueName cfg) (queue_attributes cfg (Some (redrivePolicy cfg (qi_arn q1)))),
       CreateQueue (qc_OutboxQueueName cfg) (queue_attributes cfg (Some (redrivePolicy cfg (qi_arn q2))))]"
  proof -
    obtain a b d e where "r1 = [] @ a" "r2 = r1 @ b" "r3 = r2 @ d" "rs = r3 @ e"
      "filter is_create a = [CreateQueue (qc_DLQName cfg) (queue_attributes cfg None)]"
      "filter is_create b = [CreateQueue (qc_OutboxDLQName cfg) (queue_attributes cfg None)]"
      "filter is_create d = [CreateQueue (qc_QueueName cfg) (queue_attributes cfg (Some (redrivePolicy cfg (qi_arn q1))))]"
      "filter is_create e = [CreateQueue (qc_OutboxQueueName cfg) (queue_attributes cfg (Some (redrivePolicy cfg (qi_arn q2))))]"
      using parts by blast
    then show ?thesis by simp
  qed
  have keys: "json_string ''deadLetterTargetArn'' = ''\"deadLetterTargetArn\"''" "json_string ''maxReceiveCount'' = ''\"maxReceiveCount\"''"
    by code_simp+
  show ?thesis
    using kept created
    by (intro conjI exI [of _ "qi_arn q1"] exI [of _ "qi_arn q2"])
      (simp_all add: c queue_attributes_def redrivePolicy_def json_object_def keys)
qed

text \<open>A broker on which one queue exists already.\<close>

definition sample_queue_api :: queue_api where
  "sample_queue_api rs r =
     (case r of
        CreateQueue nm attrs \<Rightarrow>
          if nm = ''d.fifo'' then Inl (LibError ''QueueNameExists'') else Inr (QueueUrl (Some (''u/'' @ nm)))
      | GetQueueUrl nm \<Rightarrow> Inr (QueueUrl (Some (''u/'' @ nm)))
      | GetQueueAttributes url \<Rightarrow> Inr (QueueAttributes (\<lambda>k. if k = ''QueueArn'' then Some (''arn:'' @ url) else None)))"

definition sample_sqs_config :: SQSConfig where
  "sample_sqs_config = (read_sqs (\<lambda>_. None))\<lparr>qc_QueueName := ''q.fifo'', qc_DLQName := ''d.fifo'',
     qc_OutboxQueueName := ''e.fifo'', qc_OutboxDLQName := ''f.fifo''\<rparr>"

theorem EnsureQueues_redrive_witness:
  "\<exists>c rs attributes. EnsureQueues sample_queue_api sample_sqs_config [] = (Inr c, rs) \<and>
     CreateQueue ''q.fifo'' (attributes @ [(''RedrivePolicy'',
       ''{\"deadLetterTargetArn\":\"arn:u/d.fifo\",\"maxReceiveCount\":\"5\"}'')]) \<in> set rs"
proof -
  obtain c rs where run: "EnsureQueues sample_queue_api sample_sqs_config [] = (Inr c, rs)"
    and c: "cl_transactionsDLQURL c = ''u/d.fifo''"
    by (simp add: EnsureQueues_def pbind_def ensureQueue_def request_def sample_queue_api_def sample_sqs_config_def
        queueURL_def queue_info_def pwrap_def preturn_def url_of_def)
  from EnsureQueues_redrive [OF run] obtain arn attributes policy where
    a: "has_arn sample_queue_api rs (cl_transactionsDLQURL c) arn"
    and p: "policy = (\<lambda>arn. (''RedrivePolicy'', ''{\"deadLetterTargetArn\":'' @ json_string arn @
        '',\"maxReceiveCount\":'' @ json_string (int_str (sint (qc_MaxReceiveCount sample_sqs_config))) @ ''}''))"
    and created: "filter is_create rs =
        [CreateQueue (qc_DLQName sample_sqs_config) attributes, CreateQueue (qc_OutboxDLQName sample_sqs_config) attributes,
         CreateQueue (qc_QueueName sample_sqs_config) (attributes @ [policy arn]), last (filter is_create rs)]"
    by (elim conjE exE) (metis last.simps list.distinct(1))
  have f: "CreateQueue (qc_QueueName sample_sqs_config) (attributes @ [policy arn]) \<in> set (filter is_create rs)"
    by (subst created) simp
  have "arn = ''arn:u/d.fifo''"
    using a by (auto simp: c has_arn_def answered_def sample_queue_api_def arn_of_def)
  moreover have "json_string ''arn:u/d.fifo'' = ''\"arn:u/d.fifo\"''"
    "json_string (int_str (sint (qc_MaxReceiveCount sample_sqs_config))) = ''\"5\"''"
    by code_simp+
  ultimately have "policy arn = (''RedrivePolicy'', ''{\"deadLetterTargetArn\":\"arn:u/d.fifo\",\"maxReceiveCount\":\"5\"}'')"
    by (simp add: p)
  then show ?thesis using run f by (auto simp: sample_sqs_config_def)
qed

end
