(* ===== verification/Migrate.thy ===== *)
theory Migrate
  imports Apperr Go_Text Time_Text "HOL-Library.Multiset"
begin

section \<open>The migration runner (internal/platform/migrate/migrate.go)\<close>

text \<open>
  Loading the scripts of a directory, and applying and reverting them in version order, each in
  a transaction under an advisory lock. What a script does to the schema is PostgreSQL's: the
  schema is of any type and \<open>sv_script\<close> runs a script on it. The lemmas say which migrations are
  applied in which order whatever fails, that applying again does nothing, and that reverting
  undoes applying.
\<close>

record Migration =
  mg_Version :: int64
  mg_Name :: string
  mg_UpSQL :: string
  mg_DownSQL :: string

subsection \<open>Loading\<close>

text \<open>A directory entry, with what reading the file gives.\<close>

record dir_entry =
  de_Name :: string
  de_IsDir :: bool
  de_Content :: "string result"

definition name_char :: "char \<Rightarrow> bool" where
  "name_char c \<longleftrightarrow>
     (let b = of_char c :: nat in is_digit c \<or> 65 \<le> b \<and> b \<le> 90 \<or> 97 \<le> b \<and> b \<le> 122 \<or>
        c = CHR ''_'' \<or> c = CHR ''-'')"

text \<open>
  \<open>fileNamePattern\<close>: the digits of the version, the name, and whether it is an up script. No
  character of a name is a dot and no digit an underscore, so the match is unique.
\<close>

definition parse_file_name :: "string \<Rightarrow> (string \<times> string \<times> bool) option" where
  "parse_file_name s =
     (let ds = takeWhile is_digit s; r = dropWhile is_digit s;
          nm = takeWhile name_char (drop 1 r); ext = dropWhile name_char (drop 1 r)
      in if ds = '''' \<or> take 1 r \<noteq> ''_'' \<or> nm = '''' then None
         else if ext = ''.up.sql'' then Some (ds, nm, True)
         else if ext = ''.down.sql'' then Some (ds, nm, False)
         else None)"

text \<open>The map \<open>byVersion\<close> as a list without two migrations of one version.\<close>

definition put_migration :: "Migration \<Rightarrow> Migration list \<Rightarrow> Migration list" where
  "put_migration m ms =
     (if mg_Version m \<in> mg_Version ` set ms
      then map (\<lambda>x. if mg_Version x = mg_Version m then m else x) ms else ms @ [m])"

definition set_script :: "bool \<Rightarrow> string \<Rightarrow> Migration \<Rightarrow> Migration" where
  "set_script up sql m = (if up then m\<lparr>mg_UpSQL := sql\<rparr> else m\<lparr>mg_DownSQL := sql\<rparr>)"

fun load_entries :: "Migration list \<Rightarrow> dir_entry list \<Rightarrow> Migration list result" where
  "load_entries byVersion [] = Inr byVersion"
| "load_entries byVersion (e # es) =
     (if de_IsDir e then load_entries byVersion es
      else case parse_file_name (de_Name e) of
        None \<Rightarrow> load_entries byVersion es
      | Some (digits, nm, up) \<Rightarrow>
          (case ParseInt digits of
             None \<Rightarrow> Inl (WrapError ''migrate: invalid version'' (LibError ''strconv: value out of range''))
           | Some v \<Rightarrow>
               (case de_Content e of
                  Inl err \<Rightarrow> Inl (WrapError ''migrate: read'' err)
                | Inr sql \<Rightarrow>
                    (let version = word_of_int v;
                         m = (case find (\<lambda>m. mg_Version m = version) byVersion of
                            None \<Rightarrow> \<lparr>mg_Version = version, mg_Name = nm, mg_UpSQL = '''', mg_DownSQL = ''''\<rparr>
                          | Some m \<Rightarrow> m)
                     in if mg_Name m \<noteq> nm then Inl (LibError ''migrate: mismatched name'')
                        else load_entries (put_migration (set_script up sql m) byVersion) es))))"

fun check_scripts :: "Migration list \<Rightarrow> unit result" where
  "check_scripts [] = Inr ()"
| "check_scripts (m # ms) =
     (if TrimSpace (mg_UpSQL m) = '''' then Inl (LibError ''migrate: version is missing the up script'')
      else if TrimSpace (mg_DownSQL m) = '''' then Inl (LibError ''migrate: version is missing the down script'')
      else check_scripts ms)"

fun duplicate_version :: "Migration list \<Rightarrow> bool" where
  "duplicate_version (a # b # ms) \<longleftrightarrow> mg_Version b = mg_Version a \<or> duplicate_version (b # ms)"
| "duplicate_version ms \<longleftrightarrow> False"

text \<open>
  \<open>order\<close> is the order in which the runtime ranges over the map. The versions are distinct, so
  sorting has one result.
\<close>

definition migrate_Load :: "(Migration list \<Rightarrow> Migration list) \<Rightarrow> dir_entry list result \<Rightarrow> Migration list result" where
  "migrate_Load order fsys =
     (case fsys of
        Inl err \<Rightarrow> Inl (WrapError ''migrate: read dir'' err)
      | Inr es \<Rightarrow>
          and_then (load_entries [] es) (\<lambda>byVersion.
          and_then (check_scripts (order byVersion)) (\<lambda>_.
          (let migrations = sort_key (\<lambda>m. sint (mg_Version m)) (order byVersion) in
           if duplicate_version migrations then Inl (LibError ''migrate: duplicate version'')
           else Inr migrations))))"

text \<open>The name \<open>FileName\<close> gives to a script (within the directory, which \<open>path.Join\<close> prefixes).\<close>

definition migration_file_name :: "Migration \<Rightarrow> bool \<Rightarrow> string" where
  "migration_file_name m up =
     (let v = sint (mg_Version m) in
      (if v < 0 then ''-'' @ pad 3 (nat (- v)) else pad 4 (nat v)) @ ''_'' @ mg_Name m @
      (if up then ''.up.sql'' else ''.down.sql''))"

subsection \<open>What loading gives\<close>

text \<open>A script of a migration is the content of a file whose name says so.\<close>

definition script_file :: "dir_entry list \<Rightarrow> int64 \<Rightarrow> string \<Rightarrow> bool \<Rightarrow> string \<Rightarrow> bool" where
  "script_file es version nm up sql \<longleftrightarrow>
     (\<exists>e \<in> set es. \<exists>digits. \<not> de_IsDir e \<and> parse_file_name (de_Name e) = Some (digits, nm, up) \<and>
        ParseInt digits = Some (sint version) \<and> de_Content e = Inr sql)"

definition load_inv :: "dir_entry list \<Rightarrow> Migration list \<Rightarrow> bool" where
  "load_inv es ms \<longleftrightarrow> distinct (map mg_Version ms) \<and>
     (\<forall>m \<in> set ms. (mg_UpSQL m = '''' \<or> script_file es (mg_Version m) (mg_Name m) True (mg_UpSQL m)) \<and>
        (mg_DownSQL m = '''' \<or> script_file es (mg_Version m) (mg_Name m) False (mg_DownSQL m))) \<and>
     (\<forall>version nm up sql. script_file es version nm up sql \<longrightarrow>
        (\<exists>m \<in> set ms. mg_Version m = version \<and> mg_Name m = nm))"

lemma script_file_snoc:
  "script_file (es @ [e]) version nm up sql \<longleftrightarrow> script_file es version nm up sql \<or>
     (\<not> de_IsDir e \<and> de_Content e = Inr sql \<and>
      (\<exists>digits. parse_file_name (de_Name e) = Some (digits, nm, up) \<and> ParseInt digits = Some (sint version)))"
  by (auto simp: script_file_def)

lemma distinct_put: "distinct (map mg_Version ms) \<Longrightarrow> distinct (map mg_Version (put_migration m ms))"
proof -
  have "map mg_Version (map (\<lambda>x. if mg_Version x = mg_Version m then m else x) ms) = map mg_Version ms"
    by auto
  then show "distinct (map mg_Version ms) \<Longrightarrow> distinct (map mg_Version (put_migration m ms))"
    by (auto simp: put_migration_def simp del: map_map)
qed

lemma set_put:
  "x \<in> set (put_migration m ms) \<longleftrightarrow> x = m \<or> x \<in> set ms \<and> mg_Version x \<noteq> mg_Version m"
  by (auto simp: put_migration_def rev_image_eqI)

lemma ParseInt_range: "ParseInt s = Some v \<Longrightarrow> in_int64 v"
  by (auto simp: ParseInt_def Let_def in_int64_def split: if_splits)

lemma set_script_fields [simp]:
  "mg_Version (set_script up sql m) = mg_Version m" "mg_Name (set_script up sql m) = mg_Name m"
  "mg_UpSQL (set_script up sql m) = (if up then sql else mg_UpSQL m)"
  "mg_DownSQL (set_script up sql m) = (if up then mg_DownSQL m else sql)"
  by (simp_all add: set_script_def)

lemma load_inv_put:
  assumes inv: "load_inv es ms" and e: "\<not> de_IsDir e" "parse_file_name (de_Name e) = Some (digits, nm, up)"
    "ParseInt digits = Some v" "de_Content e = Inr sql"
    and m: "m = (case find (\<lambda>m. mg_Version m = word_of_int v) ms of
        None \<Rightarrow> \<lparr>mg_Version = word_of_int v, mg_Name = nm, mg_UpSQL = '''', mg_DownSQL = ''''\<rparr> | Some m \<Rightarrow> m)"
    and nm: "mg_Name m = nm"
  shows "load_inv (es @ [e]) (put_migration (set_script up sql m) ms)"
proof -
  have v: "sint (word_of_int v :: int64) = v" by (rule sint_word_of_int [OF ParseInt_range [OF e(3)]])
  have new: "script_file (es @ [e]) version nm' up' sql' \<longleftrightarrow> script_file es version nm' up' sql' \<or>
      version = word_of_int v \<and> nm' = nm \<and> up' = up \<and> sql' = sql" for version nm' up' sql'
    using e v by (auto simp: script_file_snoc simp flip: sint_eq_iff)
  have old: "m \<in> set ms \<or> mg_UpSQL m = '''' \<and> mg_DownSQL m = '''' \<and> (\<forall>x \<in> set ms. mg_Version x \<noteq> word_of_int v)"
    and mv: "mg_Version m = word_of_int v"
    by (auto simp: m find_None_iff find_Some_iff split: option.splits)
  have same: "script_file es (word_of_int v) nm' up' sql' \<Longrightarrow> nm' = nm" for nm' up' sql'
  proof -
    assume "script_file es (word_of_int v) nm' up' sql'"
    then obtain x where x: "x \<in> set ms" "mg_Version x = word_of_int v" "mg_Name x = nm'"
      using inv unfolding load_inv_def by blast
    then have "m \<in> set ms" using old by blast
    moreover have "distinct (map mg_Version ms)" using inv by (simp add: load_inv_def)
    ultimately have "x = m" using x mv by (metis distinct_map inj_on_eq_iff)
    then show "nm' = nm" using x nm by simp
  qed
  have oldx: "mg_UpSQL x = '''' \<or> script_file (es @ [e]) (mg_Version x) (mg_Name x) True (mg_UpSQL x)"
    "mg_DownSQL x = '''' \<or> script_file (es @ [e]) (mg_Version x) (mg_Name x) False (mg_DownSQL x)"
    if "x \<in> set ms" for x
    using inv that new unfolding load_inv_def by blast+
  have oldm: "mg_UpSQL m = '''' \<or> script_file (es @ [e]) (mg_Version m) nm True (mg_UpSQL m)"
    "mg_DownSQL m = '''' \<or> script_file (es @ [e]) (mg_Version m) nm False (mg_DownSQL m)"
    using old oldx [of m] nm by blast+
  have here: "script_file (es @ [e]) (mg_Version m) nm up sql" using new mv by simp
  have all: "(mg_UpSQL x = '''' \<or> script_file (es @ [e]) (mg_Version x) (mg_Name x) True (mg_UpSQL x)) \<and>
      (mg_DownSQL x = '''' \<or> script_file (es @ [e]) (mg_Version x) (mg_Name x) False (mg_DownSQL x))"
    if "x \<in> set (put_migration (set_script up sql m) ms)" for x
  proof (cases "x = set_script up sql m")
    case True
    then show ?thesis using oldm here nm by (cases up) simp_all
  next
    case False
    then show ?thesis using that oldx [of x] by (simp add: set_put)
  qed
  have each: "\<exists>x \<in> set (put_migration (set_script up sql m) ms). mg_Version x = version \<and> mg_Name x = nm'"
    if f: "script_file (es @ [e]) version nm' up' sql'" for version nm' up' sql'
  proof (cases "version = word_of_int v")
    case True
    then have "nm' = nm" using f new same by blast
    then show ?thesis using True mv nm by (intro bexI [of _ "set_script up sql m"]) (simp_all add: set_put)
  next
    case False
    then have "script_file es version nm' up' sql'" using f new by blast
    then obtain x where "x \<in> set ms" "mg_Version x = version" "mg_Name x = nm'"
      using inv unfolding load_inv_def by blast
    then show ?thesis using False mv by (intro bexI [of _ x]) (simp_all add: set_put)
  qed
  show ?thesis
    using all each inv unfolding load_inv_def by (blast intro: distinct_put)
qed

lemma load_inv_skip:
  assumes "load_inv es ms" and "de_IsDir e \<or> parse_file_name (de_Name e) = None"
  shows "load_inv (es @ [e]) ms"
proof -
  have "script_file (es @ [e]) version nm up sql \<longleftrightarrow> script_file es version nm up sql" for version nm up sql
    using assms(2) by (auto simp: script_file_snoc)
  then show ?thesis using assms(1) by (simp add: load_inv_def)
qed

lemma load_entries_inv:
  "load_entries ms es = Inr ms' \<Longrightarrow> load_inv seen ms \<Longrightarrow> load_inv (seen @ es) ms'"
proof (induction ms es arbitrary: seen rule: load_entries.induct)
  case (2 ms e es)
  show ?case
  proof (cases "de_IsDir e \<or> parse_file_name (de_Name e) = None")
    case True
    then show ?thesis
      using 2(1,2) [of "seen @ [e]"] 2(4) load_inv_skip [OF 2(5) True] by (auto split: if_splits)
  next
    case False
    then obtain digits nm up where p: "\<not> de_IsDir e" "parse_file_name (de_Name e) = Some (digits, nm, up)" by auto
    with 2(4) obtain v sql where v: "ParseInt digits = Some v" "de_Content e = Inr sql"
      by (auto split: option.splits sum.splits)
    let ?m = "case find (\<lambda>m. mg_Version m = word_of_int v) ms of
        None \<Rightarrow> \<lparr>mg_Version = word_of_int v, mg_Name = nm, mg_UpSQL = '''', mg_DownSQL = ''''\<rparr> | Some m \<Rightarrow> m"
    from 2(4) p v have n: "mg_Name ?m = nm"
      and r: "load_entries (put_migration (set_script up sql ?m) ms) es = Inr ms'"
      by (auto simp: Let_def split: if_splits)
    show ?thesis
      using 2(3) p v n r load_inv_put [OF 2(5) p v refl n] by fastforce
  qed
qed simp

lemma check_scripts_ok:
  "check_scripts ms = Inr () \<longleftrightarrow> (\<forall>m \<in> set ms. TrimSpace (mg_UpSQL m) \<noteq> '''' \<and> TrimSpace (mg_DownSQL m) \<noteq> '''')"
  by (induction ms) auto

lemma sorted_versions:
  assumes "distinct (map mg_Version ms)"
  shows "sorted_wrt (\<lambda>a b. sint (mg_Version a) < sint (mg_Version b)) (sort_key (\<lambda>m. sint (mg_Version m)) ms)"
proof -
  let ?s = "sort_key (\<lambda>m. sint (mg_Version m)) ms"
  have "distinct (map (\<lambda>m. sint (mg_Version m)) ms)"
    using assms by (auto simp: distinct_map inj_on_def sint_eq_iff)
  then have "distinct (map (\<lambda>m. sint (mg_Version m)) ?s)" by (simp add: distinct_map)
  then have "sorted_wrt (<) (map (\<lambda>m. sint (mg_Version m)) ?s)" by (simp add: strict_sorted_iff)
  then show ?thesis by (simp add: sorted_wrt_map)
qed

lemma no_duplicate: "sorted_wrt (\<lambda>a b. sint (mg_Version a) < sint (mg_Version b)) ms \<Longrightarrow> \<not> duplicate_version ms"
  by (induction ms rule: duplicate_version.induct) auto

lemma TrimSpace_empty: "TrimSpace '''' = ''''"
  by code_simp

lemma pad_digits: "list_all is_digit (pad k n)" "pad k n \<noteq> ''''" "digits_value (pad k n) = n"
proof -
  show "list_all is_digit (pad k n)" using set_pad by (auto simp: list_all_iff)
  show "pad k n \<noteq> ''''" by (simp add: pad_def Let_def nat_str_nonempty)
  show "digits_value (pad k n) = n" by (simp add: pad_def Let_def digits_value_replicate)
qed

text \<open>A script's conventional name is parsed to its migration's version and name.\<close>

lemma file_name_round_trip:
  assumes "0 \<le> sint (mg_Version m)" and "mg_Name m \<noteq> ''''" and "list_all name_char (mg_Name m)"
  shows "\<exists>digits. parse_file_name (migration_file_name m up) = Some (digits, mg_Name m, up) \<and>
    ParseInt digits = Some (sint (mg_Version m))"
proof -
  let ?ds = "pad 4 (nat (sint (mg_Version m)))" and ?ext = "if up then ''.up.sql'' else ''.down.sql''"
  have name: "migration_file_name m up = ?ds @ CHR ''_'' # mg_Name m @ ?ext"
    using assms(1) by (simp add: migration_file_name_def Let_def)
  have us: "\<not> is_digit (CHR ''_'')" and dot: "\<not> name_char (CHR ''.'')"
    by (simp_all add: is_digit_def name_char_def)
  have d: "takeWhile is_digit (?ds @ CHR ''_'' # s) = ?ds" "dropWhile is_digit (?ds @ CHR ''_'' # s) = CHR ''_'' # s" for s
    using pad_digits(1) us by (simp_all add: list_all_iff takeWhile_append dropWhile_append)
  have n: "takeWhile name_char (mg_Name m @ ?ext) = mg_Name m" "dropWhile name_char (mg_Name m @ ?ext) = ?ext"
    using assms(3) dot by (simp_all add: list_all_iff takeWhile_append dropWhile_append)
  have "ParseInt ?ds = Some (sint (mg_Version m))"
    using ParseInt_digits [OF pad_digits(2,1)] sint_upper [of "mg_Version m"] assms(1)
    by (simp add: pad_digits(3))
  then show ?thesis
    using pad_digits(2) assms(2) using n unfolding parse_file_name_def name Let_def d by (cases up) simp_all
qed

subsection \<open>Applying and reverting\<close>

text \<open>
  The state of the database: the rows of \<open>schema_migrations\<close> (\<open>None\<close> while the table does not
  exist) and the schema. A server runs scripts, loses connections (\<open>sv_fault\<close>) and the
  acknowledgement of a COMMIT (\<open>sv_ack_lost\<close>); \<open>sv_others\<close> is what other instances of the
  application commit before a statement. Whoever holds the advisory lock is alone.
\<close>

record 's schema_db =
  sd_rows :: "(int64 \<times> string) list option"
  sd_schema :: 's

record 's migration_world =
  mw_step :: nat
  mw_db :: "'s schema_db"

record 's server =
  sv_script :: "string \<Rightarrow> 's \<Rightarrow> 's result"
  sv_fault :: "nat \<Rightarrow> string option"
  sv_ack_lost :: "nat \<Rightarrow> bool"
  sv_others :: "nat \<Rightarrow> 's schema_db \<Rightarrow> 's schema_db"

type_synonym ('s, 'a) mig = "'s migration_world \<Rightarrow> 'a result \<times> 's migration_world"

definition mbind :: "('s, 'a) mig \<Rightarrow> ('a \<Rightarrow> ('s, 'b) mig) \<Rightarrow> ('s, 'b) mig" where
  "mbind m k w = (case m w of (Inl e, w') \<Rightarrow> (Inl e, w') | (Inr v, w') \<Rightarrow> k v w')"

definition wrapped :: "string \<Rightarrow> ('s, 'a) mig \<Rightarrow> ('s, 'a) mig" where
  "wrapped msg m w = (case m w of (Inl e, w') \<Rightarrow> (Inl (WrapError msg e), w') | (Inr v, w') \<Rightarrow> (Inr v, w'))"

text \<open>A statement while the lock is held, and one before which others may commit.\<close>

definition locked :: "'s server \<Rightarrow> ('s schema_db \<Rightarrow> ('a \<times> 's schema_db) result) \<Rightarrow> ('s, 'a) mig" where
  "locked S f w =
     (let w1 = w\<lparr>mw_step := Suc (mw_step w)\<rparr> in
      case sv_fault S (mw_step w) of
        Some s \<Rightarrow> (Inl (LibError s), w1)
      | None \<Rightarrow> (case f (mw_db w) of Inl e \<Rightarrow> (Inl e, w1) | Inr (v, d) \<Rightarrow> (Inr v, w1\<lparr>mw_db := d\<rparr>)))"

definition shared :: "'s server \<Rightarrow> ('s schema_db \<Rightarrow> ('a \<times> 's schema_db) result) \<Rightarrow> ('s, 'a) mig" where
  "shared S f w = locked S f (w\<lparr>mw_db := sv_others S (mw_step w) (mw_db w)\<rparr>)"

definition no_table :: goerror where
  "no_table = PgError ''42P01'' ''''"

definition sql_create_table :: "'s schema_db \<Rightarrow> (unit \<times> 's schema_db) result" where
  "sql_create_table d = Inr ((), case sd_rows d of None \<Rightarrow> d\<lparr>sd_rows := Some []\<rparr> | Some rs \<Rightarrow> d)"

definition sql_versions :: "'s schema_db \<Rightarrow> (int64 list \<times> 's schema_db) result" where
  "sql_versions d = (case sd_rows d of None \<Rightarrow> Inl no_table | Some rs \<Rightarrow> Inr (map fst rs, d))"

definition sql_record :: "int64 \<Rightarrow> string \<Rightarrow> 's schema_db \<Rightarrow> (unit \<times> 's schema_db) result" where
  "sql_record version nm d =
     (case sd_rows d of
        None \<Rightarrow> Inl no_table
      | Some rs \<Rightarrow>
          if version \<in> fst ` set rs then Inl (PgError ''23505'' ''schema_migrations_pkey'')
          else Inr ((), d\<lparr>sd_rows := Some (rs @ [(version, nm)])\<rparr>))"

definition sql_unrecord :: "int64 \<Rightarrow> 's schema_db \<Rightarrow> (unit \<times> 's schema_db) result" where
  "sql_unrecord version d =
     (case sd_rows d of
        None \<Rightarrow> Inl no_table
      | Some rs \<Rightarrow> Inr ((), d\<lparr>sd_rows := Some (filter (\<lambda>r. fst r \<noteq> version) rs)\<rparr>))"

definition run_script :: "'s server \<Rightarrow> string \<Rightarrow> 's schema_db \<Rightarrow> (unit \<times> 's schema_db) result" where
  "run_script S script d =
     (case sv_script S script (sd_schema d) of
        Inl e \<Rightarrow> Inl e
      | Inr s \<Rightarrow> Inr ((), d\<lparr>sd_schema := s\<rparr>))"

text \<open>
  COMMIT: when it fails the transaction \<open>saved\<close> is what is left, unless only the answer was lost.
\<close>

definition commit :: "'s server \<Rightarrow> 's schema_db \<Rightarrow> ('s, unit) mig" where
  "commit S saved w =
     (let w1 = w\<lparr>mw_step := Suc (mw_step w)\<rparr> in
      case sv_fault S (mw_step w) of
        None \<Rightarrow> (Inr (), w1)
      | Some s \<Rightarrow> (Inl (LibError s), if sv_ack_lost S (mw_step w) then w1 else w1\<lparr>mw_db := saved\<rparr>))"

text \<open>\<open>defer tx.Rollback\<close>: what a transaction that did not reach its COMMIT did is undone.\<close>

definition rolled_back :: "'s schema_db \<Rightarrow> ('s, 'a) mig \<Rightarrow> ('s, 'a) mig" where
  "rolled_back saved m w =
     (case m w of (Inl e, w') \<Rightarrow> (Inl e, w'\<lparr>mw_db := saved\<rparr>) | (Inr v, w') \<Rightarrow> (Inr v, w'))"

definition applyOne :: "'s server \<Rightarrow> Migration \<Rightarrow> bool \<Rightarrow> ('s, unit) mig" where
  "applyOne S m up =
     mbind (wrapped ''migrate: begin'' (shared S (\<lambda>d. Inr ((), d)))) (\<lambda>_.
     mbind (wrapped ''migrate: acquire lock'' (shared S (\<lambda>d. Inr ((), d)))) (\<lambda>_ w.
       mbind
         (rolled_back (mw_db w)
           (mbind (wrapped ''migrate: apply'' (locked S (run_script S (if up then mg_UpSQL m else mg_DownSQL m)))) (\<lambda>_.
            if up then wrapped ''migrate: record version'' (locked S (sql_record (mg_Version m) (mg_Name m)))
            else wrapped ''migrate: delete version'' (locked S (sql_unrecord (mg_Version m))))))
         (\<lambda>_. wrapped ''migrate: commit'' (commit S (mw_db w))) w))"

definition create_table :: "'s server \<Rightarrow> ('s, unit) mig" where
  "create_table S = wrapped ''migrate: create version table'' (shared S sql_create_table)"

definition appliedVersions :: "'s server \<Rightarrow> ('s, int64 list) mig" where
  "appliedVersions S = wrapped ''migrate: list applied'' (shared S sql_versions)"

text \<open>The count is returned with the error.\<close>

fun up_loop :: "'s server \<Rightarrow> int64 list \<Rightarrow> nat \<Rightarrow> Migration list \<Rightarrow>
    's migration_world \<Rightarrow> (nat \<times> goerror option) \<times> 's migration_world" where
  "up_loop S applied cnt [] w = ((cnt, None), w)"
| "up_loop S applied cnt (m # ms) w =
     (if mg_Version m \<in> set applied then up_loop S applied cnt ms w
      else case applyOne S m True w of
        (Inl err, w') \<Rightarrow> ((cnt, Some err), w')
      | (Inr _, w') \<Rightarrow> up_loop S applied (Suc cnt) ms w')"

definition migrate_Up :: "'s server \<Rightarrow> Migration list \<Rightarrow>
    's migration_world \<Rightarrow> (nat \<times> goerror option) \<times> 's migration_world" where
  "migrate_Up S migrations w =
     (case mbind (create_table S) (\<lambda>_. appliedVersions S) w of
        (Inl err, w') \<Rightarrow> ((0, Some err), w')
      | (Inr applied, w') \<Rightarrow> up_loop S applied 0 migrations w')"

text \<open>\<open>byVersion\<close>: the last migration of a version wins.\<close>

fun down_loop :: "'s server \<Rightarrow> Migration list \<Rightarrow> nat \<Rightarrow> int64 list \<Rightarrow>
    's migration_world \<Rightarrow> (nat \<times> goerror option) \<times> 's migration_world" where
  "down_loop S migrations cnt [] w = ((cnt, None), w)"
| "down_loop S migrations cnt (version # versions) w =
     (case find (\<lambda>m. mg_Version m = version) (rev migrations) of
        None \<Rightarrow> ((cnt, Some (LibError ''migrate: no down script for applied version'')), w)
      | Some m \<Rightarrow>
          (case applyOne S m False w of
             (Inl err, w') \<Rightarrow> ((cnt, Some err), w')
           | (Inr _, w') \<Rightarrow> down_loop S migrations (Suc cnt) versions w'))"

definition newest_versions :: "int64 list \<Rightarrow> int \<Rightarrow> int64 list" where
  "newest_versions applied steps =
     (let versions = sort_key (\<lambda>v. - sint v) applied in
      if 0 < steps \<and> steps < int (length versions) then take (nat steps) versions else versions)"

definition migrate_Down :: "'s server \<Rightarrow> Migration list \<Rightarrow> int \<Rightarrow>
    's migration_world \<Rightarrow> (nat \<times> goerror option) \<times> 's migration_world" where
  "migrate_Down S migrations steps w =
     (case mbind (create_table S) (\<lambda>_. appliedVersions S) w of
        (Inl err, w') \<Rightarrow> ((0, Some err), w')
      | (Inr applied, w') \<Rightarrow> down_loop S migrations 0 (newest_versions applied steps) w')"

text \<open>\<open>COALESCE(MAX(version), 0)\<close>.\<close>

definition sql_current :: "'s schema_db \<Rightarrow> (int64 \<times> 's schema_db) result" where
  "sql_current d =
     (case sd_rows d of
        None \<Rightarrow> Inl no_table
      | Some rs \<Rightarrow> Inr (foldr (\<lambda>r v. if sint v < sint (fst r) then fst r else v) rs
          (case rs of [] \<Rightarrow> 0 | r # _ \<Rightarrow> fst r), d))"

definition CurrentVersion :: "'s server \<Rightarrow> ('s, int64) mig" where
  "CurrentVersion S =
     mbind (create_table S) (\<lambda>_. wrapped ''migrate: current version'' (shared S sql_current))"

subsection \<open>Atomic steps\<close>

definition recorded :: "'s schema_db \<Rightarrow> (int64 \<times> string) list" where
  "recorded d = (case sd_rows d of None \<Rightarrow> [] | Some rs \<Rightarrow> rs)"

fun run_scripts :: "'s server \<Rightarrow> string list \<Rightarrow> 's \<Rightarrow> 's result" where
  "run_scripts S [] s = Inr s"
| "run_scripts S (x # xs) s = and_then (sv_script S x s) (run_scripts S xs)"

definition row_of :: "Migration \<Rightarrow> int64 \<times> string" where
  "row_of m = (mg_Version m, mg_Name m)"

definition alone :: "'s server \<Rightarrow> bool" where
  "alone S \<longleftrightarrow> (\<forall>n d. sv_others S n d = d)"

lemma shared_alone [simp]: "alone S \<Longrightarrow> shared S f = locked S f"
  by (simp add: shared_def alone_def fun_eq_iff)

text \<open>An up or down script with its record, as one step of the database.\<close>

definition stepped :: "'s server \<Rightarrow> Migration \<Rightarrow> bool \<Rightarrow> 's schema_db \<Rightarrow> 's schema_db \<Rightarrow> bool" where
  "stepped S m up d d' \<longleftrightarrow> sd_rows d \<noteq> None \<and> sd_rows d' \<noteq> None \<and>
     (if up then sv_script S (mg_UpSQL m) (sd_schema d) = Inr (sd_schema d') \<and>
          mg_Version m \<notin> fst ` set (recorded d) \<and> recorded d' = recorded d @ [row_of m]
      else sv_script S (mg_DownSQL m) (sd_schema d) = Inr (sd_schema d') \<and>
          recorded d' = filter (\<lambda>r. fst r \<noteq> mg_Version m) (recorded d))"

text \<open>What the combinators return.\<close>

lemma mbind_Inr: "mbind m k w = (Inr v, w') \<longleftrightarrow> (\<exists>u w1. m w = (Inr u, w1) \<and> k u w1 = (Inr v, w'))"
  by (auto simp: mbind_def split: prod.splits sum.splits)

lemma mbind_Inl:
  "mbind m k w = (Inl e, w') \<longleftrightarrow> m w = (Inl e, w') \<or> (\<exists>u w1. m w = (Inr u, w1) \<and> k u w1 = (Inl e, w'))"
  by (auto simp: mbind_def split: prod.splits sum.splits)

lemma wrapped_Inr: "wrapped msg m w = (Inr v, w') \<longleftrightarrow> m w = (Inr v, w')"
  by (auto simp: wrapped_def split: prod.splits sum.splits)

lemma wrapped_Inl: "wrapped msg m w = (Inl e, w') \<longleftrightarrow> (\<exists>e'. m w = (Inl e', w') \<and> e = WrapError msg e')"
  by (auto simp: wrapped_def split: prod.splits sum.splits)

lemma rolled_back_Inr: "rolled_back saved m w = (Inr v, w') \<longleftrightarrow> m w = (Inr v, w')"
  by (auto simp: rolled_back_def split: prod.splits sum.splits)

lemma rolled_back_Inl: "rolled_back saved m w = (Inl e, w') \<longleftrightarrow> (\<exists>w1. m w = (Inl e, w1) \<and> w' = w1\<lparr>mw_db := saved\<rparr>)"
  by (auto simp: rolled_back_def split: prod.splits sum.splits)

lemma locked_Inr: "locked S f w = (Inr v, w') \<Longrightarrow> f (mw_db w) = Inr (v, mw_db w')"
  by (auto simp: locked_def Let_def split: option.splits sum.splits)

lemma locked_Inl: "locked S f w = (Inl e, w') \<Longrightarrow> mw_db w' = mw_db w"
  by (auto simp: locked_def Let_def split: option.splits sum.splits)

lemma commit_Inr: "commit S saved w = (Inr v, w') \<Longrightarrow> mw_db w' = mw_db w"
  by (auto simp: commit_def Let_def split: option.splits)

lemma commit_Inl:
  "commit S saved w = (Inl e, w') \<Longrightarrow> mw_db w' = saved \<or> mw_db w' = mw_db w \<and> (\<exists>i. sv_ack_lost S i)"
  by (auto simp: commit_def Let_def split: option.splits if_splits)

lemmas combinators = mbind_Inr mbind_Inl wrapped_Inr wrapped_Inl rolled_back_Inr rolled_back_Inl

text \<open>A migration is applied or reverted entirely or not at all.\<close>

definition script_and_record :: "'s server \<Rightarrow> Migration \<Rightarrow> bool \<Rightarrow> ('s, unit) mig" where
  "script_and_record S m up =
     mbind (wrapped ''migrate: apply'' (locked S (run_script S (if up then mg_UpSQL m else mg_DownSQL m)))) (\<lambda>_.
       if up then wrapped ''migrate: record version'' (locked S (sql_record (mg_Version m) (mg_Name m)))
       else wrapped ''migrate: delete version'' (locked S (sql_unrecord (mg_Version m))))"

lemma run_script_Inr:
  "run_script S x d = Inr (u, d') \<Longrightarrow> sv_script S x (sd_schema d) = Inr (sd_schema d') \<and> sd_rows d' = sd_rows d \<and>
     recorded d' = recorded d"
  by (auto simp: run_script_def recorded_def split: sum.splits)

lemma sql_record_Inr:
  "sql_record version nm d = Inr (u, d') \<Longrightarrow> sd_schema d' = sd_schema d \<and> sd_rows d \<noteq> None \<and> sd_rows d' \<noteq> None \<and>
     version \<notin> fst ` set (recorded d) \<and> recorded d' = recorded d @ [(version, nm)]"
  by (auto simp: sql_record_def recorded_def split: option.splits if_splits)

lemma sql_unrecord_Inr:
  "sql_unrecord version d = Inr (u, d') \<Longrightarrow> sd_schema d' = sd_schema d \<and> sd_rows d \<noteq> None \<and> sd_rows d' \<noteq> None \<and>
     recorded d' = filter (\<lambda>r. fst r \<noteq> version) (recorded d)"
  by (auto simp: sql_unrecord_def recorded_def split: option.splits)

lemma script_and_record_ok:
  assumes "script_and_record S m up w = (Inr v, w')"
  shows "stepped S m up (mw_db w) (mw_db w')"
proof -
  obtain u w1 where 1: "locked S (run_script S (if up then mg_UpSQL m else mg_DownSQL m)) w = (Inr u, w1)"
    and 2: "locked S (if up then sql_record (mg_Version m) (mg_Name m) else sql_unrecord (mg_Version m)) w1 = (Inr v, w')"
    using assms by (auto simp: script_and_record_def combinators split: if_splits)
  show ?thesis
    using run_script_Inr [OF locked_Inr [OF 1]] locked_Inr [OF 2]
    by (cases up) (simp_all add: stepped_def row_of_def, (drule sql_record_Inr sql_unrecord_Inr, simp)+)
qed

lemma applyOne_outcome:
  assumes "alone S" and "applyOne S m up w = (r, w')"
  shows "case r of Inr _ \<Rightarrow> stepped S m up (mw_db w) (mw_db w')
    | Inl _ \<Rightarrow> mw_db w' = mw_db w \<or> stepped S m up (mw_db w) (mw_db w') \<and> (\<exists>i. sv_ack_lost S i)"
proof -
  let ?nop = "\<lambda>d. Inr ((), d)"
  have run: "applyOne S m up = mbind (wrapped ''migrate: begin'' (locked S ?nop)) (\<lambda>_.
      mbind (wrapped ''migrate: acquire lock'' (locked S ?nop)) (\<lambda>_ w.
        mbind (rolled_back (mw_db w) (script_and_record S m up))
          (\<lambda>_. wrapped ''migrate: commit'' (commit S (mw_db w))) w))"
    unfolding applyOne_def script_and_record_def using assms(1) by simp
  have nop: "mw_db w1 = mw_db w" if "locked S ?nop w = (Inr v, w1)" for w w1 and v :: unit
    using locked_Inr [OF that] by simp
  show ?thesis
  proof (cases r)
    case (Inr v)
    then obtain w1 w2 w3 where w: "locked S ?nop w = (Inr (), w1)" "locked S ?nop w1 = (Inr (), w2)"
      "script_and_record S m up w2 = (Inr (), w3)" "commit S (mw_db w2) w3 = (Inr v, w')"
      using assms(2) unfolding run by (auto simp: combinators)
    then show ?thesis
      using Inr nop [OF w(1)] nop [OF w(2)] script_and_record_ok [OF w(3)] commit_Inr [OF w(4)] by simp
  next
    case (Inl e)
    then have "applyOne S m up w = (Inl e, w')" using assms(2) by simp
    then consider (start) e' where "locked S ?nop w = (Inl e', w')"
      | (lock) w1 e' where "locked S ?nop w = (Inr (), w1)" "locked S ?nop w1 = (Inl e', w')"
      | (script) w1 w2 w3 where "locked S ?nop w = (Inr (), w1)" "locked S ?nop w1 = (Inr (), w2)"
          "w' = w3\<lparr>mw_db := mw_db w2\<rparr>"
      | (commit) w1 w2 w3 e' where "locked S ?nop w = (Inr (), w1)" "locked S ?nop w1 = (Inr (), w2)"
          "script_and_record S m up w2 = (Inr (), w3)" "commit S (mw_db w2) w3 = (Inl e', w')"
      unfolding run by (auto simp: combinators)
    then have "mw_db w' = mw_db w \<or> stepped S m up (mw_db w) (mw_db w') \<and> (\<exists>i. sv_ack_lost S i)"
    proof cases
      case start
      then show ?thesis using locked_Inl by blast
    next
      case lock
      then show ?thesis using nop [of w _ w1] locked_Inl [of S ?nop w1] by simp
    next
      case script
      then show ?thesis using nop [of w _ w1] nop [of w1 _ w2] by simp
    next
      case commit
      then show ?thesis
        using nop [of w _ w1] nop [of w1 _ w2] script_and_record_ok [of S m up w2] commit_Inl [OF commit(4)] by auto
    qed
    then show ?thesis using Inl by simp
  qed
qed

lemma stepped_det: "stepped S m up d d1 \<Longrightarrow> stepped S m up d d2 \<Longrightarrow> d1 = d2"
  by (cases up) (auto simp: stepped_def recorded_def intro!: schema_db.equality split: option.splits)

lemma create_table_result:
  assumes "alone S" and "create_table S w = (r, w1)"
  shows "recorded (mw_db w1) = recorded (mw_db w)" and "sd_schema (mw_db w1) = sd_schema (mw_db w)"
    and "sd_rows (mw_db w) \<noteq> None \<Longrightarrow> mw_db w1 = mw_db w"
    and "r = Inr v \<Longrightarrow> sd_rows (mw_db w1) \<noteq> None"
proof -
  have w1: "w1 = snd (create_table S w)" and r: "r = fst (create_table S w)" using assms(2) by simp_all
  show "recorded (mw_db w1) = recorded (mw_db w)" "sd_schema (mw_db w1) = sd_schema (mw_db w)"
    "sd_rows (mw_db w) \<noteq> None \<Longrightarrow> mw_db w1 = mw_db w" "r = Inr v \<Longrightarrow> sd_rows (mw_db w1) \<noteq> None"
    using assms(1) unfolding w1 r
    by (auto simp: create_table_def wrapped_def locked_def sql_create_table_def recorded_def Let_def
        split: option.splits)
qed

lemma appliedVersions_result:
  assumes "alone S" and "appliedVersions S w = (r, w1)"
  shows "mw_db w1 = mw_db w"
    and "r = Inr applied \<Longrightarrow> applied = map fst (recorded (mw_db w))"
  using assms
  by (auto simp: appliedVersions_def wrapped_def locked_def sql_versions_def recorded_def Let_def
      split: option.splits)

lemma create_and_list:
  assumes "alone S" and "mbind (create_table S) (\<lambda>_. appliedVersions S) w = (r, w1)"
  shows "recorded (mw_db w1) = recorded (mw_db w)" and "sd_schema (mw_db w1) = sd_schema (mw_db w)"
    and "r = Inr applied \<Longrightarrow> applied = map fst (recorded (mw_db w)) \<and> sd_rows (mw_db w1) \<noteq> None"
    and "sd_rows (mw_db w) \<noteq> None \<Longrightarrow> mw_db w1 = mw_db w"
proof -
  obtain r0 w0 where c: "create_table S w = (r0, w0)" by (cases "create_table S w")
  note c1 = create_table_result [OF assms(1) c]
  have db: "mw_db w1 = mw_db w0"
    using assms(2) appliedVersions_result(1) [OF assms(1)] c by (cases r0) (auto simp: mbind_def)
  then show rec: "recorded (mw_db w1) = recorded (mw_db w)" and "sd_schema (mw_db w1) = sd_schema (mw_db w)"
    and "sd_rows (mw_db w) \<noteq> None \<Longrightarrow> mw_db w1 = mw_db w"
    using c1(1-3) by (simp_all add: recorded_def)
  show "applied = map fst (recorded (mw_db w)) \<and> sd_rows (mw_db w1) \<noteq> None" if r: "r = Inr applied"
  proof (cases r0)
    case (Inr v)
    then have "appliedVersions S w0 = (Inr applied, w1)" using assms(2) c r by (simp add: mbind_def)
    from appliedVersions_result [OF assms(1) this] show ?thesis using c1(1) c1(4) [OF Inr] db by simp
  qed (use assms(2) c r in \<open>simp add: mbind_def\<close>)
qed

lemma run_scripts_append:
  "run_scripts S (xs @ ys) s = and_then (run_scripts S xs s) (run_scripts S ys)"
proof (induction xs arbitrary: s)
  case (Cons x xs)
  then show ?case by (cases "sv_script S x s") simp_all
qed simp

lemma up_loop_outcome:
  assumes "alone S" and "up_loop S applied c ms w = ((n, err), w')"
    and "todo = filter (\<lambda>m. mg_Version m \<notin> set applied) ms"
  shows "\<exists>k \<le> length todo. recorded (mw_db w') = recorded (mw_db w) @ map row_of (take k todo) \<and>
      run_scripts S (map mg_UpSQL (take k todo)) (sd_schema (mw_db w)) = Inr (sd_schema (mw_db w')) \<and>
      (sd_rows (mw_db w) \<noteq> None \<longrightarrow> sd_rows (mw_db w') \<noteq> None) \<and>
      (case err of None \<Rightarrow> n = c + k \<and> k = length todo
       | Some _ \<Rightarrow> n = c + k \<or> Suc n = c + k \<and> (\<exists>i. sv_ack_lost S i))"
  using assms(2,3)
proof (induction ms arbitrary: c w todo)
  case (Cons m ms)
  show ?case
  proof (cases "mg_Version m \<in> set applied")
    case True
    then show ?thesis using Cons by auto
  next
    case False
    obtain r w1 where a: "applyOne S m True w = (r, w1)" by (cases "applyOne S m True w")
    note out = applyOne_outcome [OF assms(1) a]
    let ?todo = "filter (\<lambda>m. mg_Version m \<notin> set applied) ms"
    have todo: "todo = m # ?todo" using Cons(3) False by simp
    show ?thesis
    proof (cases r)
      case (Inl e)
      then have n: "n = c" "err = Some e" "w' = w1" using Cons(2) False a by auto
      from out Inl consider "mw_db w1 = mw_db w"
        | "stepped S m True (mw_db w) (mw_db w1)" "\<exists>i. sv_ack_lost S i" by auto
      then show ?thesis
      proof cases
        case 1
        then show ?thesis using n by (intro exI [of _ 0]) simp
      next
        case 2
        then show ?thesis using n todo by (intro exI [of _ 1]) (auto simp: stepped_def)
      qed
    next
      case (Inr u)
      then have "up_loop S applied (Suc c) ms w1 = ((n, err), w')" using Cons(2) False a by simp
      from Cons(1) [OF this refl] obtain k where k: "k \<le> length ?todo"
        "recorded (mw_db w') = recorded (mw_db w1) @ map row_of (take k ?todo)"
        "run_scripts S (map mg_UpSQL (take k ?todo)) (sd_schema (mw_db w1)) = Inr (sd_schema (mw_db w'))"
        "sd_rows (mw_db w1) \<noteq> None \<longrightarrow> sd_rows (mw_db w') \<noteq> None"
        "case err of None \<Rightarrow> n = Suc c + k \<and> k = length ?todo
          | Some _ \<Rightarrow> n = Suc c + k \<or> Suc n = Suc c + k \<and> (\<exists>i. sv_ack_lost S i)"
        by blast
      then show ?thesis
        using out Inr todo by (intro exI [of _ "Suc k"]) (auto simp: stepped_def split: option.splits)
    qed
  qed
qed simp

subsection \<open>Reverting\<close>

text \<open>The given versions reverted: each by its own down script, in the given order, their rows gone.\<close>

definition reverted :: "'s server \<Rightarrow> Migration list \<Rightarrow> int64 list \<Rightarrow> 's schema_db \<Rightarrow> 's schema_db \<Rightarrow> bool" where
  "reverted S ms versions d d' \<longleftrightarrow>
     recorded d' = filter (\<lambda>r. fst r \<notin> set versions) (recorded d) \<and>
     (\<exists>found. map mg_Version found = versions \<and> set found \<subseteq> set ms \<and>
        run_scripts S (map mg_DownSQL found) (sd_schema d) = Inr (sd_schema d'))"

lemma reverted_Nil [simp]:
  "recorded d' = recorded d \<Longrightarrow> sd_schema d' = sd_schema d \<Longrightarrow> reverted S ms [] d d'"
  by (simp add: reverted_def)

lemma reverted_Cons:
  assumes "stepped S m False d d1" and "m \<in> set ms" and "reverted S ms versions d1 d2"
  shows "reverted S ms (mg_Version m # versions) d d2"
proof -
  obtain found where "map mg_Version found = versions" "set found \<subseteq> set ms"
    "run_scripts S (map mg_DownSQL found) (sd_schema d1) = Inr (sd_schema d2)"
    using assms(3) by (auto simp: reverted_def)
  then show ?thesis
    using assms unfolding reverted_def
    by (intro conjI exI [of _ "m # found"]) (auto simp: stepped_def intro: filter_cong)
qed

lemma found_migration:
  assumes "find (\<lambda>m. mg_Version m = version) (rev ms) = Some m"
  shows "mg_Version m = version" and "m \<in> set ms"
proof -
  obtain i where "i < length (rev ms)" "mg_Version (rev ms ! i) = version" "m = rev ms ! i"
    using assms by (auto simp: find_Some_iff)
  then show "mg_Version m = version" "m \<in> set ms" using nth_mem [of i "rev ms"] by auto
qed

lemma down_loop_outcome:
  assumes "alone S" and "down_loop S ms c versions w = ((n, err), w')"
  shows "\<exists>k \<le> length versions. reverted S ms (take k versions) (mw_db w) (mw_db w') \<and>
      (case err of None \<Rightarrow> n = c + k \<and> k = length versions
       | Some _ \<Rightarrow> n = c + k \<or> Suc n = c + k \<and> (\<exists>i. sv_ack_lost S i))"
  using assms(2)
proof (induction versions arbitrary: c w)
  case (Cons version versions)
  show ?case
  proof (cases "find (\<lambda>m. mg_Version m = version) (rev ms)")
    case None
    then show ?thesis using Cons.prems by (intro exI [of _ 0]) auto
  next
    case (Some m)
    note m = found_migration [OF Some]
    obtain r w1 where a: "applyOne S m False w = (r, w1)" by (cases "applyOne S m False w")
    note out = applyOne_outcome [OF assms(1) a]
    show ?thesis
    proof (cases r)
      case (Inl e)
      then have n: "n = c" "err = Some e" "w' = w1" using Cons.prems Some a by auto
      from out Inl consider "mw_db w1 = mw_db w"
        | "stepped S m False (mw_db w) (mw_db w1)" "\<exists>i. sv_ack_lost S i" by auto
      then show ?thesis
      proof cases
        case 1
        then show ?thesis using n by (intro exI [of _ 0]) simp
      next
        case 2
        then show ?thesis using n reverted_Cons [OF 2(1) m(2), of "[]"] m by (intro exI [of _ 1]) simp
      qed
    next
      case (Inr u)
      then have "down_loop S ms (Suc c) versions w1 = ((n, err), w')" using Cons.prems Some a by simp
      from Cons.IH [OF this] obtain k where k: "k \<le> length versions"
        "reverted S ms (take k versions) (mw_db w1) (mw_db w')"
        "case err of None \<Rightarrow> n = Suc c + k \<and> k = length versions
          | Some _ \<Rightarrow> n = Suc c + k \<or> Suc n = Suc c + k \<and> (\<exists>i. sv_ack_lost S i)"
        by blast
      have "stepped S m False (mw_db w) (mw_db w1)" using out Inr by simp
      then show ?thesis
        using k m reverted_Cons [OF _ m(2) k(2)] by (intro exI [of _ "Suc k"]) (auto split: option.splits)
    qed
  qed
qed simp

text \<open>
  Along the run of the up scripts from a schema, each down script takes the schema its up script
  has left back to the one the up script has found.
\<close>

fun inverse_along :: "'s server \<Rightarrow> Migration list \<Rightarrow> 's \<Rightarrow> bool" where
  "inverse_along S [] s = True"
| "inverse_along S (m # ms) s =
     (case sv_script S (mg_UpSQL m) s of
        Inl _ \<Rightarrow> True
      | Inr s' \<Rightarrow> sv_script S (mg_DownSQL m) s' = Inr s \<and> inverse_along S ms s')"

lemma inverse_along_snoc:
  "inverse_along S (ms @ [m]) s \<Longrightarrow> run_scripts S (map mg_UpSQL ms) s = Inr s1 \<Longrightarrow>
     inverse_along S ms s \<and> inverse_along S [m] s1"
  by (induction ms arbitrary: s) (auto simp: and_then_Inr_iff split: sum.splits)

lemma down_loop_undoes:
  assumes "alone S" and fault: "\<forall>i. sv_fault S i = None"
    and full: "distinct (map mg_Version full)"
  shows "inverse_along S ms s \<Longrightarrow>
    set ms \<subseteq> set full \<Longrightarrow> distinct (map mg_Version ms) \<Longrightarrow> sd_rows (mw_db w) = Some (map row_of ms) \<Longrightarrow>
    run_scripts S (map mg_UpSQL ms) s = Inr (sd_schema (mw_db w)) \<Longrightarrow>
    \<exists>w'. down_loop S full c (rev (map mg_Version ms)) w = ((c + length ms, None), w') \<and>
      sd_rows (mw_db w') = Some [] \<and> sd_schema (mw_db w') = s"
proof (induction ms arbitrary: c w rule: rev_induct)
  case (snoc m ms)
  obtain s1 where s1: "run_scripts S (map mg_UpSQL ms) s = Inr s1"
    and up: "sv_script S (mg_UpSQL m) s1 = Inr (sd_schema (mw_db w))"
    using snoc.prems(5) by (auto simp: run_scripts_append and_then_Inr_iff)
  have inv: "inverse_along S ms s" and down: "sv_script S (mg_DownSQL m) (sd_schema (mw_db w)) = Inr s1"
    using inverse_along_snoc [OF snoc.prems(1) s1] up by simp_all
  have found: "find (\<lambda>x. mg_Version x = mg_Version m) (rev full) = Some m"
  proof -
    have m: "m \<in> set (rev full)" using snoc.prems(2) by simp
    then obtain x where x: "find (\<lambda>x. mg_Version x = mg_Version m) (rev full) = Some x"
      by (cases "find (\<lambda>x. mg_Version x = mg_Version m) (rev full)") (auto simp: find_None_iff)
    then have "x = m" using full m found_migration [OF x] by (auto simp: distinct_map inj_on_eq_iff)
    then show ?thesis using x by simp
  qed
  obtain w1 where w1: "applyOne S m False w = (Inr (), w1)" and "sd_rows (mw_db w1) = Some (map row_of ms)"
    "sd_schema (mw_db w1) = s1"
  proof -
    have "filter (\<lambda>r. fst r \<noteq> mg_Version m) (map row_of (ms @ [m])) = map row_of ms"
      using snoc.prems(3) by (auto simp: filter_id_conv row_of_def) (metis image_eqI)
    then show thesis
      using that assms(1) fault down snoc.prems(4)
      by (simp add: applyOne_def mbind_def wrapped_def locked_def rolled_back_def commit_def run_script_def
          sql_unrecord_def Let_def)
  qed
  then show ?case
    using snoc.IH [OF inv, of w1 "Suc c"] snoc.prems s1 found by simp
qed simp

lemma newest_versions_sorted:
  assumes "sorted_wrt (\<lambda>a b. sint (mg_Version a) < sint (mg_Version b)) ms"
  shows "newest_versions (map mg_Version ms) 0 = rev (map mg_Version ms)"
proof -
  have "sort_key (\<lambda>v. - sint v) (map mg_Version ms) = rev (map mg_Version ms)"
  proof (rule sort_key_inj_key_eq)
    show "mset (map mg_Version ms) = mset (rev (map mg_Version ms))" by simp
    show "inj_on (\<lambda>v. - sint v) (set (map mg_Version ms))" by (auto simp: inj_on_def sint_eq_iff)
    show "sorted (map (\<lambda>v. - sint v) (rev (map mg_Version ms)))"
      using assms
      by (auto simp: sorted_wrt_rev sorted_wrt_map rev_map [symmetric] elim!: sorted_wrt_mono_rel [rotated])
  qed
  then show ?thesis by (simp add: newest_versions_def)
qed

lemma Up_outcome:
  assumes "alone S" and "migrate_Up S ms w = ((n, err), w')"
    and "todo = filter (\<lambda>m. mg_Version m \<notin> fst ` set (recorded (mw_db w))) ms"
  shows "\<exists>k \<le> length todo. recorded (mw_db w') = recorded (mw_db w) @ map row_of (take k todo) \<and>
    run_scripts S (map mg_UpSQL (take k todo)) (sd_schema (mw_db w)) = Inr (sd_schema (mw_db w')) \<and>
    (err = None \<longrightarrow> sd_rows (mw_db w') \<noteq> None) \<and>
    (case err of None \<Rightarrow> n = k \<and> k = length todo
     | Some _ \<Rightarrow> n = k \<or> Suc n = k \<and> (\<exists>i. sv_ack_lost S i))"
proof -
  obtain r w1 where q: "mbind (create_table S) (\<lambda>_. appliedVersions S) w = (r, w1)"
    by (cases "mbind (create_table S) (\<lambda>_. appliedVersions S) w")
  note start = create_and_list [OF assms(1) q]
  show ?thesis
  proof (cases r)
    case (Inl e)
    then have "n = 0" "err = Some e" "w' = w1" using assms(2) q by (simp_all add: migrate_Up_def)
    then show ?thesis using start(1,2) by (intro exI [of _ 0]) simp
  next
    case (Inr applied)
    then have "up_loop S applied 0 ms w1 = ((n, err), w')" using assms(2) q by (simp add: migrate_Up_def)
    moreover have "todo = filter (\<lambda>m. mg_Version m \<notin> set applied) ms"
      using assms(3) start(3) [OF Inr] by simp
    ultimately obtain k where "k \<le> length todo"
      "recorded (mw_db w') = recorded (mw_db w1) @ map row_of (take k todo)"
      "run_scripts S (map mg_UpSQL (take k todo)) (sd_schema (mw_db w1)) = Inr (sd_schema (mw_db w'))"
      "sd_rows (mw_db w1) \<noteq> None \<longrightarrow> sd_rows (mw_db w') \<noteq> None"
      "case err of None \<Rightarrow> n = 0 + k \<and> k = length todo
       | Some _ \<Rightarrow> n = 0 + k \<or> Suc n = 0 + k \<and> (\<exists>i. sv_ack_lost S i)"
      using up_loop_outcome [OF assms(1)] by blast
    then show ?thesis using start(1,2) start(3) [OF Inr] by (intro exI [of _ k]) (cases err; simp)
  qed
qed

lemma Down_outcome:
  assumes "alone S" and "migrate_Down S ms steps w = ((n, err), w')"
    and "versions = newest_versions (map fst (recorded (mw_db w))) steps"
  shows "\<exists>k \<le> length versions. reverted S ms (take k versions) (mw_db w) (mw_db w') \<and>
    (case err of None \<Rightarrow> n = k \<and> k = length versions
     | Some _ \<Rightarrow> n = k \<or> Suc n = k \<and> (\<exists>i. sv_ack_lost S i))"
proof -
  obtain r w1 where q: "mbind (create_table S) (\<lambda>_. appliedVersions S) w = (r, w1)"
    by (cases "mbind (create_table S) (\<lambda>_. appliedVersions S) w")
  note start = create_and_list [OF assms(1) q]
  show ?thesis
  proof (cases r)
    case (Inl e)
    then have "n = 0" "err = Some e" "w' = w1" using assms(2) q by (simp_all add: migrate_Down_def)
    then show ?thesis using start(1,2) by (intro exI [of _ 0]) simp
  next
    case (Inr applied)
    then have "down_loop S ms 0 versions w1 = ((n, err), w')"
      using assms(2,3) q start(3) [OF Inr] by (simp add: migrate_Down_def)
    from down_loop_outcome [OF assms(1) this] show ?thesis
      using start(1,2) unfolding reverted_def by (simp only: add_0)
  qed
qed

lemma list_applied:
  assumes "alone S" and "\<forall>i. sv_fault S i = None" and "sd_rows (mw_db w) = Some rs"
  shows "\<exists>w1. mbind (create_table S) (\<lambda>_. appliedVersions S) w = (Inr (map fst rs), w1) \<and> mw_db w1 = mw_db w"
  using assms
  by (simp add: create_table_def appliedVersions_def mbind_def wrapped_def locked_def sql_create_table_def
      sql_versions_def Let_def)

lemma up_loop_nothing: "\<forall>m \<in> set ms. mg_Version m \<in> set applied \<Longrightarrow> up_loop S applied c ms w = ((c, None), w)"
  by (induction ms) simp_all

subsection \<open>The other instance\<close>

text \<open>
  The versions are read before the lock is taken: when another instance applies a migration
  meanwhile, this one fails (at the script or at the row's primary key) although the schema is
  up to date.
\<close>

lemma Up_loses_race:
  assumes "sd_rows (mw_db w) = Some []" and "\<forall>i. sv_fault S i = None"
    and "\<forall>i d. sv_others S i d =
      (if i = mw_step w + 3 then \<lparr>sd_rows = Some [row_of m], sd_schema = s\<rparr> else d)"
  shows "\<exists>err w'. migrate_Up S [m] w = ((0, Some err), w') \<and>
    mw_db w' = \<lparr>sd_rows = Some [row_of m], sd_schema = s\<rparr>"
  using assms
  by (cases "sv_script S (mg_UpSQL m) s")
    (simp_all add: migrate_Up_def mbind_def create_table_def appliedVersions_def wrapped_def shared_def locked_def
      sql_create_table_def sql_versions_def applyOne_def rolled_back_def run_script_def sql_record_def row_of_def
      Let_def eval_nat_numeral)

subsection \<open>A sample\<close>

definition sample_server :: "string list server" where
  "sample_server = \<lparr>sv_script = (\<lambda>x s. if x = ''create'' then Inr (''t'' # s) else Inr (tl s)),
     sv_fault = (\<lambda>_. None), sv_ack_lost = (\<lambda>_. False), sv_others = (\<lambda>_ d. d)\<rparr>"

definition failing_server :: "string list server" where
  "failing_server = sample_server\<lparr>sv_fault := (\<lambda>i. if i = 9 then Some ''connection reset'' else None)\<rparr>"

definition sample_migrations :: "Migration list" where
  "sample_migrations =
     [\<lparr>mg_Version = 1, mg_Name = ''init'', mg_UpSQL = ''create'', mg_DownSQL = ''drop''\<rparr>,
      \<lparr>mg_Version = 2, mg_Name = ''more'', mg_UpSQL = ''create'', mg_DownSQL = ''drop''\<rparr>]"

definition sample_empty :: "string list migration_world" where
  "sample_empty = \<lparr>mw_step = 0, mw_db = \<lparr>sd_rows = None, sd_schema = []\<rparr>\<rparr>"

definition sample_directory :: "dir_entry list" where
  "sample_directory =
     [\<lparr>de_Name = ''0001_init.down.sql'', de_IsDir = False, de_Content = Inr ''drop''\<rparr>,
      \<lparr>de_Name = ''0001_init.up.sql'', de_IsDir = False, de_Content = Inr ''create''\<rparr>,
      \<lparr>de_Name = ''embed.go'', de_IsDir = False, de_Content = Inr ''x''\<rparr>]"

lemma sample_alone: "alone sample_server" "alone failing_server"
  by (simp_all add: alone_def sample_server_def failing_server_def)

lemma sample_up: "\<exists>w1. migrate_Up sample_server sample_migrations sample_empty = ((2, None), w1)"
  by (simp add: sample_server_def sample_migrations_def sample_empty_def migrate_Up_def mbind_def create_table_def
      appliedVersions_def wrapped_def shared_def locked_def sql_create_table_def sql_versions_def applyOne_def
      rolled_back_def run_script_def sql_record_def commit_def Let_def)

lemma failing_up:
  "\<exists>w1. migrate_Up failing_server sample_migrations sample_empty =
     ((1, Some (WrapError ''migrate: apply'' (LibError ''connection reset''))), w1)"
  by (simp add: failing_server_def sample_server_def sample_migrations_def sample_empty_def migrate_Up_def
      mbind_def create_table_def appliedVersions_def wrapped_def shared_def locked_def sql_create_table_def
      sql_versions_def applyOne_def rolled_back_def run_script_def sql_record_def commit_def Let_def)

lemma sample_load:
  "migrate_Load (\<lambda>xs. xs) (Inr sample_directory) =
     Inr [\<lparr>mg_Version = 1, mg_Name = ''init'', mg_UpSQL = ''create'', mg_DownSQL = ''drop''\<rparr>]"
  by code_simp

subsection \<open>Properties\<close>

text \<open>
  (C32) What is loaded: the migrations in strictly increasing version order, each with an up and a
  down script that are the contents of files named after its version and name, and none of the
  versions that a script file names is missing, in whatever order the runtime ranges over maps.
\<close>

theorem Load_exact:
  assumes "migrate_Load order (Inr es) = Inr ms"
    and "\<forall>xs. set (order xs) = set xs \<and> length (order xs) = length xs"
  shows "sorted_wrt (\<lambda>a b. sint (mg_Version a) < sint (mg_Version b)) ms \<and>
    (\<forall>m \<in> set ms. TrimSpace (mg_UpSQL m) \<noteq> '''' \<and> TrimSpace (mg_DownSQL m) \<noteq> '''' \<and>
       script_file es (mg_Version m) (mg_Name m) True (mg_UpSQL m) \<and>
       script_file es (mg_Version m) (mg_Name m) False (mg_DownSQL m)) \<and>
    (\<forall>version nm up sql. script_file es version nm up sql \<longrightarrow>
       (\<exists>m \<in> set ms. mg_Version m = version \<and> mg_Name m = nm))"
proof -
  obtain byVersion where l: "load_entries [] es = Inr byVersion" "check_scripts (order byVersion) = Inr ()"
    and ms: "ms = sort_key (\<lambda>m. sint (mg_Version m)) (order byVersion)"
    using assms(1) by (auto simp: migrate_Load_def and_then_Inr_iff Let_def split: if_splits)
  have inv: "load_inv es byVersion"
    using load_entries_inv [OF l(1), of "[]"] by (simp add: load_inv_def script_file_def)
  have same: "set ms = set byVersion" using assms(2) by (simp add: ms)
  have "distinct (map mg_Version (order byVersion))"
  proof -
    have "set (map mg_Version (order byVersion)) = set (map mg_Version byVersion)" using assms(2) by simp
    moreover have "distinct (map mg_Version byVersion)" using inv by (simp add: load_inv_def)
    ultimately show ?thesis
      using assms(2) by (metis card_distinct distinct_card length_map)
  qed
  then have "sorted_wrt (\<lambda>a b. sint (mg_Version a) < sint (mg_Version b)) ms"
    unfolding ms by (rule sorted_versions)
  moreover have "TrimSpace (mg_UpSQL m) \<noteq> '''' \<and> TrimSpace (mg_DownSQL m) \<noteq> '''' \<and>
      script_file es (mg_Version m) (mg_Name m) True (mg_UpSQL m) \<and>
      script_file es (mg_Version m) (mg_Name m) False (mg_DownSQL m)" if m: "m \<in> set ms" for m
  proof -
    have t: "TrimSpace (mg_UpSQL m) \<noteq> ''''" "TrimSpace (mg_DownSQL m) \<noteq> ''''"
      using l(2) m same assms(2) by (simp_all add: check_scripts_ok)
    then have "mg_UpSQL m \<noteq> ''''" "mg_DownSQL m \<noteq> ''''" using TrimSpace_empty by auto
    then show ?thesis using t inv m same by (auto simp: load_inv_def)
  qed
  moreover have "\<exists>m \<in> set ms. mg_Version m = version \<and> mg_Name m = nm"
    if "script_file es version nm up sql" for version nm up sql
    using that inv same unfolding load_inv_def by blast
  ultimately show ?thesis by blast
qed

theorem Load_exact_witness:
  "script_file sample_directory 1 ''init'' True ''create'' \<and> script_file sample_directory 1 ''init'' False ''drop''"
  using Load_exact [OF sample_load] by simp

text \<open>
  (C33) Applying: run alone, \<open>Up\<close> applies the missing migrations one after the other in version
  order, each with its row or not at all, whatever fails: the rows grow by those of the first k of
  them and the schema is that of running exactly their scripts; the count is k, and all are
  applied when there is no error (an error may hide one COMMIT whose answer was lost).
\<close>

theorem Up_applies_missing:
  assumes "alone S" and "migrate_Up S ms w = ((n, err), w')"
    and "todo = filter (\<lambda>m. mg_Version m \<notin> fst ` set (recorded (mw_db w))) ms"
  shows "\<exists>k \<le> length todo. recorded (mw_db w') = recorded (mw_db w) @ map row_of (take k todo) \<and>
    run_scripts S (map mg_UpSQL (take k todo)) (sd_schema (mw_db w)) = Inr (sd_schema (mw_db w')) \<and>
    (case err of None \<Rightarrow> n = k \<and> k = length todo
     | Some _ \<Rightarrow> n = k \<or> Suc n = k \<and> (\<exists>i. sv_ack_lost S i))"
  using Up_outcome [OF assms] by blast

theorem Up_applies_missing_witness:
  "\<exists>w'. fst (migrate_Up failing_server sample_migrations sample_empty) =
       (1, Some (WrapError ''migrate: apply'' (LibError ''connection reset''))) \<and>
     snd (migrate_Up failing_server sample_migrations sample_empty) = w' \<and> recorded (mw_db w') = [(1, ''init'')]"
proof -
  obtain w1 where w1: "migrate_Up failing_server sample_migrations sample_empty =
     ((1, Some (WrapError ''migrate: apply'' (LibError ''connection reset''))), w1)"
    using failing_up by blast
  have none: "recorded (mw_db sample_empty) = []" by (simp add: sample_empty_def recorded_def)
  have "\<not> (\<exists>i. sv_ack_lost failing_server i)" by (simp add: failing_server_def sample_server_def)
  then have "recorded (mw_db w1) = map row_of (take 1 sample_migrations)"
    using Up_applies_missing [OF sample_alone(2) w1 refl] by (auto simp: none)
  then show ?thesis using w1 by (simp add: sample_migrations_def row_of_def)
qed

text \<open>
  (C34) Reverting undoes applying: on a database without migrations, when nothing fails and each down
  script takes the schema that its up script has left in this very run back to the one the up script
  has found, reverting everything that \<open>Up\<close> applied restores the schema, runs as many down scripts as
  up scripts and leaves no row; and applying a second time applies nothing and changes nothing. The
  condition is on the schemas of the run only: scripts that create or replace what may exist already,
  as those of the repository do, satisfy it on an empty schema.
\<close>

theorem Down_undoes_Up:
  assumes "alone S" and "\<forall>i. sv_fault S i = None" and "inverse_along S ms (sd_schema (mw_db w))"
    and "sorted_wrt (\<lambda>a b. sint (mg_Version a) < sint (mg_Version b)) ms"
    and "recorded (mw_db w) = []" and "migrate_Up S ms w = ((n, None), w1)"
  shows "(\<exists>w2. migrate_Down S ms 0 w1 = ((n, None), w2) \<and> recorded (mw_db w2) = [] \<and>
      sd_schema (mw_db w2) = sd_schema (mw_db w)) \<and>
    (\<exists>w2. migrate_Up S ms w1 = ((0, None), w2) \<and> mw_db w2 = mw_db w1)"
proof -
  have todo: "ms = filter (\<lambda>m. mg_Version m \<notin> fst ` set (recorded (mw_db w))) ms" using assms(5) by simp
  have up: "recorded (mw_db w1) = map row_of ms" "sd_rows (mw_db w1) \<noteq> None" "n = length ms"
    "run_scripts S (map mg_UpSQL ms) (sd_schema (mw_db w)) = Inr (sd_schema (mw_db w1))"
    using Up_outcome [OF assms(1,6) todo] assms(5) by auto
  then have rows: "sd_rows (mw_db w1) = Some (map row_of ms)" by (auto simp: recorded_def)
  have versions: "map fst (map row_of ms) = map mg_Version ms" by (simp add: row_of_def)
  have "sorted_wrt (<) (map (\<lambda>m. sint (mg_Version m)) ms)"
    using assms(4) by (simp add: sorted_wrt_map)
  then have "distinct (map (\<lambda>m. sint (mg_Version m)) ms)" by (simp add: strict_sorted_iff)
  then have d: "distinct (map mg_Version ms)" by (auto simp: distinct_map inj_on_def)
  obtain u where u: "mbind (create_table S) (\<lambda>_. appliedVersions S) w1 = (Inr (map mg_Version ms), u)"
    and db: "mw_db u = mw_db w1"
    using list_applied [OF assms(1,2) rows] unfolding versions by blast
  obtain w2 where w2: "down_loop S ms 0 (rev (map mg_Version ms)) u = ((0 + length ms, None), w2)"
    "sd_rows (mw_db w2) = Some []" "sd_schema (mw_db w2) = sd_schema (mw_db w)"
    using down_loop_undoes [OF assms(1,2) d assms(3) subset_refl d, of u 0] rows up(4) db by auto
  have "migrate_Down S ms 0 w1 = ((n, None), w2)"
    using u w2(1) up(3) newest_versions_sorted [OF assms(4)] by (simp add: migrate_Down_def)
  moreover have "migrate_Up S ms w1 = ((0, None), u)"
    using u by (simp add: migrate_Up_def up_loop_nothing)
  ultimately show ?thesis using w2(2,3) db by (auto simp: recorded_def)
qed

text \<open>
  An up script that creates or replaces a function and a down script that drops it: the down script
  does not undo the up script on a schema that has the function already, but it does on this run.
\<close>

definition replacing_server :: "string list server" where
  "replacing_server = sample_server\<lparr>sv_script := (\<lambda>x s.
     if x = ''create'' then Inr (if ''f'' \<in> set s then s else ''f'' # s) else Inr (removeAll ''f'' s))\<rparr>"

definition replacing_migrations :: "Migration list" where
  "replacing_migrations = [\<lparr>mg_Version = 1, mg_Name = ''init'', mg_UpSQL = ''create'', mg_DownSQL = ''drop''\<rparr>]"

lemma replacing_up: "\<exists>w1. migrate_Up replacing_server replacing_migrations sample_empty = ((1, None), w1)"
  by (simp add: replacing_server_def sample_server_def replacing_migrations_def sample_empty_def migrate_Up_def
      mbind_def create_table_def appliedVersions_def wrapped_def shared_def locked_def sql_create_table_def
      sql_versions_def applyOne_def rolled_back_def run_script_def sql_record_def commit_def Let_def)

theorem Down_undoes_Up_witness:
  "\<exists>w1 w2. migrate_Up replacing_server replacing_migrations sample_empty = ((1, None), w1) \<and>
     migrate_Down replacing_server replacing_migrations 0 w1 = ((1, None), w2) \<and> sd_schema (mw_db w2) = []"
proof -
  obtain w1 where w1: "migrate_Up replacing_server replacing_migrations sample_empty = ((1, None), w1)"
    using replacing_up by blast
  have alone: "alone replacing_server" and ok: "\<forall>i. sv_fault replacing_server i = None"
    by (simp_all add: alone_def replacing_server_def sample_server_def)
  have inv: "inverse_along replacing_server replacing_migrations (sd_schema (mw_db sample_empty))"
    by (simp add: replacing_migrations_def replacing_server_def sample_empty_def)
  have sorted: "sorted_wrt (\<lambda>a b. sint (mg_Version a) < sint (mg_Version b)) replacing_migrations"
    by (simp add: replacing_migrations_def)
  have empty: "recorded (mw_db sample_empty) = []" by (simp add: sample_empty_def recorded_def)
  from Down_undoes_Up [OF alone ok inv sorted empty w1] w1 show ?thesis
    by (simp add: sample_empty_def) blast
qed

end
