(* ===== verification/Bootstrap.thy ===== *)
theory Bootstrap
  imports Service Sqs_Queues Migrate
begin

section \<open>Composition (internal/bootstrap/app.go)\<close>

text \<open>
  How the loaded configuration reaches the services: the settings each constructor is given, and
  the migrations that run before anything starts. The lifecycle hooks of the background work are
  in \<open>Lifecycle\<close>; the injection container is not modelled.
\<close>

definition wager_config :: "app_config \<Rightarrow> Config" where
  "wager_config cfg =
     \<lparr>cf_MaxWalletRetries = 5,
      cf_ReferenceMaxAttempts = wc_ReferenceMaxAttempts (ac_Workers cfg),
      cf_ReferenceBaseBackoff = wc_ReferenceBaseBackoff (ac_Workers cfg),
      cf_ReferenceMaxBackoff = wc_ReferenceMaxBackoff (ac_Workers cfg)\<rparr>"

definition outbox_config :: "app_config \<Rightarrow> publisher_config" where
  "outbox_config cfg =
     \<lparr>pc_BatchSize = wc_OutboxBatchSize (ac_Workers cfg),
      pc_BaseBackoff = wc_OutboxBaseBackoff (ac_Workers cfg),
      pc_MaxBackoff = wc_OutboxMaxBackoff (ac_Workers cfg),
      pc_LockTTL = wc_OutboxLockTTL (ac_Workers cfg),
      pc_PublisherID = wc_PublisherID (ac_Workers cfg)\<rparr>"

text \<open>\<open>verify\<close> is the token verifier of the identity provider that was discovered.\<close>

definition NewVerifier ::
  "(nat \<Rightarrow> string \<Rightarrow> (string \<times> (string \<times> claim) list option) result) \<Rightarrow> app_config \<Rightarrow> Verifier" where
  "NewVerifier verify cfg =
     \<lparr>vf_verify = verify, vf_rolesClaim = ic_RolesClaim (ac_OIDC cfg),
      vf_providerClaim = ic_ProviderClaim (ac_OIDC cfg)\<rparr>"

definition compose ::
  "(nat \<Rightarrow> string \<Rightarrow> (string \<times> (string \<times> claim) list option) result) \<Rightarrow> health_probes \<Rightarrow> sqs_client \<Rightarrow>
   app_config \<Rightarrow> service" where
  "compose verify probes queues cfg =
     \<lparr>se_api = \<lparr>ap_config = NewService_config (wager_config cfg), ap_verifier = NewVerifier verify cfg,
        ap_probes = probes\<rparr>,
      se_queues = queues, se_publisher = NewPublisher_config (outbox_config cfg),
      se_batch = NewResolver_batch (wc_ReferenceBatchSize (ac_Workers cfg))\<rparr>"

text \<open>The migrations of the embedded directory, unless they are disabled.\<close>

definition runMigrations ::
  "'s server \<Rightarrow> (Migration list \<Rightarrow> Migration list) \<Rightarrow> dir_entry list result \<Rightarrow> app_config \<Rightarrow>
   's migration_world \<Rightarrow> goerror option \<times> 's migration_world" where
  "runMigrations S order fsys cfg w =
     (if \<not> ac_MigrationsEnabled cfg then (None, w)
      else case migrate_Load order fsys of
        Inl err \<Rightarrow> (Some err, w)
      | Inr loaded \<Rightarrow> (case migrate_Up S loaded w of ((n, err), w') \<Rightarrow> (err, w')))"

subsection \<open>Properties\<close>

text \<open>A duration of the publisher, which replaces one that is not positive by its default.\<close>

definition positive_or :: "duration \<Rightarrow> duration \<Rightarrow> duration" where
  "positive_or def d = (if 0 < sint d then d else def)"


text \<open>The three variables without a default, and a batch size.\<close>

definition sample_environment :: environment where
  "sample_environment =
     [''DATABASE_URL'' \<mapsto> ''postgres://db'', ''OIDC_ISSUER_URL'' \<mapsto> ''https://idp'', ''OIDC_AUDIENCE'' \<mapsto> ''api'',
      ''OUTBOX_BATCH_SIZE'' \<mapsto> '' 7 '']"


end
