(* ===== verification/Lifecycle.thy ===== *)
theory Lifecycle
  imports Main
begin

section \<open>Starting and stopping the background work (bootstrap/app.go, platform/worker, adapters/sqs)\<close>

text \<open>
  The lifecycle hooks of the resolver, the publisher and the queue consumer: each starts a goroutine
  and, when it is asked to stop, cancels its context and waits until the goroutine has returned or
  the time to stop has passed. Hooks, goroutine, ticker and deadline run interleaved; the step
  relations say what each may do next. What an iteration does is in the theories \<open>Workers\<close> and
  \<open>Sqs_Consumer\<close>.
\<close>

subsection \<open>The goroutines\<close>

text \<open>
  \<open>worker.Run\<close>: a first run, then a select between the ticker, whose channel holds at most one tick,
  and the cancellation; when both are ready, either may be taken.
\<close>

datatype worker_state = FirstRun | Running bool | AtSelect bool | WorkerDone

inductive worker_moves :: "bool \<Rightarrow> worker_state \<Rightarrow> worker_state \<Rightarrow> bool" for cancelled where
  first_run_ends: "worker_moves cancelled FirstRun (AtSelect False)"
| ticks: "worker_moves cancelled (AtSelect b) (AtSelect True)"
| ticks_while_running: "worker_moves cancelled (Running b) (Running True)"
| run_begins: "worker_moves cancelled (AtSelect True) (Running False)"
| run_ends: "worker_moves cancelled (Running b) (AtSelect b)"
| worker_returns: "cancelled \<Longrightarrow> worker_moves cancelled (AtSelect b) WorkerDone"

text \<open>
  \<open>Consumer.Run\<close>: the head of the loop looks at the context; a poll that fails looks at it again; a
  batch is processed to its end.
\<close>

datatype consumer_state = LoopHead | Receiving | BackingOff | Processing nat | ConsumerDone

inductive consumer_moves :: "bool \<Rightarrow> consumer_state \<Rightarrow> consumer_state \<Rightarrow> bool" for cancelled where
  consumer_returns: "cancelled \<Longrightarrow> consumer_moves cancelled LoopHead ConsumerDone"
| polls: "\<not> cancelled \<Longrightarrow> consumer_moves cancelled LoopHead Receiving"
| receives: "consumer_moves cancelled Receiving (Processing n)"
| poll_fails: "\<not> cancelled \<Longrightarrow> consumer_moves cancelled Receiving BackingOff"
| poll_breaks_off: "cancelled \<Longrightarrow> consumer_moves cancelled Receiving ConsumerDone"
| waited: "consumer_moves cancelled BackingOff LoopHead"
| processed: "consumer_moves cancelled (Processing (Suc n)) (Processing n)"
| batch_ends: "consumer_moves cancelled (Processing 0) LoopHead"

code_pred (modes: i \<Rightarrow> i \<Rightarrow> o \<Rightarrow> bool, i \<Rightarrow> i \<Rightarrow> i \<Rightarrow> bool) worker_moves .

inductive_cases worker_movesE: "worker_moves c g g'"
inductive_cases consumer_movesE: "consumer_moves c g g'"

inductive_simps worker_final: "worker_moves c WorkerDone g"
inductive_simps consumer_final: "consumer_moves c ConsumerDone g"

subsection \<open>The hooks\<close>

datatype stopping = NotAsked | Waiting | Stopped | GaveUp

record 'g hook =
  hk_goroutine :: "'g option"
  hk_cancelled :: bool
  hk_stop :: stopping
  hk_deadline :: bool

definition fresh_hook :: "'g hook" where
  "fresh_hook = \<lparr>hk_goroutine = None, hk_cancelled = False, hk_stop = NotAsked, hk_deadline = False\<rparr>"

text \<open>
  OnStart starts the goroutine. OnStop cancels the context and selects between the channel that the
  goroutine closes when it returns and the context of the stop, whose deadline may pass at any time.
\<close>

inductive hook_moves :: "(bool \<Rightarrow> 'g \<Rightarrow> 'g \<Rightarrow> bool) \<Rightarrow> 'g \<Rightarrow> 'g \<Rightarrow> 'g hook \<Rightarrow> 'g hook \<Rightarrow> bool"
  for moves start finish where
  on_start: "hk_goroutine h = None \<Longrightarrow> hook_moves moves start finish h (h\<lparr>hk_goroutine := Some start\<rparr>)"
| goroutine_moves: "hk_goroutine h = Some g \<Longrightarrow> moves (hk_cancelled h) g g' \<Longrightarrow>
    hook_moves moves start finish h (h\<lparr>hk_goroutine := Some g'\<rparr>)"
| on_stop: "hk_goroutine h = Some g \<Longrightarrow> hk_stop h = NotAsked \<Longrightarrow>
    hook_moves moves start finish h (h\<lparr>hk_cancelled := True, hk_stop := Waiting\<rparr>)"
| done_received: "hk_goroutine h = Some finish \<Longrightarrow> hk_stop h = Waiting \<Longrightarrow>
    hook_moves moves start finish h (h\<lparr>hk_stop := Stopped\<rparr>)"
| deadline_passes: "hook_moves moves start finish h (h\<lparr>hk_deadline := True\<rparr>)"
| stop_times_out: "hk_stop h = Waiting \<Longrightarrow> hk_deadline h \<Longrightarrow>
    hook_moves moves start finish h (h\<lparr>hk_stop := GaveUp\<rparr>)"

abbreviation hook_runs :: "(bool \<Rightarrow> 'g \<Rightarrow> 'g \<Rightarrow> bool) \<Rightarrow> 'g \<Rightarrow> 'g \<Rightarrow> 'g hook \<Rightarrow> 'g hook \<Rightarrow> bool" where
  "hook_runs moves start finish \<equiv> (hook_moves moves start finish)\<^sup>*\<^sup>*"

text \<open>
  What is expected of a hook: after a successful stop the goroutine has returned and stays so; it
  returns only for a stop; a stop that waits can succeed without waiting for its deadline.
\<close>

definition stops_cleanly :: "(bool \<Rightarrow> 'g \<Rightarrow> 'g \<Rightarrow> bool) \<Rightarrow> 'g \<Rightarrow> 'g \<Rightarrow> 'g hook \<Rightarrow> bool" where
  "stops_cleanly moves start finish h \<longleftrightarrow>
     (hk_stop h = Stopped \<longrightarrow> (\<forall>h'. hook_runs moves start finish h h' \<longrightarrow> hk_goroutine h' = Some finish)) \<and>
     (hk_goroutine h = Some finish \<longrightarrow> hk_cancelled h) \<and>
     (hk_stop h = Waiting \<longrightarrow>
        (\<exists>h'. hook_runs moves start finish h h' \<and> hk_stop h' = Stopped \<and> hk_deadline h' = hk_deadline h))"

subsection \<open>The contract of a goroutine that can be stopped\<close>

text \<open>
  It never runs again after it has returned, it returns only when its context is cancelled, and
  once it is, it is able to return whatever it is doing.
\<close>

locale stoppable =
  fixes moves :: "bool \<Rightarrow> 'g \<Rightarrow> 'g \<Rightarrow> bool" and start :: 'g and finish :: 'g
  assumes finish_final: "\<not> moves c finish g'"
    and returns_if_cancelled: "moves c g finish \<Longrightarrow> c"
    and starts_running: "start \<noteq> finish"
    and can_return: "(moves True)\<^sup>*\<^sup>* g finish"
begin

definition orderly :: "'g hook \<Rightarrow> bool" where
  "orderly h \<longleftrightarrow> (hk_stop h \<noteq> NotAsked \<longrightarrow> hk_cancelled h \<and> hk_goroutine h \<noteq> None) \<and>
     (hk_stop h = Stopped \<longrightarrow> hk_goroutine h = Some finish) \<and>
     (hk_goroutine h = Some finish \<longrightarrow> hk_cancelled h)"

lemma orderly_moves: "hook_moves moves start finish h h' \<Longrightarrow> orderly h \<Longrightarrow> orderly h'"
  by (induction rule: hook_moves.induct)
    (auto simp: orderly_def starts_running finish_final dest: returns_if_cancelled)

lemma orderly_runs: "hook_runs moves start finish fresh_hook h \<Longrightarrow> orderly h"
proof (induction rule: rtranclp_induct)
  case base
  show ?case by (simp add: orderly_def fresh_hook_def)
qed (rule orderly_moves)

lemma finished_stays:
  "hook_runs moves start finish h h' \<Longrightarrow> hk_goroutine h = Some finish \<Longrightarrow> hk_goroutine h' = Some finish"
proof (induction rule: rtranclp_induct)
  case (step y z)
  then have "hk_goroutine y = Some finish" by blast
  with step.hyps(2) show ?case by cases (auto simp: finish_final)
qed

lemma cancelled_goroutine_runs:
  assumes "(moves True)\<^sup>*\<^sup>* g g'" and "hk_goroutine h = Some g" and "hk_cancelled h"
  shows "hook_runs moves start finish h (h\<lparr>hk_goroutine := Some g'\<rparr>)"
  using assms
proof (induction rule: rtranclp_induct)
  case base
  then have "h\<lparr>hk_goroutine := Some g\<rparr> = h" by simp
  then show ?case by simp
next
  case (step y z)
  let ?h = "h\<lparr>hk_goroutine := Some y\<rparr>"
  have "hook_moves moves start finish ?h (?h\<lparr>hk_goroutine := Some z\<rparr>)"
    using step by (intro goroutine_moves) auto
  then show ?case using step by (simp add: rtranclp.rtrancl_into_rtrancl)
qed

lemma can_stop:
  assumes "orderly h" and "hk_stop h = Waiting"
  shows "\<exists>h'. hook_runs moves start finish h h' \<and> hk_stop h' = Stopped \<and> hk_deadline h' = hk_deadline h"
proof -
  obtain g where g: "hk_goroutine h = Some g" "hk_cancelled h" using assms by (auto simp: orderly_def)
  let ?h = "h\<lparr>hk_goroutine := Some finish\<rparr>"
  have "hook_moves moves start finish ?h (?h\<lparr>hk_stop := Stopped\<rparr>)"
    using assms(2) by (intro done_received) auto
  with cancelled_goroutine_runs [OF can_return g]
  have "hook_runs moves start finish h (?h\<lparr>hk_stop := Stopped\<rparr>)" by (rule rtranclp.rtrancl_into_rtrancl)
  then show ?thesis by (intro exI [of _ "?h\<lparr>hk_stop := Stopped\<rparr>"]) simp
qed

lemma clean:
  assumes "hook_runs moves start finish fresh_hook h"
  shows "stops_cleanly moves start finish h"
proof -
  have o: "orderly h" using assms by (rule orderly_runs)
  then have "hk_stop h = Stopped \<Longrightarrow> hk_goroutine h = Some finish" "hk_goroutine h = Some finish \<Longrightarrow> hk_cancelled h"
    by (simp_all add: orderly_def)
  then show ?thesis using can_stop [OF o] finished_stays [of h] unfolding stops_cleanly_def by blast
qed

end

subsection \<open>Both kinds of goroutine can be stopped\<close>

lemma worker_can_return: "(worker_moves True)\<^sup>*\<^sup>* g WorkerDone"
proof -
  note first = converse_rtranclp_into_rtranclp [of "worker_moves True"]
  have sel: "(worker_moves True)\<^sup>*\<^sup>* (AtSelect b) WorkerDone" for b
    by (rule r_into_rtranclp) (simp add: worker_returns)
  show ?thesis
  proof (cases g)
    case FirstRun
    then show ?thesis using first [OF first_run_ends sel] by simp
  next
    case (Running b)
    then show ?thesis using first [OF run_ends sel] by simp
  qed (simp_all add: sel)
qed

lemma consumer_can_return: "(consumer_moves True)\<^sup>*\<^sup>* g ConsumerDone"
proof -
  note first = converse_rtranclp_into_rtranclp [of "consumer_moves True"]
  have head: "(consumer_moves True)\<^sup>*\<^sup>* LoopHead ConsumerDone"
    by (rule r_into_rtranclp) (simp add: consumer_returns)
  have batch: "(consumer_moves True)\<^sup>*\<^sup>* (Processing n) ConsumerDone" for n
  proof (induction n)
    case 0
    show ?case by (rule first [OF batch_ends head])
  next
    case (Suc n)
    show ?case by (rule first [OF processed Suc])
  qed
  have poll: "(consumer_moves True)\<^sup>*\<^sup>* Receiving ConsumerDone"
    by (rule r_into_rtranclp) (simp add: poll_breaks_off)
  show ?thesis
    by (cases g) (simp_all add: head batch poll first [OF waited head])
qed

interpretation worker_loop: stoppable worker_moves FirstRun WorkerDone
  by unfold_locales (auto simp: worker_final intro: worker_can_return elim: worker_movesE)

interpretation consumer_loop: stoppable consumer_moves LoopHead ConsumerDone
  by unfold_locales (auto simp: consumer_final intro: consumer_can_return elim: consumer_movesE)


subsection \<open>Properties\<close>

text \<open>
  (C38) Background work stops cleanly, however hooks, goroutines, ticks and the deadline interleave:
  when a stop hook of a worker or of the queue consumer reports success, the goroutine has returned
  and never runs again; it returns for no other reason than a stop; while a stop waits, the
  goroutine can always finish what it is doing and let the stop succeed before the deadline; and
  once it is asked to stop, the consumer begins no further poll.
\<close>

theorem background_stops_cleanly:
  "(hook_runs worker_moves FirstRun WorkerDone fresh_hook h \<longrightarrow> stops_cleanly worker_moves FirstRun WorkerDone h) \<and>
   (hook_runs consumer_moves LoopHead ConsumerDone fresh_hook k \<longrightarrow>
      stops_cleanly consumer_moves LoopHead ConsumerDone k \<and>
      (\<forall>k'. hk_cancelled k \<longrightarrow> hook_moves consumer_moves LoopHead ConsumerDone k k' \<longrightarrow>
         hk_goroutine k' = Some Receiving \<longrightarrow> hk_goroutine k = Some Receiving))"
proof (intro conjI impI allI)
  assume "hook_runs worker_moves FirstRun WorkerDone fresh_hook h"
  then show "stops_cleanly worker_moves FirstRun WorkerDone h" by (rule worker_loop.clean)
next
  assume "hook_runs consumer_moves LoopHead ConsumerDone fresh_hook k"
  then show "stops_cleanly consumer_moves LoopHead ConsumerDone k" by (rule consumer_loop.clean)
next
  fix k'
  assume "hk_cancelled k" and "hook_moves consumer_moves LoopHead ConsumerDone k k'"
    and "hk_goroutine k' = Some Receiving"
  from this(2,1,3) show "hk_goroutine k = Some Receiving"
    by cases (auto elim: consumer_movesE)
qed

text \<open>A stop during the first run, with a tick that comes meanwhile.\<close>

lemma sample_stop:
  "hook_runs worker_moves FirstRun WorkerDone fresh_hook
     \<lparr>hk_goroutine = Some WorkerDone, hk_cancelled = True, hk_stop = Stopped, hk_deadline = False\<rparr>"
proof -
  let ?m = "hook_moves worker_moves FirstRun WorkerDone"
  let ?h = "\<lambda>g c s. \<lparr>hk_goroutine = g, hk_cancelled = c, hk_stop = s, hk_deadline = False\<rparr>"
  have "?m fresh_hook (?h (Some FirstRun) False NotAsked)"
    using on_start [of fresh_hook] by (simp add: fresh_hook_def)
  moreover have "?m (?h (Some FirstRun) False NotAsked) (?h (Some FirstRun) True Waiting)"
    using on_stop [of "?h (Some FirstRun) False NotAsked"] by simp
  moreover have "?m (?h (Some FirstRun) True Waiting) (?h (Some (AtSelect False)) True Waiting)"
    using goroutine_moves [of "?h (Some FirstRun) True Waiting"] first_run_ends by fastforce
  moreover have "?m (?h (Some (AtSelect False)) True Waiting) (?h (Some (AtSelect True)) True Waiting)"
    using goroutine_moves [of "?h (Some (AtSelect False)) True Waiting"] ticks by fastforce
  moreover have "?m (?h (Some (AtSelect True)) True Waiting) (?h (Some WorkerDone) True Waiting)"
    using goroutine_moves [of "?h (Some (AtSelect True)) True Waiting"] worker_returns by fastforce
  moreover have "?m (?h (Some WorkerDone) True Waiting) (?h (Some WorkerDone) True Stopped)"
    using done_received [of "?h (Some WorkerDone) True Waiting"] by fastforce
  ultimately show ?thesis
    by (meson converse_rtranclp_into_rtranclp r_into_rtranclp)
qed

theorem background_stops_cleanly_witness:
  "\<exists>h. hk_stop h = Stopped \<and> hk_goroutine h = Some WorkerDone \<and> stops_cleanly worker_moves FirstRun WorkerDone h"
  using background_stops_cleanly [THEN conjunct1, THEN mp, OF sample_stop] by (intro exI conjI) simp_all

end
