(* ===== verification/Observability.thy ===== *)
theory Observability
  imports Http_Api Sqs_Client
begin

section \<open>Metrics (platform/observability/metrics.go, httpapi/middleware.go)\<close>

text \<open>
  The instruments behind the metrics that the services record, and the middleware that counts HTTP
  requests. The Prometheus client is a parameter; what the code relies on of it is
  \<open>documented_client\<close>. Counters and gauges are floats there and integers here (the same up to
  2 ^ 53); of a histogram the number of observations is read, as durations are not modelled. The
  collectors of the Go runtime, which are registered as well, are the library's.
\<close>

subsection \<open>Instruments\<close>

datatype instrument_kind = Counter | Gauge | Histogram

record instrument =
  in_name :: string
  in_kind :: instrument_kind
  in_labels :: "string list"

text \<open>
  The client over its registries \<open>'p\<close>: a panic is \<open>None\<close>. The series of an instrument is found by the
  instrument's name and the values of its labels (\<open>WithLabelValues\<close>); \<open>pr_registered\<close> and
  \<open>pr_value\<close> are what a scrape would show.
\<close>

record 'p prometheus =
  pr_NewRegistry :: 'p
  pr_Register :: "instrument \<Rightarrow> 'p \<Rightarrow> 'p option"
  pr_Inc :: "string \<Rightarrow> string list \<Rightarrow> 'p \<Rightarrow> 'p option"
  pr_Observe :: "string \<Rightarrow> string list \<Rightarrow> 'p \<Rightarrow> 'p option"
  pr_Set :: "string \<Rightarrow> int \<Rightarrow> 'p \<Rightarrow> 'p option"
  pr_registered :: "'p \<Rightarrow> instrument list"
  pr_value :: "'p \<Rightarrow> string \<Rightarrow> string list \<Rightarrow> int"

definition metrics_instruments :: "instrument list" where
  "metrics_instruments = map (\<lambda>(n, k, ls). \<lparr>in_name = n, in_kind = k, in_labels = ls\<rparr>)
     [(''wager_transactions_total'', Counter, [''status'', ''kind'', ''failure_code'']),
      (''wager_idempotent_replays_total'', Counter, []),
      (''wallet_version_conflicts_total'', Counter, []),
      (''worker_retries_total'', Counter, [''worker'']),
      (''sqs_dlq_messages_total'', Counter, [''queue'']),
      (''reconciliation_runs_total'', Counter, [''consistent'']),
      (''outbox_published_total'', Counter, []),
      (''outbox_publish_latency_seconds'', Histogram, []),
      (''outbox_pending_events'', Gauge, []),
      (''wager_pending_transactions'', Gauge, []),
      (''http_requests_total'', Counter, [''route'', ''method'', ''status'']),
      (''http_request_duration_seconds'', Histogram, [''route'', ''method''])]"

text \<open>\<open>registry.MustRegister(...)\<close> and \<open>NewMetrics\<close>.\<close>

fun MustRegister :: "'p prometheus \<Rightarrow> instrument list \<Rightarrow> 'p \<Rightarrow> 'p option" where
  "MustRegister P [] r = Some r"
| "MustRegister P (i # is) r = (case pr_Register P i r of None \<Rightarrow> None | Some r' \<Rightarrow> MustRegister P is r')"

definition NewMetrics :: "'p prometheus \<Rightarrow> 'p option" where
  "NewMetrics P = MustRegister P metrics_instruments (pr_NewRegistry P)"

subsection \<open>The methods that record\<close>

definition both :: "('a \<Rightarrow> 'a option) \<Rightarrow> ('a \<Rightarrow> 'a option) \<Rightarrow> 'a \<Rightarrow> 'a option" where
  "both f g r = (case f r of None \<Rightarrow> None | Some r' \<Rightarrow> g r')"

fun record_in :: "'p prometheus \<Rightarrow> metric \<Rightarrow> 'p \<Rightarrow> 'p option" where
  "record_in P (RecordWagerTransaction st k code) = pr_Inc P ''wager_transactions_total'' [st, k, code]"
| "record_in P RecordIdempotentReplay = pr_Inc P ''wager_idempotent_replays_total'' []"
| "record_in P RecordWalletVersionConflict = pr_Inc P ''wallet_version_conflicts_total'' []"
| "record_in P (RecordWorkerRetry worker) = pr_Inc P ''worker_retries_total'' [worker]"
| "record_in P (RecordDLQMessage queue) = pr_Inc P ''sqs_dlq_messages_total'' [queue]"
| "record_in P (RecordReconciliationRun consistent) =
     pr_Inc P ''reconciliation_runs_total'' [if consistent then ''true'' else ''false'']"
| "record_in P (RecordOutboxPublished attempts) =
     both (pr_Inc P ''outbox_published_total'' []) (pr_Observe P ''outbox_publish_latency_seconds'' [])"
| "record_in P (SetOutboxPending n) = pr_Set P ''outbox_pending_events'' (int n)"
| "record_in P (SetPendingReferences n) = pr_Set P ''wager_pending_transactions'' (int n)"

definition ObserveHTTP :: "'p prometheus \<Rightarrow> string \<Rightarrow> string \<Rightarrow> string \<Rightarrow> 'p \<Rightarrow> 'p option" where
  "ObserveHTTP P route verb status =
     both (pr_Inc P ''http_requests_total'' [route, verb, status])
       (pr_Observe P ''http_request_duration_seconds'' [route, verb])"

subsection \<open>The middleware that counts requests\<close>

text \<open>The calls a handler makes on its \<open>http.ResponseWriter\<close>.\<close>

datatype writer_call = WriteHeader nat | Write payload

record status_recorder =
  re_status :: nat
  re_calls :: "writer_call list"

fun recorder_call :: "writer_call \<Rightarrow> status_recorder \<Rightarrow> status_recorder" where
  "recorder_call (WriteHeader status) r = r\<lparr>re_status := status, re_calls := re_calls r @ [WriteHeader status]\<rparr>"
| "recorder_call (Write body) r =
     r\<lparr>re_status := (if re_status r = 0 then 200 else re_status r), re_calls := re_calls r @ [Write body]\<rparr>"

definition run_recorder :: "writer_call list \<Rightarrow> status_recorder" where
  "run_recorder calls = fold recorder_call calls \<lparr>re_status = 0, re_calls = []\<rparr>"

text \<open>
  \<open>MetricsMiddleware\<close> around a handler that makes these calls; \<open>pattern\<close> is the pattern of the route
  that chi has found, empty when there is none. The recorder passes the calls on.
\<close>

definition MetricsMiddleware ::
  "'p prometheus \<Rightarrow> string \<Rightarrow> string \<Rightarrow> writer_call list \<Rightarrow> 'p \<Rightarrow> (writer_call list \<times> 'p) option" where
  "MetricsMiddleware P pattern verb calls reg =
     (let recorder = run_recorder calls;
          route = (if pattern \<noteq> [] then pattern else ''unmatched'');
          status = (if re_status recorder = 0 then 200 else re_status recorder)
      in case ObserveHTTP P route verb (int_str (int status)) reg of
           None \<Rightarrow> None
         | Some reg' \<Rightarrow> Some (re_calls recorder, reg'))"

text \<open>What \<open>writeJSON\<close> calls for a response, and the status that net/http sends: the first one.\<close>

definition response_calls :: "response \<Rightarrow> writer_call list" where
  "response_calls rsp = [WriteHeader (rsp_status rsp), Write (rsp_payload rsp)]"

definition sent_status :: "writer_call list \<Rightarrow> nat" where
  "sent_status calls = (case calls of WriteHeader status # _ \<Rightarrow> status | _ \<Rightarrow> 200)"

text \<open>A run of the process: metrics of the services and HTTP requests, as they come.\<close>

datatype observation =
    Recorded metric
  | Answered string string response

definition observe :: "'p prometheus \<Rightarrow> observation \<Rightarrow> 'p \<Rightarrow> 'p option" where
  "observe P ob reg =
     (case ob of
        Recorded m \<Rightarrow> record_in P m reg
      | Answered pattern verb rsp \<Rightarrow> map_option snd (MetricsMiddleware P pattern verb (response_calls rsp) reg))"

fun observe_all :: "'p prometheus \<Rightarrow> observation list \<Rightarrow> 'p \<Rightarrow> 'p option" where
  "observe_all P [] reg = Some reg"
| "observe_all P (ob # obs) reg = (case observe P ob reg of None \<Rightarrow> None | Some reg' \<Rightarrow> observe_all P obs reg')"

subsection \<open>What the code relies on\<close>

text \<open>The registry \<open>q\<close> is \<open>p\<close> with one series changed.\<close>

definition changes_to :: "'p prometheus \<Rightarrow> 'p \<Rightarrow> string \<Rightarrow> string list \<Rightarrow> (int \<Rightarrow> int) \<Rightarrow> 'p \<Rightarrow> bool" where
  "changes_to P p nm ls f q \<longleftrightarrow> pr_registered P q = pr_registered P p \<and>
     (\<forall>n l. pr_value P q n l = (if n = nm \<and> l = ls then f (pr_value P p n l) else pr_value P p n l))"

text \<open>
  A new registry is empty and its series are zero; a name that is not taken can be registered;
  counters and histograms go up by one, gauges take the value, for as many label values as labels.
\<close>

definition documented_client :: "'p prometheus \<Rightarrow> bool" where
  "documented_client P \<longleftrightarrow>
     pr_registered P (pr_NewRegistry P) = [] \<and> (\<forall>n l. pr_value P (pr_NewRegistry P) n l = 0) \<and>
     (\<forall>p i. in_name i \<notin> in_name ` set (pr_registered P p) \<longrightarrow>
        (\<exists>q. pr_Register P i p = Some q \<and> pr_registered P q = pr_registered P p @ [i] \<and> pr_value P q = pr_value P p)) \<and>
     (\<forall>p. \<forall>i \<in> set (pr_registered P p). \<forall>ls. length ls = length (in_labels i) \<longrightarrow>
        (in_kind i = Counter \<longrightarrow>
           (\<exists>q. pr_Inc P (in_name i) ls p = Some q \<and> changes_to P p (in_name i) ls (\<lambda>v. v + 1) q)) \<and>
        (in_kind i = Histogram \<longrightarrow>
           (\<exists>q. pr_Observe P (in_name i) ls p = Some q \<and> changes_to P p (in_name i) ls (\<lambda>v. v + 1) q)) \<and>
        (in_kind i = Gauge \<longrightarrow> ls = [] \<longrightarrow>
           (\<forall>x. \<exists>q. pr_Set P (in_name i) x p = Some q \<and> changes_to P p (in_name i) [] (\<lambda>_. x) q)))"

subsection \<open>What the instruments show\<close>

text \<open>The series that an observation increases, and the gauge that it sets.\<close>

definition metric_series :: "metric \<Rightarrow> (string \<times> string list) list" where
  "metric_series m =
     (case m of
        RecordWagerTransaction st k code \<Rightarrow> [(''wager_transactions_total'', [st, k, code])]
      | RecordIdempotentReplay \<Rightarrow> [(''wager_idempotent_replays_total'', [])]
      | RecordWalletVersionConflict \<Rightarrow> [(''wallet_version_conflicts_total'', [])]
      | RecordWorkerRetry worker \<Rightarrow> [(''worker_retries_total'', [worker])]
      | RecordDLQMessage queue \<Rightarrow> [(''sqs_dlq_messages_total'', [queue])]
      | RecordReconciliationRun c \<Rightarrow> [(''reconciliation_runs_total'', [if c then ''true'' else ''false''])]
      | RecordOutboxPublished n \<Rightarrow> [(''outbox_published_total'', []), (''outbox_publish_latency_seconds'', [])]
      | SetOutboxPending n \<Rightarrow> []
      | SetPendingReferences n \<Rightarrow> [])"

definition request_series :: "string \<Rightarrow> string \<Rightarrow> nat \<Rightarrow> (string \<times> string list) list" where
  "request_series pattern verb status =
     (let route = (if pattern \<noteq> [] then pattern else ''unmatched'') in
      [(''http_requests_total'', [route, verb, int_str (int status)]),
       (''http_request_duration_seconds'', [route, verb])])"

definition series_of :: "observation \<Rightarrow> (string \<times> string list) list" where
  "series_of ob =
     (case ob of
        Recorded m \<Rightarrow> metric_series m
      | Answered pattern verb rsp \<Rightarrow> request_series pattern verb (sent_status (response_calls rsp)))"

definition gauge_of :: "observation \<Rightarrow> (string \<times> nat) option" where
  "gauge_of ob =
     (case ob of
        Recorded (SetOutboxPending n) \<Rightarrow> Some (''outbox_pending_events'', n)
      | Recorded (SetPendingReferences n) \<Rightarrow> Some (''wager_pending_transactions'', n)
      | _ \<Rightarrow> None)"

definition answered :: "observation \<Rightarrow> bool" where
  "answered ob = (case ob of Recorded _ \<Rightarrow> True | Answered _ _ rsp \<Rightarrow> rsp_status rsp \<noteq> 0)"

text \<open>The instruments have these names, kinds and numbers of labels.\<close>

definition has_instrument :: "string \<Rightarrow> instrument_kind \<Rightarrow> nat \<Rightarrow> bool" where
  "has_instrument nm k n \<longleftrightarrow> (\<exists>i \<in> set metrics_instruments. in_name i = nm \<and> in_kind i = k \<and> length (in_labels i) = n)"

lemma has_counters [simp]:
  "has_instrument ''wager_transactions_total'' Counter (Suc (Suc (Suc 0)))"
  "has_instrument ''wager_idempotent_replays_total'' Counter 0"
  "has_instrument ''wallet_version_conflicts_total'' Counter 0"
  "has_instrument ''worker_retries_total'' Counter (Suc 0)"
  "has_instrument ''sqs_dlq_messages_total'' Counter (Suc 0)"
  "has_instrument ''reconciliation_runs_total'' Counter (Suc 0)"
  "has_instrument ''outbox_published_total'' Counter 0"
  "has_instrument ''http_requests_total'' Counter (Suc (Suc (Suc 0)))"
  by (simp_all add: has_instrument_def metrics_instruments_def)

lemma has_others [simp]:
  "has_instrument ''outbox_publish_latency_seconds'' Histogram 0"
  "has_instrument ''http_request_duration_seconds'' Histogram (Suc (Suc 0))"
  "has_instrument ''outbox_pending_events'' Gauge 0"
  "has_instrument ''wager_pending_transactions'' Gauge 0"
  by (simp_all add: has_instrument_def metrics_instruments_def)

lemma distinct_names: "distinct (map in_name metrics_instruments)"
  by (simp add: metrics_instruments_def)

lemma MustRegister_all:
  assumes "documented_client P"
  shows "distinct (map in_name (pr_registered P p @ is)) \<Longrightarrow>
    \<exists>q. MustRegister P is p = Some q \<and> pr_registered P q = pr_registered P p @ is \<and> pr_value P q = pr_value P p"
proof (induction "is" arbitrary: p)
  case (Cons i "is")
  then have "in_name i \<notin> in_name ` set (pr_registered P p)" by auto
  then obtain q where q: "pr_Register P i p = Some q" "pr_registered P q = pr_registered P p @ [i]" "pr_value P q = pr_value P p"
    using assms unfolding documented_client_def by blast
  then show ?case using Cons.IH [of q] Cons.prems by simp
qed simp

lemma fresh_registry:
  assumes "documented_client P"
  shows "\<exists>reg. NewMetrics P = Some reg \<and> pr_registered P reg = metrics_instruments \<and> (\<forall>n l. pr_value P reg n l = 0)"
  using MustRegister_all [OF assms, of "pr_NewRegistry P" metrics_instruments] assms distinct_names
  by (auto simp: NewMetrics_def documented_client_def)

subsection \<open>What an observation changes\<close>

text \<open>The registry after a change: the instruments are the same, the series have gone up, the gauge is set.\<close>

definition leaves ::
  "'p prometheus \<Rightarrow> 'p \<Rightarrow> (string \<times> string list) list \<Rightarrow> (string \<times> nat) option \<Rightarrow> 'p option \<Rightarrow> bool" where
  "leaves P reg series gauge res \<longleftrightarrow>
     (\<exists>reg'. res = Some reg' \<and> pr_registered P reg' = metrics_instruments \<and>
        (\<forall>nm ls. pr_value P reg' nm ls =
           (case gauge of
              None \<Rightarrow> pr_value P reg nm ls
            | Some (g, n) \<Rightarrow> if nm = g \<and> ls = [] then int n else pr_value P reg nm ls) + int (count_list series (nm, ls))))"

lemma inc_leaves:
  assumes "documented_client P" and "pr_registered P reg = metrics_instruments"
    and "has_instrument nm Counter (length ls)"
  shows "leaves P reg [(nm, ls)] None (pr_Inc P nm ls reg)"
proof -
  obtain q where "pr_Inc P nm ls reg = Some q" "changes_to P reg nm ls (\<lambda>v. v + 1) q"
    using assms unfolding documented_client_def has_instrument_def by metis
  then show ?thesis using assms(2) by (auto simp: leaves_def changes_to_def)
qed

lemma observe_leaves_series:
  assumes "documented_client P" and "pr_registered P reg = metrics_instruments"
    and "has_instrument nm Histogram (length ls)"
  shows "leaves P reg [(nm, ls)] None (pr_Observe P nm ls reg)"
proof -
  obtain q where "pr_Observe P nm ls reg = Some q" "changes_to P reg nm ls (\<lambda>v. v + 1) q"
    using assms unfolding documented_client_def has_instrument_def by metis
  then show ?thesis using assms(2) by (auto simp: leaves_def changes_to_def)
qed

lemma set_leaves:
  assumes "documented_client P" and "pr_registered P reg = metrics_instruments"
    and "has_instrument nm Gauge 0"
  shows "leaves P reg [] (Some (nm, n)) (pr_Set P nm (int n) reg)"
proof -
  obtain q where "pr_Set P nm (int n) reg = Some q" "changes_to P reg nm [] (\<lambda>_. int n) q"
    using assms unfolding documented_client_def has_instrument_def by (metis list.size(3))
  then show ?thesis using assms(2) by (auto simp: leaves_def changes_to_def)
qed

lemma both_leaves:
  assumes "leaves P reg xs None (f reg)"
    and "\<And>reg'. pr_registered P reg' = metrics_instruments \<Longrightarrow> leaves P reg' ys None (g reg')"
  shows "leaves P reg (xs @ ys) None (both f g reg)"
proof -
  obtain reg1 where f: "f reg = Some reg1" "pr_registered P reg1 = metrics_instruments"
    "\<forall>nm ls. pr_value P reg1 nm ls = pr_value P reg nm ls + int (count_list xs (nm, ls))"
    using assms(1) by (auto simp: leaves_def)
  show ?thesis
    using assms(2) [OF f(2)] f by (auto simp: leaves_def both_def)
qed

lemma record_leaves:
  assumes "documented_client P" and "pr_registered P reg = metrics_instruments"
  shows "leaves P reg (metric_series m) (gauge_of (Recorded m)) (record_in P m reg)"
proof (cases m)
  case (RecordOutboxPublished n)
  have "leaves P reg ([(''outbox_published_total'', [])] @ [(''outbox_publish_latency_seconds'', [])]) None
    (both (pr_Inc P ''outbox_published_total'' []) (pr_Observe P ''outbox_publish_latency_seconds'' []) reg)"
    by (rule both_leaves; (rule inc_leaves observe_leaves_series; simp add: assms))
  then show ?thesis
    by (simp add: RecordOutboxPublished metric_series_def gauge_of_def)
qed (simp_all add: metric_series_def gauge_of_def assms inc_leaves set_leaves)

lemma recorder_of_response:
  "rsp_status rsp \<noteq> 0 \<Longrightarrow> run_recorder (response_calls rsp) =
     \<lparr>re_status = sent_status (response_calls rsp), re_calls = response_calls rsp\<rparr>"
  by (simp add: run_recorder_def response_calls_def sent_status_def)

lemma request_leaves:
  assumes "documented_client P" and "pr_registered P reg = metrics_instruments"
  shows "leaves P reg (request_series pattern verb status) None
    (ObserveHTTP P (if pattern \<noteq> [] then pattern else ''unmatched'') verb (int_str (int status)) reg)"
proof -
  define route where "route = (if pattern \<noteq> [] then pattern else ''unmatched'')"
  have "leaves P reg ([(''http_requests_total'', [route, verb, int_str (int status)])] @
      [(''http_request_duration_seconds'', [route, verb])]) None (ObserveHTTP P route verb (int_str (int status)) reg)"
    unfolding ObserveHTTP_def by (rule both_leaves; (rule inc_leaves observe_leaves_series; simp add: assms))
  then show ?thesis
    by (simp add: request_series_def route_def Let_def)
qed

lemma observe_leaves:
  assumes "documented_client P" and "pr_registered P reg = metrics_instruments" and "answered ob"
  shows "leaves P reg (series_of ob) (gauge_of ob) (observe P ob reg)"
proof (cases ob)
  case (Recorded m)
  then show ?thesis
    using record_leaves [OF assms(1,2)] by (simp add: series_of_def observe_def)
next
  case (Answered pattern verb rsp)
  then have nz: "rsp_status rsp \<noteq> 0" "sent_status (response_calls rsp) \<noteq> 0"
    using assms(3) by (simp_all add: answered_def sent_status_def response_calls_def)
  show ?thesis
    using request_leaves [OF assms(1,2), of pattern verb "sent_status (response_calls rsp)"] nz
    by (cases "pattern = []")
      (auto simp: Answered series_of_def gauge_of_def observe_def MetricsMiddleware_def recorder_of_response leaves_def)
qed

text \<open>The value of one series after an observation.\<close>

definition series_step :: "string \<Rightarrow> string list \<Rightarrow> observation \<Rightarrow> int \<Rightarrow> int" where
  "series_step nm ls ob v =
     (case gauge_of ob of
        None \<Rightarrow> v
      | Some (g, n) \<Rightarrow> if nm = g \<and> ls = [] then int n else v) + int (count_list (series_of ob) (nm, ls))"

lemma observe_all_series:
  assumes "documented_client P" and "pr_registered P reg = metrics_instruments" and "\<forall>ob \<in> set obs. answered ob"
  shows "\<exists>reg'. observe_all P obs reg = Some reg' \<and>
    (\<forall>nm ls. pr_value P reg' nm ls = fold (series_step nm ls) obs (pr_value P reg nm ls))"
  using assms(2,3)
proof (induction obs arbitrary: reg)
  case (Cons ob obs)
  obtain reg1 where one: "observe P ob reg = Some reg1" "pr_registered P reg1 = metrics_instruments"
    "\<forall>nm ls. pr_value P reg1 nm ls = series_step nm ls ob (pr_value P reg nm ls)"
    using observe_leaves [OF assms(1) Cons.prems(1), of ob] Cons.prems(2) by (auto simp: leaves_def series_step_def)
  show ?case
    using Cons.IH [OF one(2)] Cons.prems(2) one by simp
qed simp

lemma int_str_nat_eq [simp]: "int_str (int a) = int_str (int b) \<longleftrightarrow> a = b"
proof
  assume "int_str (int a) = int_str (int b)"
  then have "digits_value (nat_str a) = digits_value (nat_str b)"
    by (simp add: int_str_def)
  then show "a = b"
    by simp
qed simp

text \<open>The requests with this route, verb and status; the last value set, or zero.\<close>

definition requested :: "string \<Rightarrow> string \<Rightarrow> nat \<Rightarrow> observation \<Rightarrow> bool" where
  "requested route verb status ob =
     (case ob of
        Recorded _ \<Rightarrow> False
      | Answered pattern vb rsp \<Rightarrow>
          (if pattern \<noteq> [] then pattern else ''unmatched'') = route \<and> vb = verb \<and> rsp_status rsp = status)"

fun backlog :: "observation \<Rightarrow> int \<Rightarrow> int" where
  "backlog (Recorded (SetOutboxPending n)) v = int n"
| "backlog ob v = v"

fun waiting :: "observation \<Rightarrow> int \<Rightarrow> int" where
  "waiting (Recorded (SetPendingReferences n)) v = int n"
| "waiting ob v = v"

fun publication :: "observation \<Rightarrow> bool" where
  "publication (Recorded (RecordOutboxPublished n)) = True"
| "publication ob = False"

lemmas series_simps = series_step_def series_of_def gauge_of_def metric_series_def request_series_def
  response_calls_def sent_status_def requested_def Let_def

lemma step_outcomes:
  "series_step ''wager_transactions_total'' [st, k, code] ob v =
     v + (if ob = Recorded (RecordWagerTransaction st k code) then 1 else 0)"
  by (cases ob) (auto simp: series_simps split: metric.splits)

lemma step_replays:
  "series_step ''wager_idempotent_replays_total'' [] ob v = v + (if ob = Recorded RecordIdempotentReplay then 1 else 0)"
  by (cases ob) (auto simp: series_simps split: metric.splits)

lemma step_conflicts:
  "series_step ''wallet_version_conflicts_total'' [] ob v =
     v + (if ob = Recorded RecordWalletVersionConflict then 1 else 0)"
  by (cases ob) (auto simp: series_simps split: metric.splits)

lemma step_requests:
  "series_step ''http_requests_total'' [route, verb, int_str (int status)] ob v =
     v + (if requested route verb status ob then 1 else 0)"
  by (cases ob) (auto simp: series_simps split: metric.splits)

lemma step_backlog: "series_step ''outbox_pending_events'' [] ob v = backlog ob v"
  by (cases "(ob, v)" rule: backlog.cases) (auto simp: series_simps)

lemma step_waiting: "series_step ''wager_pending_transactions'' [] ob v = waiting ob v"
  by (cases "(ob, v)" rule: waiting.cases) (auto simp: series_simps)

lemma step_publications:
  "series_step ''outbox_published_total'' [] ob v = v + (if publication ob then 1 else 0)"
  "series_step ''outbox_publish_latency_seconds'' [] ob v = v + (if publication ob then 1 else 0)"
  by (cases ob rule: publication.cases; auto simp: series_simps)+

lemma step_labelled:
  "series_step ''worker_retries_total'' [worker] ob v =
     v + (if ob = Recorded (RecordWorkerRetry worker) then 1 else 0)"
  "series_step ''sqs_dlq_messages_total'' [queue] ob v =
     v + (if ob = Recorded (RecordDLQMessage queue) then 1 else 0)"
  "series_step ''reconciliation_runs_total'' [if c then ''true'' else ''false''] ob v =
     v + (if ob = Recorded (RecordReconciliationRun c) then 1 else 0)"
  by (cases ob; auto simp: series_simps split: metric.splits)+

lemma fold_step_count:
  assumes "\<And>ob v. f ob v = v + (if P ob then 1 else 0)"
  shows "fold f obs v = v + int (length (filter P obs))"
  by (induction obs arbitrary: v) (auto simp: assms)

lemma fold_step_same: "(\<And>ob v. f ob v = g ob v) \<Longrightarrow> fold f obs v = fold g obs v"
  by (induction obs arbitrary: v) auto

lemmas counts = step_outcomes [THEN fold_step_count] step_replays [THEN fold_step_count]
  step_conflicts [THEN fold_step_count] step_requests [THEN fold_step_count]
  step_publications [THEN fold_step_count] step_labelled [THEN fold_step_count]
  step_backlog [THEN fold_step_same] step_waiting [THEN fold_step_same]

text \<open>
  (C36) The metrics are exact. From the registration of the instruments on, no sequence of
  recorded metrics and answered requests panics; every counter is the number of its events: the
  outcomes of each status, kind and failure code, the replays, the version conflicts, the retries
  of each worker, the dead letters of each queue, the reconciliations of each outcome, the
  publications (and their latencies observed), and the requests of each route, verb and status, by
  the status that the client was really sent; the two gauges are the last value set.
\<close>

theorem metrics_exact:
  assumes "documented_client P" and "\<forall>ob \<in> set obs. answered ob"
  shows "\<exists>fresh reg. NewMetrics P = Some fresh \<and> observe_all P obs fresh = Some reg \<and>
    (let value = pr_value P reg; number = (\<lambda>P. int (length (filter P obs))) in
      (\<forall>st k code. value ''wager_transactions_total'' [st, k, code] =
         number (\<lambda>ob. ob = Recorded (RecordWagerTransaction st k code))) \<and>
      value ''wager_idempotent_replays_total'' [] = number (\<lambda>ob. ob = Recorded RecordIdempotentReplay) \<and>
      value ''wallet_version_conflicts_total'' [] = number (\<lambda>ob. ob = Recorded RecordWalletVersionConflict) \<and>
      (\<forall>worker. value ''worker_retries_total'' [worker] =
         number (\<lambda>ob. ob = Recorded (RecordWorkerRetry worker))) \<and>
      (\<forall>queue. value ''sqs_dlq_messages_total'' [queue] =
         number (\<lambda>ob. ob = Recorded (RecordDLQMessage queue))) \<and>
      (\<forall>c. value ''reconciliation_runs_total'' [if c then ''true'' else ''false''] =
         number (\<lambda>ob. ob = Recorded (RecordReconciliationRun c))) \<and>
      value ''outbox_published_total'' [] = number publication \<and>
      value ''outbox_publish_latency_seconds'' [] = number publication \<and>
      (\<forall>route verb status. value ''http_requests_total'' [route, verb, int_str (int status)] =
         number (requested route verb status)) \<and>
      value ''outbox_pending_events'' [] = fold backlog obs 0 \<and>
      value ''wager_pending_transactions'' [] = fold waiting obs 0)"
proof -
  obtain fresh where fresh: "NewMetrics P = Some fresh" "pr_registered P fresh = metrics_instruments"
    "\<And>n l. pr_value P fresh n l = 0"
    using fresh_registry [OF assms(1)] by blast
  obtain reg where reg: "observe_all P obs fresh = Some reg" "\<And>nm ls. pr_value P reg nm ls = fold (series_step nm ls) obs 0"
    using observe_all_series [OF assms(1) fresh(2) assms(2)] by (auto simp: fresh(3))
  show ?thesis
    unfolding Let_def
    by (rule exI [of _ fresh], rule exI [of _ reg]) (simp only: fresh(1) reg counts HOL.simp_thms add_0_left)
qed

subsection \<open>A client that behaves so\<close>

type_synonym sample_registry = "instrument list \<times> (string \<Rightarrow> string list \<Rightarrow> int)"

definition sample_change :: "(int \<Rightarrow> int) \<Rightarrow> string \<Rightarrow> string list \<Rightarrow> sample_registry \<Rightarrow> sample_registry option" where
  "sample_change f nm ls = (\<lambda>(is, v).
     if \<exists>i \<in> set is. in_name i = nm \<and> length (in_labels i) = length ls
     then Some (is, v(nm := (v nm)(ls := f (v nm ls)))) else None)"

definition sample_prometheus :: "sample_registry prometheus" where
  "sample_prometheus = \<lparr>
     pr_NewRegistry = ([], \<lambda>_ _. 0),
     pr_Register = (\<lambda>i (is, v). if in_name i \<in> in_name ` set is then None else Some (is @ [i], v)),
     pr_Inc = sample_change (\<lambda>v. v + 1),
     pr_Observe = sample_change (\<lambda>v. v + 1),
     pr_Set = (\<lambda>nm x. sample_change (\<lambda>_. x) nm []),
     pr_registered = fst,
     pr_value = snd\<rparr>"

lemma documented_sample: "documented_client sample_prometheus"
  unfolding documented_client_def
  by (force simp: sample_prometheus_def sample_change_def changes_to_def)

definition sample_observations :: "payload \<Rightarrow> observation list" where
  "sample_observations body =
     [Recorded (RecordDLQMessage ''wagers-dlq''), Recorded (SetOutboxPending 9),
      Answered ''/wallets/{walletId}'' ''GET'' \<lparr>rsp_status = 404, rsp_payload = body, rsp_requestID = ''r1''\<rparr>,
      Recorded RecordIdempotentReplay, Recorded (SetOutboxPending 7),
      Answered ''/wallets/{walletId}'' ''GET'' \<lparr>rsp_status = 404, rsp_payload = body, rsp_requestID = ''r2''\<rparr>,
      Answered [] ''GET'' \<lparr>rsp_status = 405, rsp_payload = body, rsp_requestID = ''r3''\<rparr>]"

theorem metrics_exact_witness:
  "\<forall>body. \<exists>fresh reg. NewMetrics sample_prometheus = Some fresh \<and> observe_all sample_prometheus (sample_observations body) fresh = Some reg \<and>
     pr_value sample_prometheus reg ''sqs_dlq_messages_total'' [''wagers-dlq''] = 1 \<and>
     pr_value sample_prometheus reg ''http_requests_total'' [''/wallets/{walletId}'', ''GET'', int_str (int 404)] = 2 \<and>
     pr_value sample_prometheus reg ''http_requests_total'' [''unmatched'', ''GET'', int_str (int 405)] = 1 \<and>
     pr_value sample_prometheus reg ''outbox_pending_events'' [] = 7"
proof
  fix body
  have "\<forall>ob \<in> set (sample_observations body). answered ob"
    by (simp add: sample_observations_def answered_def)
  from metrics_exact [OF documented_sample this] obtain fresh reg where reg: "NewMetrics sample_prometheus = Some fresh"
      "observe_all sample_prometheus (sample_observations body) fresh = Some reg"
    and dead: "pr_value sample_prometheus reg ''sqs_dlq_messages_total'' [''wagers-dlq''] =
      int (length (filter (\<lambda>ob. ob = Recorded (RecordDLQMessage ''wagers-dlq'')) (sample_observations body)))"
    and requests: "\<And>route verb status. pr_value sample_prometheus reg ''http_requests_total'' [route, verb, int_str (int status)] =
      int (length (filter (requested route verb status) (sample_observations body)))"
    and gauge: "pr_value sample_prometheus reg ''outbox_pending_events'' [] = fold backlog (sample_observations body) 0"
    unfolding Let_def by blast
  show "\<exists>fresh reg. NewMetrics sample_prometheus = Some fresh \<and> observe_all sample_prometheus (sample_observations body) fresh = Some reg \<and>
     pr_value sample_prometheus reg ''sqs_dlq_messages_total'' [''wagers-dlq''] = 1 \<and>
     pr_value sample_prometheus reg ''http_requests_total'' [''/wallets/{walletId}'', ''GET'', int_str (int 404)] = 2 \<and>
     pr_value sample_prometheus reg ''http_requests_total'' [''unmatched'', ''GET'', int_str (int 405)] = 1 \<and>
     pr_value sample_prometheus reg ''outbox_pending_events'' [] = 7"
    by (rule exI [of _ fresh], rule exI [of _ reg], simp only: reg dead requests gauge)
      (simp add: sample_observations_def requested_def)
qed

end
