(* ===== verification/Spec2Isabelle.thy ===== *)
theory Spec2Isabelle
  imports Integrity Http_Properties Idempotency Booked_Once Startup Lifecycle Observability
begin

text \<open>
  \<^bold>\<open>A verification development for the wager processing service\<close> (Go, module
  junglegaming/backend-challenge-go).

  The service moves money of players between wallets on behalf of game providers. A provider
  sends an operation (BET, WIN, LOSS, REFUND, ROLLBACK) over HTTP or through an SQS queue; the
  service applies it exactly once to a wallet, records the movement in an append-only ledger and
  announces it through an outbox, all in one PostgreSQL transaction; operations whose reference
  has not arrived are parked and resumed by a worker; a publisher sends the outbox to a queue.
  An internal identity opens wallets, reads them and their ledgers, and reconciles them.

  \<^bold>\<open>Theories and the code they model\<close> (paths under src/internal unless said otherwise).

  \<^item> \<open>Prelude\<close>, \<open>Strconv\<close>, \<open>Go_Text\<close>, \<open>Json\<close>, \<open>Time_Text\<close>, \<open>Durations\<close>: what the code uses of
    Go's standard library: 64-bit integers, results and their sequencing, decimal numbers,
    strings and base64, encoding/json (encoder, scanner, decoder into structs), the calendar,
    \<open>time.Format\<close> and \<open>time.Parse\<close> for RFC 3339, \<open>time.ParseDuration\<close>.
  \<^item> \<open>Apperr\<close>: error values and their classification (domain/apperr).
  \<^item> \<open>Money\<close>, \<open>Money_Text\<close>, \<open>Money_Json\<close>: amounts (domain/money): checked arithmetic, decimal
    text, JSON.
  \<^item> \<open>Ledger\<close>, \<open>Wallet\<close>, \<open>Wagering\<close>, \<open>Events\<close>: the aggregates of domain/ledger, domain/wallet,
    domain/wagering, domain/events, their constructors, state machines and invariants. The payload
    of an event is its JSON text, field by field under the tags of its struct.
  \<^item> \<open>Store\<close>: the tables and constraints of src/migrations/0001_init.up.sql and one function per SQL
    statement. \<open>Tx\<close>: effects, statements, transactions and savepoints (adapters/postgres/pool.go,
    the port TxManager). \<open>Repos\<close>, \<open>Ledger_Queries\<close>, \<open>Outbox\<close>, \<open>Inbox\<close>: the repositories of
    adapters/postgres.
  \<^item> \<open>Command\<close>, \<open>Wager_Service\<close>: the wager use case (app/wager: hash.go, service.go, queries.go);
    \<open>Wallet_Service\<close>: the wallet use cases (app/wallets).
  \<^item> \<open>Consumer\<close>: queue messages (app/consumer). \<open>Sqs_Client\<close>, \<open>Sqs_Consumer\<close>, \<open>Sqs_Queues\<close>: the
    requests to SQS, the polling consumer and the provisioning of the queues (adapters/sqs).
  \<^item> \<open>Publisher\<close>: the outbox publisher (app/outbox). \<open>Workers\<close>: the worker loop and the reference
    resolver (platform/worker, app/references).
  \<^item> \<open>Oidc\<close>, \<open>Http_Text\<close>, \<open>Http_Api\<close>: identities and roles (adapters/oidc), cursors and limits,
    middleware, handlers and routes (adapters/httpapi).
  \<^item> \<open>Configuration\<close> (config), \<open>Migrate\<close> (platform/migrate), \<open>Bootstrap\<close> (bootstrap: the settings
    of the constructors and the migrations at start-up), \<open>Service\<close>: the parts put together and
    what is asked of them from outside.
  \<^item> \<open>Startup\<close>: the retries while the queue broker and the identity provider start (\<open>NewClient\<close> of
    adapters/sqs, \<open>NewVerifier\<close> of adapters/oidc), the pool of connections, and the command
    src/cmd/migrate with its exit code and what it writes to its two outputs. \<open>Lifecycle\<close>: the start and stop hooks of the background work (bootstrap) with the
    loops of platform/worker and adapters/sqs as step relations. \<open>Observability\<close>: the instruments
    (platform/observability) and the middleware that counts requests.

  \<^bold>\<open>How state and effects correspond.\<close> A repository, a service or a handler is a function of the
  \<open>world\<close>: the database as its connection sees it, the snapshots of the open transaction and its
  savepoints, the metrics recorded and the requests the broker accepted. Every effect first lets
  the other connections commit (\<open>lib_others\<close>, READ COMMITTED) and may fail (\<open>lib_fault\<close>,
  \<open>lib_ack_lost\<close>); the clock, new identifiers, the printing and parsing of identifiers, SHA-256 and
  the broker's answers are the other fields of \<open>lib\<close>. An error is a value; an early return is a
  branch. The migration runner has a world of its own (\<open>migration_world\<close>) over any type of schema.

  \<^bold>\<open>What the groups of lemmas show.\<close>

  \<^item> \<open>Atomicity\<close>: operations are framed, so a failed one leaves no trace. \<open>Balances\<close>, \<open>Logic\<close>,
    \<open>Consistency\<close>: a logic of triples that survives faults, rollbacks and concurrent commits, and
    the balance of the books. \<open>Quiet\<close>: runs without disturbance, for functional statements.
    \<open>Invariants\<close>: invariants of the database and the broker's log. \<open>Idempotency\<close>: an operation
    that is recorded is not applied again. \<open>History\<close>, \<open>Integrity\<close>: what every statement keeps is
    kept by the whole service (the locale \<open>maintained\<close>, interpreted on the integrity of the data and
    on the append-only history). \<open>Committed\<close>: what holds only of committed data is kept by the whole
    service if the three writers restore it (the locale \<open>committed\<close>), interpreted on the balances of
    the wallets and, in \<open>Booking\<close> and \<open>Booked_Once\<close>, on the agreement of transactions and ledger.
    \<open>Http_Properties\<close>: access, answers, cursors. \<open>Lifecycle\<close>: what makes a goroutine stoppable (the
    locale \<open>stoppable\<close>, interpreted on the worker's loop and on the consumer's), by rule induction
    over the interleavings of hook, goroutine, ticker and deadline.
  \<^item> This theory: what holds of the service as a whole.

  \<^bold>\<open>Bounds and fuel.\<close> Retries have the bound of the configuration; the walk over ledger pages and a
  run of the resolver have one of their own, and it is proved that one page per entry is enough.
  A worker and the consumer run for as many rounds as they are given, for every number of them.
  The retries at start-up are a loop without a bound in the model too (\<open>None\<close> if it did not end), which
  waits two seconds after a failed attempt, and it is proved that they end, by the deadline of 60
  seconds, after at most 32 attempts. Attempts take any time and timers may fire late; that the
  clock does not go back and timers do not fire early (Go's monotonic clock) is in their types.

  \<^bold>\<open>Not modelled.\<close> Texts of \<open>Error()\<close>, logging (but for the migration command) and tracing; the
  rendering of responses to JSON (a response keeps its payload); the normal form (order of keys,
  spaces) in which PostgreSQL's JSONB keeps the payload of an event, which stays the text that was
  written; PostgreSQL's rounding of instants to microseconds, its refusal
  of NUL bytes in texts (a fault may stand for it) and the triggers of the schema, which no
  statement of the code reaches; the SDK clients of SQS, of the identity provider and of
  Prometheus, which are parameters; the HTTP listener, the injection container with the logger of
  its events, and the order in which it calls the hooks of different parts; the panicking Must
  helpers. Durations are not measured, so of the latencies only their number is kept.
\<close>

section \<open>The service as a whole\<close>

subsection \<open>A sample environment\<close>

text \<open>Another connection opens a wallet; it fails when the wallet is there already.\<close>

definition other_wallet :: wallet_row where
  "other_wallet = \<lparr>wr_id = 70, wr_player_id = 71, wr_currency = ''EUR'', wr_balance_minor = 0,
     wr_version = 1, wr_created_at = 4, wr_updated_at = 4\<rparr>"

definition opening_lib :: lib where
  "opening_lib = sample_lib\<lparr>
     lib_others := (\<lambda>n d. case sql_insert_wallet other_wallet d of Inr (_, d') \<Rightarrow> d' | Inl _ \<Rightarrow> d),
     lib_fault := (\<lambda>n. if n = 9 then Some ''connection reset'' else None)\<rparr>"

lemma sound_opening_lib: "sound_others opening_lib"
  by (auto simp: sound_others_def opening_lib_def sound_step_def
      split: sum.splits dest: sound_insert_wallet [unfolded sound_step_def])

lemma sample_db_integrity: "db_integrity sample_db"
  by (simp add: db_integrity_def sample_db_def table_def references_ok_def checked_def wallet_checks_def
      wallet_to_row_def sample_wallet_def currencyPattern_def is_upper_def)

definition sample_service :: service where
  "sample_service = \<lparr>se_api = sample_api, se_queues = sample_client, se_publisher = sample_publisher, se_batch = 20\<rparr>"

definition sample_submit :: http_request where
  "sample_submit = \<lparr>hr_route = SubmitRoute,
     hr_header = (\<lambda>h. if h = ''Authorization'' then ''Bearer t'' else if h = ''Idempotency-Key'' then ''k'' else ''''),
     hr_query = (\<lambda>_. ''''), hr_param = (\<lambda>_. ''''),
     hr_body = ''{\"providerId\":\"p\",\"externalTransactionId\":\"x\",\"playerId\":\"2\",\"walletId\":\"1\",'' @
       ''\"roundId\":\"r\",\"gameId\":\"g\",\"kind\":\"BET\",\"money\":{\"amount\":\"80.00\",\"currency\":\"BRL\"}}''\<rparr>"

definition sample_requests :: "service_request list" where
  "sample_requests =
     [HttpRequest sample_submit, HttpRequest (sample_get ''p''), ResolverTick, PublisherTick,
      DeliverMessage \<lparr>sm_MessageId = Some ''m'', sm_ReceiptHandle = None, sm_Body = Some ''{}'', sm_Attributes = []\<rparr>]"

subsection \<open>Properties\<close>

text \<open>
  (C1) The books balance at all times: whatever is served in whatever order, HTTP requests of
  anybody, queue messages, rounds of the resolver and of the publisher, successful or not, with
  any faults and any well-behaved concurrent connections, every wallet's balance equals the sum
  of its ledger entries.
\<close>

theorem service_keeps_ledger_balanced:
  assumes "rely L" and "ledger_balanced (wd_db w)" and "wd_saves w = []" and "\<not> wd_aborted w"
  shows "ledger_balanced (wd_db (snd (serve L svc requests w)))"
  by (rule balances.served [OF assms])

theorem service_keeps_ledger_balanced_witness:
  "ledger_balanced (wd_db (snd (serve busy_lib sample_service sample_requests balanced_world)))"
  by (rule service_keeps_ledger_balanced [OF rely_busy_lib balanced_world])

text \<open>
  (C4) Every processed transaction is booked exactly once: in every state the service reaches, a
  processed transaction other than a loss has exactly one ledger entry, on its wallet, of its
  amount and currency, a debit for a bet and a credit for an opening, a win or a refund; a refund
  or a rollback moves the amount of an entry of the transaction it references in the opposite
  direction; a loss and a transaction that is pending, rejected or failed have no entry, and no
  entry is without such a processed transaction. This holds whatever fails, if the other
  connections keep it too and leave alone the rows that this one has not finished.
\<close>

theorem service_books_once:
  assumes "books_kept L" and "booked (wd_db w)" and "wd_saves w = []" and "\<not> wd_aborted w"
    and "after = wd_db (snd (serve L svc requests w))"
  shows "(\<forall>t \<in> set (db_transactions after).
      if tr_status t = ''PROCESSED'' \<and> tr_kind t \<noteq> ''LOSS''
      then \<exists>e. entries_of after (tr_id t) = [e] \<and> lr_wallet_id e = tr_wallet_id t \<and>
        lr_amount_minor e = tr_amount_minor t \<and> lr_currency e = tr_currency t \<and>
        (tr_kind t = ''BET'' \<longrightarrow> lr_direction e = ''DEBIT'') \<and>
        (tr_kind t \<in> {''OPENING'', ''WIN'', ''REFUND''} \<longrightarrow> lr_direction e = ''CREDIT'') \<and>
        (tr_kind t \<in> {''REFUND'', ''ROLLBACK''} \<longrightarrow> (\<exists>f \<in> set (db_ledger after).
           tr_reference_transaction_id t = Some (lr_transaction_id f) \<and> lr_wallet_id f = lr_wallet_id e \<and>
           lr_amount_minor f = lr_amount_minor e \<and> lr_currency f = lr_currency e \<and>
           (lr_direction e = ''DEBIT'' \<and> lr_direction f = ''CREDIT'' \<or>
            lr_direction e = ''CREDIT'' \<and> lr_direction f = ''DEBIT'')))
      else entries_of after (tr_id t) = []) \<and>
    (\<forall>e \<in> set (db_ledger after). \<exists>t \<in> set (db_transactions after).
       tr_id t = lr_transaction_id e \<and> tr_status t = ''PROCESSED'' \<and> tr_kind t \<noteq> ''LOSS'')"
    (is "(\<forall>t \<in> _. if _ t then ?entry t else _) \<and> _")
proof -
  have d: "booked after" unfolding assms(5) by (rule booking.served [OF assms(1-4)])
  have reversal: "\<exists>f \<in> set (db_ledger after).
      tr_reference_transaction_id t = Some (lr_transaction_id f) \<and> lr_wallet_id f = lr_wallet_id e \<and>
      lr_amount_minor f = lr_amount_minor e \<and> lr_currency f = lr_currency e \<and>
      (lr_direction e = ''DEBIT'' \<and> lr_direction f = ''CREDIT'' \<or>
       lr_direction e = ''CREDIT'' \<and> lr_direction f = ''DEBIT'')"
    if "books (db_transactions after) t e" and "tr_kind t \<in> {''REFUND'', ''ROLLBACK''}" for t e
    using that by (auto simp: books_def elim!: booked_reversal [OF d])
  have none: "entries_of after (tr_id t) = []"
    if "t \<in> set (db_transactions after)" "\<not> (tr_status t = ''PROCESSED'' \<and> tr_kind t \<noteq> ''LOSS'')" for t
    using d that by (auto simp: booked_def well_booked_def)
  have kinds: "tr_kind t = ''BET'' \<longrightarrow> lr_direction e = ''DEBIT''"
      "tr_kind t \<in> {''OPENING'', ''WIN'', ''REFUND''} \<longrightarrow> lr_direction e = ''CREDIT''"
      "lr_wallet_id e = tr_wallet_id t" "lr_amount_minor e = tr_amount_minor t" "lr_currency e = tr_currency t"
    if "books (db_transactions after) t e" for t e
    using that by (auto simp: books_def moves_def)
  show ?thesis
  proof (intro conjI ballI)
    fix t assume t: "t \<in> set (db_transactions after)"
    show "if tr_status t = ''PROCESSED'' \<and> tr_kind t \<noteq> ''LOSS'' then ?entry t else entries_of after (tr_id t) = []"
    proof (cases "tr_status t = ''PROCESSED'' \<and> tr_kind t \<noteq> ''LOSS''")
      case True
      then obtain e where e: "entries_of after (tr_id t) = [e]" "books (db_transactions after) t e"
        using booked_entry [OF d t] by metis
      have "?entry t"
        by (rule exI [of _ e]) (intro conjI e(1) kinds [OF e(2)] impI reversal [OF e(2)])
      then show ?thesis using True by simp
    qed (simp add: none t)
  next
    fix e assume "e \<in> set (db_ledger after)"
    then show "\<exists>t \<in> set (db_transactions after). tr_id t = lr_transaction_id e \<and> tr_status t = ''PROCESSED'' \<and> tr_kind t \<noteq> ''LOSS''"
      using booked_ledger [OF d] by metis
  qed
qed

theorem service_books_once_witness:
  "\<exists>d. d = wd_db (snd (serve winning_lib sample_service sample_requests booked_world)) \<and>
     \<not> (\<exists>e \<in> set (db_ledger d). \<not> (\<exists>t \<in> set (db_transactions d). tr_id t = lr_transaction_id e \<and> tr_status t = ''PROCESSED''))"
  using service_books_once [OF books_kept_winning_lib booked_world refl, of sample_service sample_requests] by blast

text \<open>
  (C3) History is append-only: whatever is served, every ledger entry stays as it is, every
  transaction stays with the columns that identify it and, once processed, rejected or failed,
  does not change at all, an event keeps its content and once published does not change, a
  wallet keeps its owner and currency and changes only with a greater version, and a received
  message is not forgotten.
\<close>

theorem service_history_append_only:
  assumes "sound_others L" and "db_integrity (wd_db w)" and "wd_saves w = []"
    and "before = wd_db w" and "after = wd_db (snd (serve L svc requests w))"
  shows "set (db_ledger before) \<subseteq> set (db_ledger after) \<and>
    (\<forall>t \<in> set (db_transactions before). \<exists>t' \<in> set (db_transactions after).
       tx_identity t' = tx_identity t \<and> (is_pending_row t \<or> t' = t)) \<and>
    (\<forall>e \<in> set (db_outbox before). \<exists>e' \<in> set (db_outbox after).
       event_identity e' = event_identity e \<and> (unpublished e \<or> e' = e)) \<and>
    (\<forall>x \<in> set (db_wallets before). \<exists>y \<in> set (db_wallets after).
       wr_id y = wr_id x \<and> wr_player_id y = wr_player_id x \<and> wr_currency y = wr_currency x \<and>
       (y = x \<or> sint (wr_version x) < sint (wr_version y))) \<and>
    (\<forall>m \<in> set (db_inbox before). \<exists>m' \<in> set (db_inbox after).
       ir_consumer_name m' = ir_consumer_name m \<and> ir_message_id m' = ir_message_id m \<and>
       ir_payload_hash m' = ir_payload_hash m)"
proof -
  have h: "history_kept before after"
    using serve_sound [OF assms(1-3), of svc requests] by (simp add: sound_step_def assms(4,5))
  show ?thesis
    using h unfolding history_kept_def carried_def tx_later_def event_later_def wallet_later_def message_later_def
    by blast
qed

theorem service_history_append_only_witness:
  "\<exists>x \<in> set (db_wallets (wd_db (snd (serve opening_lib sample_service sample_requests sample_world)))). wr_id x = 1 \<and> wr_player_id x = 2"
  using service_history_append_only [OF sound_opening_lib, of sample_world, OF _ _ refl refl,
      of sample_service sample_requests]
  by (auto simp: sample_world_def sample_db_integrity)
    (force simp: sample_db_def wallet_to_row_def sample_wallet_def)

text \<open>
  (C2) Nothing is recorded twice: in every state the service reaches, an external transaction
  identifier and an idempotency key belong to one transaction of their provider, a reference has
  at most one processed refund and one processed rollback, a player has one wallet per currency, a
  transaction has at most one ledger entry per wallet, and a queue message has one inbox row. And no
  reference dangles: the wallet of a transaction, the transaction it reverses or refers to, and the
  wallet and the transaction of a ledger entry are all recorded.
\<close>

theorem service_records_once:
  assumes "sound_others L" and "db_integrity (wd_db w)" and "wd_saves w = []"
    and "after = wd_db (snd (serve L svc requests w))"
  shows "(\<forall>s \<in> set (db_transactions after). \<forall>t \<in> set (db_transactions after).
       tr_origin s = ''EXTERNAL'' \<and> tr_origin t = ''EXTERNAL'' \<and> tr_provider_id s = tr_provider_id t \<and>
       (tr_external_transaction_id s = tr_external_transaction_id t \<or> tr_idempotency_key s = tr_idempotency_key t)
         \<longrightarrow> s = t) \<and>
    (\<forall>s \<in> set (db_transactions after). \<forall>t \<in> set (db_transactions after).
       counts_as_reversal s \<and> counts_as_reversal t \<and> tr_kind s = tr_kind t \<and>
       tr_reference_transaction_id s = tr_reference_transaction_id t \<and> tr_reference_transaction_id s \<noteq> None
         \<longrightarrow> s = t) \<and>
    (\<forall>a \<in> set (db_ledger after). \<forall>b \<in> set (db_ledger after).
       lr_wallet_id a = lr_wallet_id b \<and> lr_transaction_id a = lr_transaction_id b \<longrightarrow> a = b) \<and>
    (\<forall>a \<in> set (db_inbox after). \<forall>b \<in> set (db_inbox after).
       ir_consumer_name a = ir_consumer_name b \<and> ir_message_id a = ir_message_id b \<longrightarrow> a = b) \<and>
    (\<forall>a \<in> set (db_wallets after). \<forall>b \<in> set (db_wallets after).
       wr_player_id a = wr_player_id b \<and> wr_currency a = wr_currency b \<longrightarrow> a = b) \<and>
    (\<forall>t \<in> set (db_transactions after). (\<exists>x \<in> set (db_wallets after). wr_id x = tr_wallet_id t) \<and>
       (\<forall>i. tr_reference_transaction_id t = Some i \<longrightarrow> (\<exists>q \<in> set (db_transactions after). tr_id q = i))) \<and>
    (\<forall>a \<in> set (db_ledger after). (\<exists>x \<in> set (db_wallets after). wr_id x = lr_wallet_id a) \<and>
       (\<exists>t \<in> set (db_transactions after). tr_id t = lr_transaction_id a))"
proof -
  have i: "db_integrity after"
    using serve_sound [OF assms(1-3), of svc requests] by (simp add: sound_step_def assms(4))
  have external: "tr_provider_id t \<noteq> None \<and> tr_external_transaction_id t \<noteq> None \<and> tr_idempotency_key t \<noteq> None"
    if "t \<in> set (db_transactions after)" "tr_origin t = ''EXTERNAL''" for t
  proof -
    have "list_all snd (tx_checks t)" using i that(1) by (simp add: db_integrity_def checked_def)
    then show ?thesis using that(2) by (simp add: tx_checks_def)
  qed
  have tx: "s = t"
    if "s \<in> set (db_transactions after)" "t \<in> set (db_transactions after)" "tx_clash s t" for s t
    using i table_unique [OF _ that tx_clash_sym [OF that(3)]] by (simp add: db_integrity_def)
  have ledger: "a = b"
    if "a \<in> set (db_ledger after)" "b \<in> set (db_ledger after)" "ledger_clash a b" "ledger_clash b a" for a b
    using i table_unique [OF _ that] by (simp add: db_integrity_def)
  have inbox: "a = b"
    if "a \<in> set (db_inbox after)" "b \<in> set (db_inbox after)" "inbox_clash a b" "inbox_clash b a" for a b
    using i table_unique [OF _ that] by (simp add: db_integrity_def)
  have key: "s = t"
    if "s \<in> set (db_transactions after)" "t \<in> set (db_transactions after)"
      and e: "tr_origin s = ''EXTERNAL''" "tr_origin t = ''EXTERNAL''" "tr_provider_id s = tr_provider_id t"
      and k: "tr_external_transaction_id s = tr_external_transaction_id t \<or> tr_idempotency_key s = tr_idempotency_key t"
    for s t
    using external [OF that(1) e(1)] e k by (intro tx [OF that(1,2)]) (auto simp: tx_clash_def same_key_def)
  have reversal: "s = t"
    if "s \<in> set (db_transactions after)" "t \<in> set (db_transactions after)"
      and r: "counts_as_reversal s" "counts_as_reversal t" "tr_kind s = tr_kind t"
      and k: "tr_reference_transaction_id s = tr_reference_transaction_id t" "tr_reference_transaction_id s \<noteq> None"
    for s t
    using r k by (intro tx [OF that(1,2)]) (simp add: tx_clash_def same_key_def)
  have wallet: "a = b"
    if "a \<in> set (db_wallets after)" "b \<in> set (db_wallets after)" "wallet_clash a b" "wallet_clash b a" for a b
    using i table_unique [OF _ that] by (simp add: db_integrity_def)
  have tx_refs: "(\<exists>x \<in> set (db_wallets after). wr_id x = tr_wallet_id t) \<and>
       (\<forall>i. tr_reference_transaction_id t = Some i \<longrightarrow> (\<exists>q \<in> set (db_transactions after). tr_id q = i))"
    if "t \<in> set (db_transactions after)" for t
    using i that by (simp add: db_integrity_def references_ok_def)
  have refs: "(\<exists>x \<in> set (db_wallets after). wr_id x = lr_wallet_id a) \<and>
       (\<exists>t \<in> set (db_transactions after). tr_id t = lr_transaction_id a)" if "a \<in> set (db_ledger after)" for a
    using i that by (simp add: db_integrity_def references_ok_def)
  have owner: "a = b"
    if "a \<in> set (db_wallets after)" "b \<in> set (db_wallets after)"
      "wr_player_id a = wr_player_id b" "wr_currency a = wr_currency b" for a b
    using that by (intro wallet) (simp_all add: wallet_clash_def)
  show ?thesis
    using tx_refs refs
    by (intro conjI ballI impI; (elim conjE)?)
      (use key reversal ledger inbox owner in \<open>simp_all add: ledger_clash_def inbox_clash_def\<close>)
qed

theorem service_records_once_witness:
  "\<exists>d. d = wd_db (snd (serve opening_lib sample_service sample_requests sample_world)) \<and>
     (\<forall>a \<in> set (db_ledger d). \<forall>b \<in> set (db_ledger d).
       lr_wallet_id a = lr_wallet_id b \<and> lr_transaction_id a = lr_transaction_id b \<longrightarrow> a = b)"
proof -
  have w: "db_integrity (wd_db sample_world)" "wd_saves sample_world = []"
    by (simp_all add: sample_world_def sample_db_integrity)
  show ?thesis
    using service_records_once [OF sound_opening_lib w refl,
      of sample_service sample_requests] by blast
qed

end
